(* ===== verification/Idx_Prelude.thy ===== *)
theory Idx_Prelude
  imports Main "HOL-Library.Word" "HOL-Library.Char_ord" "HOL-Library.List_Lexorder"
begin

text \<open>
  What every component shares. A Rust \<open>Result\<close> is a sum whose left side is the error; a
  repository method is a program over an explicit state that returns such a sum beside the state
  it leaves behind, so that an error after a committed write keeps the write, and a database
  transaction is the program that restores its tables if it fails. Tables are lists of
  rows; the query forms the repositories use (first match, update of the matching rows) are list
  functions with their laws.
\<close>

section \<open>Results\<close>

abbreviation Ok :: "'a \<Rightarrow> 'e + 'a" where "Ok \<equiv> Inr"

abbreviation Err :: "'e \<Rightarrow> 'e + 'a" where "Err \<equiv> Inl"

definition and_then :: "'e + 'a \<Rightarrow> ('a \<Rightarrow> 'e + 'b) \<Rightarrow> 'e + 'b" where
  "and_then r f = (case r of Inl e \<Rightarrow> Inl e | Inr a \<Rightarrow> f a)"

definition ok_or :: "'e \<Rightarrow> 'a option \<Rightarrow> 'e + 'a" where
  "ok_or e x = (case x of None \<Rightarrow> Inl e | Some a \<Rightarrow> Inr a)"

definition transpose :: "('e + 'a) option \<Rightarrow> 'e + 'a option" where
  "transpose x = (case x of None \<Rightarrow> Inr None | Some (Inl e) \<Rightarrow> Inl e | Some (Inr a) \<Rightarrow> Inr (Some a))"

definition is_ok :: "'e + 'a \<Rightarrow> bool" where
  "is_ok r = (case r of Inl _ \<Rightarrow> False | Inr _ \<Rightarrow> True)"

definition ensure :: "bool \<Rightarrow> 'e \<Rightarrow> 'e + unit" where
  "ensure b e = (if b then Inr () else Inl e)"

text \<open>\<open>collect\<close> over an iterator of results: the first error ends it.\<close>

fun map_result :: "('a \<Rightarrow> 'e + 'b) \<Rightarrow> 'a list \<Rightarrow> 'e + 'b list" where
  "map_result f [] = Inr []"
| "map_result f (x # xs) = and_then (f x) (\<lambda>y. and_then (map_result f xs) (\<lambda>ys. Inr (y # ys)))"

lemma and_then_simps [simp]:
  "and_then (Inl e) f = Inl e"
  "and_then (Inr a) f = f a"
  by (simp_all add: and_then_def)

lemma and_then_Ok_iff [simp]:
  "and_then r f = Inr b \<longleftrightarrow> (\<exists>a. r = Inr a \<and> f a = Inr b)"
  by (cases r) auto

lemma and_then_Err_iff:
  "and_then r f = Inl e \<longleftrightarrow> r = Inl e \<or> (\<exists>a. r = Inr a \<and> f a = Inl e)"
  by (cases r) auto

lemma ok_or_simps [simp]:
  "ok_or e None = Inl e"
  "ok_or e (Some a) = Inr a"
  by (simp_all add: ok_or_def)

lemma ok_or_Ok_iff [simp]: "ok_or e x = Inr a \<longleftrightarrow> x = Some a"
  by (cases x) auto

lemma ensure_simps [simp]:
  "ensure True e = Inr ()"
  "ensure False e = Inl e"
  by (simp_all add: ensure_def)

lemma ensure_Ok_iff [simp]: "ensure b e = Inr u \<longleftrightarrow> b"
  by (simp add: ensure_def)

lemma transpose_simps [simp]:
  "transpose None = Inr None"
  "transpose (Some (Inl e)) = Inl e"
  "transpose (Some (Inr a)) = Inr (Some a)"
  by (simp_all add: transpose_def)

lemma is_ok_simps [simp]:
  "is_ok (Inl e) = False"
  "is_ok (Inr a) = True"
  by (simp_all add: is_ok_def)

lemma map_result_length: "map_result f xs = Inr ys \<Longrightarrow> length ys = length xs"
  by (induction xs arbitrary: ys) auto

lemma map_result_pure: "(\<And>x. x \<in> set xs \<Longrightarrow> f x = Inr (g x)) \<Longrightarrow> map_result f xs = Inr (map g xs)"
  by (induction xs) auto

lemma map_result_Ok_iff:
  "map_result f xs = Inr ys \<longleftrightarrow> list_all2 (\<lambda>x y. f x = Inr y) xs ys"
proof (induction xs arbitrary: ys)
  case Nil
  then show ?case by auto
next
  case (Cons x xs)
  then show ?case by (cases ys) auto
qed

section \<open>Programs over a state\<close>

type_synonym ('s, 'e, 'a) prog = "'s \<Rightarrow> ('e + 'a) \<times> 's"

definition ret :: "'a \<Rightarrow> ('s, 'e, 'a) prog" where
  "ret a = (\<lambda>s. (Inr a, s))"

definition throw :: "'e \<Rightarrow> ('s, 'e, 'a) prog" where
  "throw e = (\<lambda>s. (Inl e, s))"

definition seq :: "('s, 'e, 'a) prog \<Rightarrow> ('a \<Rightarrow> ('s, 'e, 'b) prog) \<Rightarrow> ('s, 'e, 'b) prog" where
  "seq m f = (\<lambda>s. case m s of (Inl e, s') \<Rightarrow> (Inl e, s') | (Inr a, s') \<Rightarrow> f a s')"

definition lift :: "'e + 'a \<Rightarrow> ('s, 'e, 'a) prog" where
  "lift r = (\<lambda>s. (r, s))"

definition reads :: "('s \<Rightarrow> 'a) \<Rightarrow> ('s, 'e, 'a) prog" where
  "reads f = (\<lambda>s. (Inr (f s), s))"

definition writes :: "('s \<Rightarrow> 's) \<Rightarrow> ('s, 'e, unit) prog" where
  "writes f = (\<lambda>s. (Inr (), f s))"

text \<open>\<open>restore s t\<close> is the state after a rollback from \<open>t\<close> to the start state \<open>s\<close>.\<close>

definition transaction :: "('s \<Rightarrow> 's \<Rightarrow> 's) \<Rightarrow> ('s, 'e, 'a) prog \<Rightarrow> ('s, 'e, 'a) prog" where
  "transaction restore m = (\<lambda>s. case m s of (Inl e, t) \<Rightarrow> (Inl e, restore s t) | (Inr a, t) \<Rightarrow> (Inr a, t))"

definition run_if :: "bool \<Rightarrow> ('s, 'e, unit) prog \<Rightarrow> ('s, 'e, unit) prog" where
  "run_if b m = (if b then m else ret ())"

fun each :: "('a \<Rightarrow> ('s, 'e, unit) prog) \<Rightarrow> 'a list \<Rightarrow> ('s, 'e, unit) prog" where
  "each f [] = ret ()"
| "each f (x # xs) = seq (f x) (\<lambda>_. each f xs)"

lemma prog_iff [simp]:
  "ret a s = (r, t) \<longleftrightarrow> r = Inr a \<and> t = s"
  "throw e s = (r, t) \<longleftrightarrow> r = Inl e \<and> t = s"
  "lift x s = (r, t) \<longleftrightarrow> x = r \<and> t = s"
  "reads f s = (q, t) \<longleftrightarrow> q = Inr (f s) \<and> t = s"
  "writes g s = (u, t) \<longleftrightarrow> u = Inr () \<and> t = g s"
  by (auto simp: ret_def throw_def lift_def reads_def writes_def)

lemma run_if_simps [simp]:
  "run_if True m = m"
  "run_if False m = ret ()"
  by (simp_all add: run_if_def)

lemma seq_apply: "seq m f s = (case m s of (Inl e, s') \<Rightarrow> (Inl e, s') | (Inr a, s') \<Rightarrow> f a s')"
  by (simp add: seq_def)

lemma seq_run [simp]:
  "seq (ret a) f s = f a s"
  "seq (throw e) f s = (Inl e, s)"
  "seq (lift (Inr a)) f s = f a s"
  "seq (lift (Inl e)) f s = (Inl e, s)"
  "seq (reads g) k s = k (g s) s"
  "seq (writes h) j s = j () (h s)"
  by (simp_all add: seq_def ret_def throw_def lift_def reads_def writes_def)

lemma seq_Ok_iff:
  "seq m f s = (Inr b, s') \<longleftrightarrow> (\<exists>a t. m s = (Inr a, t) \<and> f a t = (Inr b, s'))"
  by (cases "m s"; cases "fst (m s)") (auto simp: seq_def)

lemma seq_Ok [intro]: "m s = (Inr a, t) \<Longrightarrow> f a t = (r, s') \<Longrightarrow> seq m f s = (r, s')"
  by (simp add: seq_def)

lemma seq_Err [intro]: "m s = (Inl e, t) \<Longrightarrow> seq m f s = (Inl e, t)"
  by (simp add: seq_def)

lemma seq_assoc: "seq (seq m f) g = seq m (\<lambda>a. seq (f a) g)"
  by (rule ext) (simp add: seq_def split: prod.splits sum.splits)

lemma transaction_Ok_iff [simp]:
  "transaction rb m s = (Inr a, s') \<longleftrightarrow> m s = (Inr a, s')"
  by (auto simp: transaction_def split: prod.splits sum.splits)

lemma transaction_Err: "transaction rb m s = (Inl e, s') \<Longrightarrow> \<exists>t. m s = (Inl e, t) \<and> s' = rb s t"
  by (auto simp: transaction_def split: prod.splits sum.splits)

lemma each_append: "each f (xs @ ys) = seq (each f xs) (\<lambda>_. each f ys)"
proof (induction xs)
  case Nil
  show ?case by (rule ext) simp
next
  case (Cons x xs)
  then show ?case by (simp add: seq_assoc)
qed

text \<open>A predicate the program keeps if it succeeds.\<close>

definition keeps :: "('s \<Rightarrow> bool) \<Rightarrow> ('s, 'e, 'a) prog \<Rightarrow> bool" where
  "keeps P m \<longleftrightarrow> (\<forall>s a s'. P s \<longrightarrow> m s = (Inr a, s') \<longrightarrow> P s')"

lemma keepsI: "(\<And>s a s'. P s \<Longrightarrow> m s = (Inr a, s') \<Longrightarrow> P s') \<Longrightarrow> keeps P m"
  by (auto simp: keeps_def)

lemma keepsD: "keeps P m \<Longrightarrow> P s \<Longrightarrow> m s = (Inr a, s') \<Longrightarrow> P s'"
  by (auto simp: keeps_def)

lemma keeps_seq: "keeps P m \<Longrightarrow> (\<And>a. keeps P (f a)) \<Longrightarrow> keeps P (seq m f)"
  unfolding keeps_def seq_Ok_iff by blast

lemma keeps_pure [simp]: "keeps P (ret a)" "keeps P (throw e)" "keeps P (lift r)" "keeps P (reads g)"
  by (auto simp: keeps_def)

lemma keeps_each: "(\<And>x. x \<in> set xs \<Longrightarrow> keeps P (f x)) \<Longrightarrow> keeps P (each f xs)"
  by (induction xs) (auto intro!: keeps_seq)

lemma keeps_transaction: "keeps P m \<Longrightarrow> keeps P (transaction rb m)"
  by (auto simp: keeps_def)

lemma keeps_run_if: "keeps P m \<Longrightarrow> keeps P (run_if b m)"
  by (cases b) auto

text \<open>A kept predicate that a rollback respects survives either outcome of a transaction.\<close>

lemma transaction_keeps:
  "keeps P m \<Longrightarrow> P s \<Longrightarrow> (\<And>t. P (rb s t)) \<Longrightarrow> P (snd (transaction rb m s))"
  by (cases "m s"; cases "fst (m s)") (auto simp: transaction_def keeps_def)

text \<open>What a successful run establishes from a precondition, and the rule for sequences.\<close>

definition yields :: "('s \<Rightarrow> bool) \<Rightarrow> ('s, 'e, 'a) prog \<Rightarrow> ('a \<Rightarrow> 's \<Rightarrow> bool) \<Rightarrow> bool" where
  "yields P m Q \<longleftrightarrow> (\<forall>s a t. P s \<longrightarrow> m s = (Inr a, t) \<longrightarrow> Q a t)"

lemma yieldsI: "(\<And>s a t. P s \<Longrightarrow> m s = (Inr a, t) \<Longrightarrow> Q a t) \<Longrightarrow> yields P m Q"
  by (auto simp: yields_def)

lemma yieldsD: "yields P m Q \<Longrightarrow> P s \<Longrightarrow> m s = (Inr a, t) \<Longrightarrow> Q a t"
  by (auto simp: yields_def)

lemma yields_seq: "yields P m Q \<Longrightarrow> (\<And>a. yields (Q a) (f a) R) \<Longrightarrow> yields P (seq m f) R"
  unfolding yields_def seq_Ok_iff by blast

lemma yields_ret [simp]: "yields P (ret a) Q \<longleftrightarrow> (\<forall>s. P s \<longrightarrow> Q a s)"
  by (auto simp: yields_def)

lemma upt_split: "i \<le> j \<Longrightarrow> j \<le> k \<Longrightarrow> [i..<j] @ [j..<k] = [i..<k]"
  by (metis le_add_diff_inverse upt_add_eq_append)

section \<open>Tables as lists of rows\<close>

definition update_rows :: "('r \<Rightarrow> bool) \<Rightarrow> ('r \<Rightarrow> 'r) \<Rightarrow> 'r list \<Rightarrow> 'r list" where
  "update_rows P f rows = map (\<lambda>r. if P r then f r else r) rows"

definition count_rows :: "('r \<Rightarrow> bool) \<Rightarrow> 'r list \<Rightarrow> nat" where
  "count_rows P rows = length (filter P rows)"

lemma update_rows_simps [simp]:
  "update_rows P f [] = []"
  "update_rows P f (r # rs) = (if P r then f r else r) # update_rows P f rs"
  by (simp_all add: update_rows_def)

lemma length_update_rows [simp]: "length (update_rows P f rows) = length rows"
  by (simp add: update_rows_def)

lemma update_rows_append [simp]: "update_rows P f (xs @ ys) = update_rows P f xs @ update_rows P f ys"
  by (simp add: update_rows_def)

lemma update_rows_none: "(\<And>r. r \<in> set rows \<Longrightarrow> \<not> P r) \<Longrightarrow> update_rows P f rows = rows"
  by (induction rows) auto

lemma in_update_rows:
  "r \<in> set (update_rows P f rows) \<longleftrightarrow> (\<exists>q \<in> set rows. r = (if P q then f q else q))"
  by (auto simp: update_rows_def)

lemma map_update_rows: "(\<And>r. P r \<Longrightarrow> g (f r) = g r) \<Longrightarrow> map g (update_rows P f rows) = map g rows"
  by (induction rows) auto

lemma update_rows_id: "(\<And>r. P r \<Longrightarrow> f r = r) \<Longrightarrow> update_rows P f rows = rows"
  by (induction rows) auto

lemma find_Some_set: "List.find P xs = Some x \<Longrightarrow> x \<in> set xs \<and> P x"
  by (auto simp: find_Some_iff)

lemma find_None_set: "List.find P xs = None \<longleftrightarrow> (\<forall>x \<in> set xs. \<not> P x)"
  by (auto simp: find_None_iff)

lemma find_exists: "x \<in> set xs \<Longrightarrow> P x \<Longrightarrow> \<exists>y. List.find P xs = Some y"
  by (cases "List.find P xs") (auto simp: find_None_set)

lemma find_update_rows:
  "(\<And>r. P r \<Longrightarrow> P (f r)) \<Longrightarrow> List.find P (update_rows P f rows) = map_option f (List.find P rows)"
  by (induction rows) auto

lemma find_update_rows_other:
  "(\<And>r. P r \<Longrightarrow> \<not> Q r \<and> \<not> Q (f r)) \<Longrightarrow> List.find Q (update_rows P f rows) = List.find Q rows"
  by (induction rows) auto

lemma find_append: "List.find P (xs @ ys) = (case List.find P xs of None \<Rightarrow> List.find P ys | Some x \<Rightarrow> Some x)"
  by (induction xs) auto

text \<open>A key under which at most one row is stored.\<close>

definition unique_key :: "('r \<Rightarrow> 'k) \<Rightarrow> 'r list \<Rightarrow> bool" where
  "unique_key k rows \<longleftrightarrow> distinct (map k rows)"

lemma unique_key_Nil [simp]: "unique_key k []"
  by (simp add: unique_key_def)

lemma unique_key_Cons [simp]: "unique_key k (r # rs) \<longleftrightarrow> k r \<notin> k ` set rs \<and> unique_key k rs"
  by (auto simp: unique_key_def)

lemma unique_key_snoc [simp]: "unique_key k (rs @ [r]) \<longleftrightarrow> k r \<notin> k ` set rs \<and> unique_key k rs"
  by (auto simp: unique_key_def)

lemma unique_key_eq:
  "unique_key k rows \<Longrightarrow> r \<in> set rows \<Longrightarrow> q \<in> set rows \<Longrightarrow> k r = k q \<Longrightarrow> r = q"
  by (auto simp: unique_key_def distinct_map dest: inj_onD)

lemma unique_key_update:
  "(\<And>r. P r \<Longrightarrow> k (f r) = k r) \<Longrightarrow> unique_key k (update_rows P f rows) \<longleftrightarrow> unique_key k rows"
  by (simp add: unique_key_def map_update_rows)

lemma find_unique_key:
  "unique_key k rows \<Longrightarrow> r \<in> set rows \<Longrightarrow> List.find (\<lambda>q. k q = k r) rows = Some r"
  by (induction rows) (auto simp: image_iff)

text \<open>A sum over a table after the one row under a key has changed.\<close>

lemma sum_list_update_unique:
  fixes g :: "'r \<Rightarrow> int"
  assumes "unique_key k rows" and "r \<in> set rows"
  shows "sum_list (map g (update_rows (\<lambda>q. k q = k r) f rows)) = sum_list (map g rows) - g r + g (f r)"
  using assms
proof (induction rows)
  case Nil
  then show ?case by simp
next
  case (Cons q rows)
  show ?case
  proof (cases "r = q")
    case True
    with Cons.prems have "\<And>x. x \<in> set rows \<Longrightarrow> k x \<noteq> k r"
      by (auto simp: image_iff)
    then have "update_rows (\<lambda>q. k q = k r) f rows = rows"
      by (intro update_rows_none) auto
    with True show ?thesis by simp
  next
    case False
    with Cons.prems have "r \<in> set rows" and "k q \<noteq> k r"
      by (auto simp: image_iff)
    with Cons show ?thesis by simp
  qed
qed

text \<open>ORDER BY with a given order: a stable insertion sort.\<close>

fun insert_by :: "('r \<Rightarrow> 'r \<Rightarrow> bool) \<Rightarrow> 'r \<Rightarrow> 'r list \<Rightarrow> 'r list" where
  "insert_by le x [] = [x]"
| "insert_by le x (y # ys) = (if le x y then x # y # ys else y # insert_by le x ys)"

definition sort_by :: "('r \<Rightarrow> 'r \<Rightarrow> bool) \<Rightarrow> 'r list \<Rightarrow> 'r list" where
  "sort_by le xs = foldr (insert_by le) xs []"

lemma set_insert_by [simp]: "set (insert_by le x ys) = insert x (set ys)"
  by (induction ys) auto

lemma set_sort_by [simp]: "set (sort_by le xs) = set xs"
  by (induction xs) (auto simp: sort_by_def)

lemma length_insert_by [simp]: "length (insert_by le x ys) = Suc (length ys)"
  by (induction ys) auto

lemma length_sort_by [simp]: "length (sort_by le xs) = length xs"
  by (induction xs) (auto simp: sort_by_def)

lemma distinct_insert_by: "distinct (insert_by le x ys) \<longleftrightarrow> x \<notin> set ys \<and> distinct ys"
  by (induction ys) auto

lemma distinct_sort_by [simp]: "distinct (sort_by le xs) = distinct xs"
proof (induction xs)
  case Nil
  show ?case by (simp add: sort_by_def)
next
  case (Cons x xs)
  then show ?case
    using set_sort_by [of le xs] by (simp add: sort_by_def distinct_insert_by)
qed

lemma sorted_insert_by:
  assumes "\<And>a b. le a b \<or> le b a" and "\<And>a b c. le a b \<Longrightarrow> le b c \<Longrightarrow> le a c"
  shows "sorted_wrt le ys \<Longrightarrow> sorted_wrt le (insert_by le x ys)"
  by (induction ys) (use assms in \<open>auto intro: assms(2)\<close>)

lemma sorted_sort_by:
  assumes "\<And>a b. le a b \<or> le b a" and "\<And>a b c. le a b \<Longrightarrow> le b c \<Longrightarrow> le a c"
  shows "sorted_wrt le (sort_by le xs)"
proof (induction xs)
  case Nil
  show ?case by (simp add: sort_by_def)
next
  case (Cons x xs)
  from sorted_insert_by [OF assms this] show ?case by (simp add: sort_by_def)
qed

end
