(* ===== verification/Rust_Int.thy ===== *)
theory Rust_Int
  imports Idx_Prelude
begin

text \<open>
  The integer types the code uses. A \<open>u64\<close> is a 64-bit word, so its additions wrap unless
  the source saturates them. The signed types are integers kept in their range by the
  conversions below, which are the source's casts: \<open>as\<close> reinterprets or truncates the bits,
  \<open>try_from\<close> fails out of range. A \<open>usize\<close> that only counts or indexes is a \<open>nat\<close>.
\<close>

type_synonym u64 = "64 word"

definition u64_limit :: nat where "u64_limit = 2 ^ 64"

definition i64_min :: int where "i64_min = - (2 ^ 63)"

definition i64_max :: int where "i64_max = 2 ^ 63 - 1"

definition i32_min :: int where "i32_min = - (2 ^ 31)"

definition i32_max :: int where "i32_max = 2 ^ 31 - 1"

definition in_i64 :: "int \<Rightarrow> bool" where
  "in_i64 i \<longleftrightarrow> i64_min \<le> i \<and> i \<le> i64_max"

definition in_i32 :: "int \<Rightarrow> bool" where
  "in_i32 i \<longleftrightarrow> i32_min \<le> i \<and> i \<le> i32_max"

definition u64_as_i64 :: "u64 \<Rightarrow> int" where "u64_as_i64 w = sint w"

definition i64_as_u64 :: "int \<Rightarrow> u64" where "i64_as_u64 i = word_of_int i"

definition u64_as_i32 :: "u64 \<Rightarrow> int" where "u64_as_i32 w = sint (ucast w :: 32 word)"

definition u64_saturating_add :: "u64 \<Rightarrow> u64 \<Rightarrow> u64" where
  "u64_saturating_add a b = (if a + b < a then - 1 else a + b)"

definition u64_saturating_sub :: "u64 \<Rightarrow> u64 \<Rightarrow> u64" where
  "u64_saturating_sub a b = (if a < b then 0 else a - b)"

definition i64_saturate :: "int \<Rightarrow> int" where
  "i64_saturate i = max i64_min (min i64_max i)"

definition i64_saturating_add :: "int \<Rightarrow> int \<Rightarrow> int" where
  "i64_saturating_add a b = i64_saturate (a + b)"

definition i64_saturating_sub :: "int \<Rightarrow> int \<Rightarrow> int" where
  "i64_saturating_sub a b = i64_saturate (a - b)"

definition i64_wrapping_add :: "int \<Rightarrow> int \<Rightarrow> int" where
  "i64_wrapping_add a b = sint (word_of_int (a + b) :: u64)"

definition i32_wrapping_add :: "int \<Rightarrow> int \<Rightarrow> int" where
  "i32_wrapping_add a b = sint (word_of_int (a + b) :: 32 word)"

definition i64_try_from_u64 :: "u64 \<Rightarrow> int option" where
  "i64_try_from_u64 w = (if uint w \<le> i64_max then Some (uint w) else None)"

definition u64_try_from_i64 :: "int \<Rightarrow> u64 option" where
  "u64_try_from_i64 i = (if 0 \<le> i then Some (word_of_int i) else None)"

definition i32_try_from_u64 :: "u64 \<Rightarrow> int option" where
  "i32_try_from_u64 w = (if uint w \<le> i32_max then Some (uint w) else None)"

definition clamp_int :: "int \<Rightarrow> int \<Rightarrow> int \<Rightarrow> int" where
  "clamp_int i lo hi = (if i < lo then lo else if hi < i then hi else i)"

named_theorems rust_int_defs

lemmas int_range_defs [rust_int_defs] =
  i64_min_def i64_max_def i32_min_def i32_max_def in_i64_def in_i32_def u64_limit_def

lemma uint_u64_bounds [simp]: "0 \<le> uint (w :: u64)" "uint (w :: u64) < 18446744073709551616"
  using uint_range_size [of w] by (auto simp: word_size)

lemma unat_u64_lt [simp]: "unat (w :: u64) < 18446744073709551616"
  using unsigned_less [of w, where ?'a = nat] by simp

lemma unat_u64_max: "unat (- 1 :: u64) = 18446744073709551615"
  by (simp add: unsigned_minus_1_eq_mask mask_eq_exp_minus_1)

lemma signed_take_bit_64:
  assumes "- 9223372036854775808 \<le> i" and "i \<le> 9223372036854775807"
  shows "signed_take_bit 63 i = (i :: int)"
  by (rule signed_take_bit_int_eq_self) (use assms in simp_all)

lemma sint_word_of_int_64:
  assumes "in_i64 i"
  shows "sint (word_of_int i :: u64) = i"
  using assms by (simp add: signed_of_int int_range_defs signed_take_bit_64)

lemma u64_as_i64_small:
  assumes "uint w \<le> i64_max"
  shows "u64_as_i64 w = uint w"
proof -
  have "sint (word_of_int (uint w) :: u64) = uint w"
    by (rule sint_word_of_int_64)
      (use assms order_trans [OF _ uint_u64_bounds(1) [of w]] in \<open>simp add: int_range_defs\<close>)
  then show ?thesis by (simp add: u64_as_i64_def)
qed

lemma i64_as_u64_nonneg:
  assumes "0 \<le> i" and "in_i64 i"
  shows "uint (i64_as_u64 i) = i"
  using assms by (simp add: i64_as_u64_def int_range_defs uint_word_of_int)

lemma unat_i64_as_u64:
  assumes "0 \<le> i" and "in_i64 i"
  shows "unat (i64_as_u64 i) = nat i"
  using i64_as_u64_nonneg [OF assms] by (simp add: unat_eq_nat_uint)

lemma u64_as_i64_as_u64: "0 \<le> i \<Longrightarrow> in_i64 i \<Longrightarrow> u64_as_i64 (i64_as_u64 i) = i"
  using u64_as_i64_small [of "i64_as_u64 i"] i64_as_u64_nonneg [of i]
  by (simp add: int_range_defs)

lemma unat_add_u64: "unat (a + b :: u64) = (unat a + unat b) mod 18446744073709551616"
  by (simp add: unat_word_ariths)

lemma unat_saturating_add: "unat (u64_saturating_add a b) = min (unat a + unat b) 18446744073709551615"
proof (cases "unat a + unat b < 18446744073709551616")
  case True
  then have "unat (a + b) = unat a + unat b"
    by (simp add: unat_add_u64)
  with True show ?thesis
    by (simp add: u64_saturating_add_def word_less_nat_alt)
next
  case False
  have a: "unat a < 18446744073709551616" and b: "unat b < 18446744073709551616"
    by (rule unat_u64_lt)+
  from a b have "unat a + unat b - 18446744073709551616 < 18446744073709551616"
    by arith
  with False have "unat (a + b) = unat a + unat b - 18446744073709551616"
    unfolding unat_add_u64 by (simp only: not_less le_mod_geq mod_less)
  with False b have "unat (a + b) < unat a"
    by arith
  with False show ?thesis
    unfolding u64_saturating_add_def word_less_nat_alt by (simp add: min_def unat_u64_max)
qed

lemma unat_saturating_sub: "unat (u64_saturating_sub a b) = unat a - unat b"
  by (simp add: u64_saturating_sub_def word_less_nat_alt unat_sub word_le_nat_alt)

lemma unat_min: "unat (min a b :: u64) = min (unat a) (unat b)"
  by (auto simp: min_def word_le_nat_alt)

lemma unat_max: "unat (max a b :: u64) = max (unat a) (unat b)"
  by (auto simp: max_def word_le_nat_alt)

lemma unat_succ:
  assumes "(w :: u64) \<noteq> - 1"
  shows "unat (w + 1) = unat w + 1"
proof -
  have "1 + w \<noteq> 0"
    using assms eq_neg_iff_add_eq_0 [of w 1] by (simp add: add.commute)
  then show ?thesis
    using unatSuc [of w] by (simp add: add.commute)
qed

lemma unat_pred: "(w :: u64) \<noteq> 0 \<Longrightarrow> unat (w - 1) = unat w - 1"
  by (simp add: unat_minus_one)

lemma i32_wrapping_add_small:
  assumes "in_i32 (a + b)"
  shows "i32_wrapping_add a b = a + b"
proof -
  have "signed_take_bit 31 (a + b) = a + b"
    by (rule signed_take_bit_int_eq_self) (use assms in \<open>simp_all add: int_range_defs\<close>)
  then show ?thesis
    by (simp add: i32_wrapping_add_def signed_of_int del: of_int_add)
qed

lemma i32_wrapping_succ:
  assumes "0 \<le> a" and "in_i32 a" and "0 \<le> i32_wrapping_add a 1"
  shows "i32_wrapping_add a 1 = a + 1 \<and> in_i32 (a + 1)"
proof (cases "a = i32_max")
  case True
  then have "i32_wrapping_add a 1 < 0"
    by (simp add: i32_wrapping_add_def i32_max_def signed_of_int signed_take_bit_int_less_exp signed_take_bit_eq_if_negative)
  with assms(3) show ?thesis by simp
next
  case False
  then have "in_i32 (a + 1)"
    using assms(1,2) by (simp add: int_range_defs)
  then show ?thesis
    using i32_wrapping_add_small by simp
qed

lemma clamp_int_bounds: "lo \<le> hi \<Longrightarrow> lo \<le> clamp_int i lo hi \<and> clamp_int i lo hi \<le> hi"
  by (simp add: clamp_int_def)

lemma clamp_int_id: "lo \<le> i \<Longrightarrow> i \<le> hi \<Longrightarrow> clamp_int i lo hi = i"
  by (simp add: clamp_int_def)

end
