(* ===== verification/Rust_Str.thy ===== *)
theory Rust_Str
  imports Rust_Int
begin

text \<open>
  The string operations of the standard library that the code uses. A Rust string is the list of
  its UTF-8 bytes, so \<open>length\<close> is \<open>len()\<close>. Slicing off a character boundary panics in
  Rust, so the slice returns an option. The numeric parsers follow \<open>from_str_radix\<close>: a
  leading plus sign is accepted, an empty string or a lone sign is not, and a value out of range
  is an error.
\<close>

section \<open>Bytes and case\<close>

definition byte :: "char \<Rightarrow> nat" where "byte c = of_char c"

definition ascii_lower_char :: "char \<Rightarrow> char" where
  "ascii_lower_char c = (if 65 \<le> byte c \<and> byte c \<le> 90 then char_of (byte c + 32) else c)"

definition to_ascii_lowercase :: "string \<Rightarrow> string" where
  "to_ascii_lowercase s = map ascii_lower_char s"

definition is_ascii_digit :: "char \<Rightarrow> bool" where
  "is_ascii_digit c \<longleftrightarrow> 48 \<le> byte c \<and> byte c \<le> 57"

definition is_ascii_hexdigit :: "char \<Rightarrow> bool" where
  "is_ascii_hexdigit c \<longleftrightarrow> is_ascii_digit c \<or> (65 \<le> byte c \<and> byte c \<le> 70) \<or> (97 \<le> byte c \<and> byte c \<le> 102)"

definition is_lower_char :: "char \<Rightarrow> bool" where
  "is_lower_char c \<longleftrightarrow> \<not> (65 \<le> byte c \<and> byte c \<le> 90)"

section \<open>Prefixes, search and slices\<close>

fun strip_prefix :: "string \<Rightarrow> string \<Rightarrow> string option" where
  "strip_prefix [] s = Some s"
| "strip_prefix (p # ps) [] = None"
| "strip_prefix (p # ps) (c # cs) = (if p = c then strip_prefix ps cs else None)"

definition starts_with :: "string \<Rightarrow> string \<Rightarrow> bool" where
  "starts_with p s \<longleftrightarrow> strip_prefix p s \<noteq> None"

fun str_find :: "string \<Rightarrow> string \<Rightarrow> nat option" where
  "str_find p [] = (if p = [] then Some 0 else None)"
| "str_find p (c # cs) = (if starts_with p (c # cs) then Some 0 else map_option Suc (str_find p cs))"

definition str_contains :: "string \<Rightarrow> string \<Rightarrow> bool" where
  "str_contains p s \<longleftrightarrow> str_find p s \<noteq> None"

definition is_continuation :: "char \<Rightarrow> bool" where
  "is_continuation c \<longleftrightarrow> 128 \<le> byte c \<and> byte c < 192"

definition is_char_boundary :: "string \<Rightarrow> nat \<Rightarrow> bool" where
  "is_char_boundary s i \<longleftrightarrow> i = 0 \<or> i = length s \<or> (i < length s \<and> \<not> is_continuation (s ! i))"

definition str_slice :: "string \<Rightarrow> nat \<Rightarrow> nat \<Rightarrow> string option" where
  "str_slice s a b =
     (if a \<le> b \<and> is_char_boundary s a \<and> is_char_boundary s b then Some (take (b - a) (drop a s)) else None)"

fun split_on :: "char \<Rightarrow> string \<Rightarrow> string list" where
  "split_on sep [] = [[]]"
| "split_on sep (c # cs) =
     (if c = sep then [] # split_on sep cs
      else (case split_on sep cs of [] \<Rightarrow> [[c]] | part # parts \<Rightarrow> (c # part) # parts))"

fun is_utf8 :: "nat list \<Rightarrow> bool" where
  "is_utf8 [] = True"
| "is_utf8 (a # r) =
     (if a < 128 then is_utf8 r
      else if 194 \<le> a \<and> a < 224 then
        (case r of b # r' \<Rightarrow> 128 \<le> b \<and> b < 192 \<and> is_utf8 r' | _ \<Rightarrow> False)
      else if 224 \<le> a \<and> a < 240 then
        (case r of b # c # r' \<Rightarrow>
           (if a = 224 then 160 else 128) \<le> b \<and> b < (if a = 237 then 160 else 192)
           \<and> 128 \<le> c \<and> c < 192 \<and> is_utf8 r' | _ \<Rightarrow> False)
      else if 240 \<le> a \<and> a < 245 then
        (case r of b # c # d # r' \<Rightarrow>
           (if a = 240 then 144 else 128) \<le> b \<and> b < (if a = 244 then 144 else 192)
           \<and> 128 \<le> c \<and> c < 192 \<and> 128 \<le> d \<and> d < 192 \<and> is_utf8 r' | _ \<Rightarrow> False)
      else False)"

section \<open>White space\<close>

text \<open>
  \<open>strip_space\<close> removes one leading character of Unicode's \<open>White_Space\<close> property, the
  one \<open>trim\<close> uses, given by its UTF-8 bytes.
\<close>

fun strip_space :: "string \<Rightarrow> string option" where
  "strip_space [] = None"
| "strip_space (c # cs) =
     (if (9 \<le> byte c \<and> byte c \<le> 13) \<or> byte c = 32 then Some cs
      else (case map byte (take 2 cs) of
        b # bs \<Rightarrow>
          (if byte c = 194 \<and> (b = 133 \<or> b = 160) then Some (drop 1 cs)
           else (case bs of
             d # _ \<Rightarrow>
               (if (byte c = 225 \<and> b = 154 \<and> d = 128)
                   \<or> (byte c = 226 \<and> b = 128 \<and> (128 \<le> d \<and> d \<le> 138 \<or> d = 168 \<or> d = 169 \<or> d = 175))
                   \<or> (byte c = 226 \<and> b = 129 \<and> d = 159)
                   \<or> (byte c = 227 \<and> b = 128 \<and> d = 128)
                then Some (drop 2 cs) else None)
           | [] \<Rightarrow> None))
      | [] \<Rightarrow> None))"

lemma strip_space_shorter: "strip_space s = Some r \<Longrightarrow> length r < length s"
  by (cases s) (auto split: if_splits list.splits)

function trim_start :: "string \<Rightarrow> string" where
  "trim_start s = (case strip_space s of None \<Rightarrow> s | Some r \<Rightarrow> trim_start r)"
  by pat_completeness auto
termination
  by (relation "measure length") (auto dest: strip_space_shorter)

declare trim_start.simps [simp del]

definition is_blank :: "string \<Rightarrow> bool" where
  "is_blank s \<longleftrightarrow> trim_start s = []"

fun trim_end :: "string \<Rightarrow> string" where
  "trim_end [] = []"
| "trim_end (c # cs) = (if is_blank (c # cs) then [] else c # trim_end cs)"

definition trim :: "string \<Rightarrow> string" where
  "trim s = trim_end (trim_start s)"

lemma trim_empty_iff: "trim s = [] \<longleftrightarrow> is_blank s"
proof -
  have "trim_start (trim_start s) = trim_start s"
  proof (induction s rule: trim_start.induct)
    case (1 s)
    show ?case
    proof (cases "strip_space s")
      case None
      then show ?thesis by (simp add: trim_start.simps)
    next
      case (Some r)
      then have "trim_start s = trim_start r"
        by (subst trim_start.simps) simp
      with 1 Some show ?thesis by simp
    qed
  qed
  then show ?thesis
    by (cases "trim_start s") (auto simp: trim_def is_blank_def)
qed

section \<open>Numbers\<close>

definition digit_value :: "char \<Rightarrow> nat option" where
  "digit_value c =
     (if 48 \<le> byte c \<and> byte c \<le> 57 then Some (byte c - 48)
      else if 97 \<le> byte c \<and> byte c \<le> 102 then Some (byte c - 87)
      else if 65 \<le> byte c \<and> byte c \<le> 70 then Some (byte c - 55)
      else None)"

fun digits_value :: "nat \<Rightarrow> nat \<Rightarrow> string \<Rightarrow> nat option" where
  "digits_value radix acc [] = Some acc"
| "digits_value radix acc (c # cs) =
     (case digit_value c of
        None \<Rightarrow> None
      | Some d \<Rightarrow> if d < radix then digits_value radix (acc * radix + d) cs else None)"

definition parse_unsigned :: "nat \<Rightarrow> nat \<Rightarrow> string \<Rightarrow> nat option" where
  "parse_unsigned radix limit s =
     (let digits = (if s \<noteq> [] \<and> hd s = CHR ''+'' then tl s else s)
      in if digits = [] then None
         else (case digits_value radix 0 digits of
             None \<Rightarrow> None
           | Some n \<Rightarrow> if n < limit then Some n else None))"

definition parse_signed :: "nat \<Rightarrow> int \<Rightarrow> int \<Rightarrow> string \<Rightarrow> int option" where
  "parse_signed radix lo hi s =
     (let negative = (s \<noteq> [] \<and> hd s = CHR ''-'');
          digits = (if s \<noteq> [] \<and> (hd s = CHR ''+'' \<or> hd s = CHR ''-'') then tl s else s)
      in if digits = [] then None
         else (case digits_value radix 0 digits of
             None \<Rightarrow> None
           | Some n \<Rightarrow>
               (let i = (if negative then - int n else int n)
                in if lo \<le> i \<and> i \<le> hi then Some i else None)))"

definition parse_u64 :: "nat \<Rightarrow> string \<Rightarrow> u64 option" where
  "parse_u64 radix s = map_option word_of_nat (parse_unsigned radix u64_limit s)"

definition parse_i64 :: "string \<Rightarrow> int option" where
  "parse_i64 s = parse_signed 10 i64_min i64_max s"

definition parse_i32 :: "string \<Rightarrow> int option" where
  "parse_i32 s = parse_signed 10 i32_min i32_max s"

definition digit_char :: "nat \<Rightarrow> char" where
  "digit_char d = (if d < 10 then char_of (48 + d) else char_of (87 + d))"

fun show_nat :: "nat \<Rightarrow> string" where
  "show_nat n = (if n < 10 then [digit_char n] else show_nat (n div 10) @ [digit_char (n mod 10)])"

declare show_nat.simps [simp del]

definition show_int :: "int \<Rightarrow> string" where
  "show_int i = (if i < 0 then CHR ''-'' # show_nat (nat (- i)) else show_nat (nat i))"

definition show_u64 :: "u64 \<Rightarrow> string" where
  "show_u64 w = show_nat (unat w)"

section \<open>Laws\<close>

lemma byte_char_of [simp]: "byte (char_of n) = n mod 256"
  by (simp add: byte_def)

lemma byte_less [simp]: "byte c < 256"
  by (simp add: byte_def)

lemma byte_inject: "byte c = byte d \<longleftrightarrow> c = d"
  by (simp add: byte_def)

lemma ascii_lower_char_idem [simp]: "ascii_lower_char (ascii_lower_char c) = ascii_lower_char c"
  by (auto simp: ascii_lower_char_def)

lemma ascii_lower_is_lower [simp]: "is_lower_char (ascii_lower_char c)"
  by (auto simp: ascii_lower_char_def is_lower_char_def)

lemma ascii_lower_fixed: "is_lower_char c \<Longrightarrow> ascii_lower_char c = c"
  by (auto simp: ascii_lower_char_def is_lower_char_def)

lemma hexdigit_lower [simp]: "is_ascii_hexdigit (ascii_lower_char c) = is_ascii_hexdigit c"
  by (auto simp: ascii_lower_char_def is_ascii_hexdigit_def is_ascii_digit_def)

lemma digit_lower: "is_ascii_digit c \<Longrightarrow> is_lower_char c"
  by (auto simp: is_lower_char_def is_ascii_digit_def)

lemma to_ascii_lowercase_simps [simp]:
  "to_ascii_lowercase [] = []"
  "to_ascii_lowercase (c # cs) = ascii_lower_char c # to_ascii_lowercase cs"
  "to_ascii_lowercase (s @ t) = to_ascii_lowercase s @ to_ascii_lowercase t"
  by (simp_all add: to_ascii_lowercase_def)

lemma to_ascii_lowercase_idem [simp]: "to_ascii_lowercase (to_ascii_lowercase s) = to_ascii_lowercase s"
  by (simp add: to_ascii_lowercase_def)

lemma length_to_ascii_lowercase [simp]: "length (to_ascii_lowercase s) = length s"
  by (simp add: to_ascii_lowercase_def)

lemma to_ascii_lowercase_eq_Nil [simp]: "to_ascii_lowercase s = [] \<longleftrightarrow> s = []"
  by (simp add: to_ascii_lowercase_def)

lemma to_ascii_lowercase_fixed: "list_all is_lower_char s \<Longrightarrow> to_ascii_lowercase s = s"
  by (induction s) (auto simp: ascii_lower_fixed)

lemma to_ascii_lowercase_lower: "list_all is_lower_char (to_ascii_lowercase s)"
  by (induction s) auto

lemma drop_to_ascii_lowercase: "drop n (to_ascii_lowercase s) = to_ascii_lowercase (drop n s)"
  by (simp add: to_ascii_lowercase_def drop_map)

lemma hexdigits_lower: "list_all is_ascii_hexdigit (to_ascii_lowercase s) = list_all is_ascii_hexdigit s"
  by (induction s) auto

lemma strip_prefix_Some_iff: "strip_prefix p s = Some r \<longleftrightarrow> s = p @ r"
  by (induction p s rule: strip_prefix.induct) auto

lemma strip_prefix_append [simp]: "strip_prefix p (p @ r) = Some r"
  by (simp add: strip_prefix_Some_iff)

lemma starts_with_iff: "starts_with p s \<longleftrightarrow> (\<exists>r. s = p @ r)"
  by (auto simp: starts_with_def strip_prefix_Some_iff)

lemma str_find_Some:
  "str_find p s = Some i \<Longrightarrow> take i s @ p @ drop (i + length p) s = s"
proof (induction p s arbitrary: i rule: str_find.induct)
  case (1 p)
  then show ?case by (auto split: if_splits)
next
  case (2 p c cs)
  show ?case
  proof (cases "starts_with p (c # cs)")
    case True
    then obtain r where "c # cs = p @ r" by (auto simp: starts_with_iff)
    moreover from True "2.prems" have "i = 0" by simp
    ultimately show ?thesis by simp
  next
    case False
    with "2.prems" obtain j where "str_find p cs = Some j" and "i = Suc j" by auto
    with "2.IH" False show ?thesis by simp
  qed
qed

lemma split_on_no_sep: "sep \<notin> set s \<Longrightarrow> split_on sep s = [s]"
  by (induction s) auto

lemma split_on_append: "sep \<notin> set a \<Longrightarrow> split_on sep (a @ sep # b) = a # split_on sep b"
  by (induction a) auto

lemma split_on_nonempty [simp]: "split_on sep s \<noteq> []"
  by (induction s) (auto split: list.splits)

lemma digit_value_char: "d < 16 \<Longrightarrow> digit_value (digit_char d) = Some d"
  by (auto simp: digit_char_def digit_value_def)

lemma digit_char_is_digit: "d < 10 \<Longrightarrow> is_ascii_digit (digit_char d)"
  by (simp add: digit_char_def is_ascii_digit_def)

lemma digit_char_is_hexdigit: "d < 16 \<Longrightarrow> is_ascii_hexdigit (digit_char d)"
  by (auto simp: digit_char_def is_ascii_hexdigit_def is_ascii_digit_def)

lemma digits_value_append:
  "digits_value r acc (xs @ ys) = (case digits_value r acc xs of None \<Rightarrow> None | Some v \<Rightarrow> digits_value r v ys)"
  by (induction r acc xs rule: digits_value.induct) (auto split: option.splits)

lemma digits_value_show_nat: "digits_value 10 0 (show_nat n) = Some n"
proof (induction n rule: show_nat.induct)
  case (1 n)
  show ?case
    by (subst show_nat.simps)
      (use 1 in \<open>auto simp: digits_value_append digit_value_char\<close>)
qed

lemma show_nat_nonempty [simp]: "show_nat n \<noteq> []"
  by (subst show_nat.simps) simp

lemma show_nat_digits: "list_all is_ascii_digit (show_nat n)"
proof (induction n rule: show_nat.induct)
  case (1 n)
  show ?case
    by (subst show_nat.simps) (use 1 in \<open>auto simp: digit_char_is_digit\<close>)
qed

lemma show_nat_inject: "show_nat m = show_nat n \<longleftrightarrow> m = n"
  by (metis digits_value_show_nat option.inject)

lemma not_digit_in_show_nat: "\<not> is_ascii_digit c \<Longrightarrow> c \<notin> set (show_nat n)"
  using show_nat_digits [of n] by (auto simp: list_all_iff)

lemma hd_show_nat_digit: "is_ascii_digit (hd (show_nat n))"
  using show_nat_digits [of n] by (cases "show_nat n") auto

lemma sign_not_digit: "\<not> is_ascii_digit (CHR ''+'')" "\<not> is_ascii_digit (CHR ''-'')" "\<not> is_ascii_digit (CHR '':'')"
  by (simp_all add: is_ascii_digit_def byte_def)

lemma hd_show_nat: "hd (show_nat n) \<noteq> CHR ''+''" "hd (show_nat n) \<noteq> CHR ''-''"
  using hd_show_nat_digit [of n] sign_not_digit by auto

lemma parse_unsigned_show_nat: "n < limit \<Longrightarrow> parse_unsigned 10 limit (show_nat n) = Some n"
  by (simp add: parse_unsigned_def hd_show_nat digits_value_show_nat)

lemma parse_u64_show_u64: "parse_u64 10 (show_u64 w) = Some w"
  by (simp add: parse_u64_def show_u64_def parse_unsigned_show_nat u64_limit_def)

lemma parse_signed_show_int:
  assumes "lo \<le> i" and "i \<le> hi"
  shows "parse_signed 10 lo hi (show_int i) = Some i"
proof (cases "i < 0")
  case True
  with assms show ?thesis
    by (simp add: parse_signed_def show_int_def digits_value_show_nat)
next
  case False
  with assms show ?thesis
    by (simp add: parse_signed_def show_int_def hd_show_nat digits_value_show_nat)
qed

lemma parse_i64_show_int: "in_i64 i \<Longrightarrow> parse_i64 (show_int i) = Some i"
  by (simp add: parse_i64_def parse_signed_show_int in_i64_def)

lemma parse_i32_show_int: "in_i32 i \<Longrightarrow> parse_i32 (show_int i) = Some i"
  by (simp add: parse_i32_def parse_signed_show_int in_i32_def)

lemma colon_not_in_show_int: "CHR '':'' \<notin> set (show_int i)"
  using not_digit_in_show_nat [OF sign_not_digit(3)] by (simp add: show_int_def)

lemma parse_i64_range: "parse_i64 s = Some i \<Longrightarrow> in_i64 i"
  by (auto simp: parse_i64_def parse_signed_def in_i64_def Let_def split: if_splits option.splits)

lemma parse_i32_range: "parse_i32 s = Some i \<Longrightarrow> in_i32 i"
  by (auto simp: parse_i32_def parse_signed_def in_i32_def Let_def split: if_splits option.splits)

lemma show_int_inject:
  assumes "show_int i = show_int j"
  shows "i = j"
proof -
  have "Some i = parse_signed 10 (min i j) (max i j) (show_int i)"
    by (rule parse_signed_show_int [symmetric]) auto
  also have "\<dots> = parse_signed 10 (min i j) (max i j) (show_int j)"
    by (simp only: assms)
  also have "\<dots> = Some j"
    by (rule parse_signed_show_int) auto
  finally show ?thesis by simp
qed

lemma show_u64_inject: "show_u64 a = show_u64 b \<longleftrightarrow> a = b"
  by (simp add: show_u64_def show_nat_inject word_unat_eq_iff)

lemma colon_not_in_show_u64: "CHR '':'' \<notin> set (show_u64 w)"
  using not_digit_in_show_nat [OF sign_not_digit(3)] by (simp add: show_u64_def)

text \<open>Fixed-width hexadecimal, as an ABI word is written.\<close>

fun hex_fixed :: "nat \<Rightarrow> nat \<Rightarrow> string" where
  "hex_fixed 0 n = []"
| "hex_fixed (Suc w) n = hex_fixed w (n div 16) @ [digit_char (n mod 16)]"

lemma length_hex_fixed [simp]: "length (hex_fixed w n) = w"
  by (induction w arbitrary: n) auto

lemma hex_fixed_digits: "list_all is_ascii_hexdigit (hex_fixed w n)"
  by (induction w arbitrary: n) (auto simp: digit_char_is_hexdigit)

lemma digits_value_hex_fixed: "n < 16 ^ w \<Longrightarrow> digits_value 16 0 (hex_fixed w n) = Some n"
proof (induction w arbitrary: n)
  case 0
  then show ?case by simp
next
  case (Suc w)
  then have "n div 16 < 16 ^ w"
    by (simp add: less_mult_imp_div_less mult.commute)
  with Suc.IH [of "n div 16"] show ?case
    by (simp add: digits_value_append digit_value_char)
qed

section \<open>Evaluation\<close>

text \<open>The same reading of a number with integers in binary, for the evaluation of examples.\<close>

fun digits_int :: "int \<Rightarrow> int \<Rightarrow> string \<Rightarrow> int option" where
  "digits_int radix acc [] = Some acc"
| "digits_int radix acc (c # cs) =
     (case digit_value c of
        None \<Rightarrow> None
      | Some d \<Rightarrow> if int d < radix then digits_int radix (acc * radix + int d) cs else None)"

lemma digits_int_value: "digits_int (int radix) (int acc) s = map_option int (digits_value radix acc s)"
  by (induction radix acc s rule: digits_value.induct) (auto split: option.splits)

lemma parse_u64_code [code]:
  "parse_u64 radix s =
     (let digits = (if s \<noteq> [] \<and> hd s = CHR ''+'' then tl s else s)
      in if digits = [] then None
         else (case digits_int (int radix) 0 digits of
             None \<Rightarrow> None
           | Some n \<Rightarrow> if n < 18446744073709551616 then Some (word_of_int n) else None))"
  using digits_int_value [of radix 0]
  by (auto simp: parse_u64_def parse_unsigned_def Let_def u64_limit_def split: option.splits)

end
