(* ===== verification/Domain.thy ===== *)
theory Domain
  imports Rust_Str
begin

text \<open>
  The domain layer (src/domain): the newtypes with the orders they derive, the checked
  constructors, and the enumerations with their text forms. A newtype is a one-constructor
  datatype, a struct a record, and a constructor that can refuse returns a \<open>domain_error\<close>.
\<close>

section \<open>Errors (domain/mod.rs)\<close>

datatype chain_id = ChainId u64

datatype block_number = BlockNumber u64

datatype domain_error =
    EmptyValue string
  | InvalidAddress string
  | InvalidHash string string
  | InvalidAmount string
  | InvalidRange block_number block_number
  | InvalidCheckpoint block_number block_number
  | InvalidEnumValue string string
  | InvalidLedgerEntry string

primrec block_get :: "block_number \<Rightarrow> u64" where "block_get (BlockNumber w) = w"

primrec chain_get :: "chain_id \<Rightarrow> u64" where "chain_get (ChainId w) = w"

definition show_block :: "block_number \<Rightarrow> string" where
  "show_block b = show_u64 (block_get b)"

fun domain_error_message :: "domain_error \<Rightarrow> string" where
  "domain_error_message (EmptyValue field) = field @ '' cannot be empty''"
| "domain_error_message (InvalidAddress value) = ''invalid EVM address: '' @ value"
| "domain_error_message (InvalidHash field value) = ''invalid '' @ field @ '': '' @ value"
| "domain_error_message (InvalidAmount value) = ''invalid token amount: '' @ value"
| "domain_error_message (InvalidRange from to) =
     ''invalid block range: '' @ show_block from @ ''..='' @ show_block to"
| "domain_error_message (InvalidCheckpoint processed finalized) =
     ''processed block '' @ show_block processed @ '' cannot be greater than finalized block ''
       @ show_block finalized"
| "domain_error_message (InvalidEnumValue field value) = ''invalid '' @ field @ '': '' @ value"
| "domain_error_message (InvalidLedgerEntry message) = ''invalid ledger entry: '' @ message"

definition require_non_empty :: "string \<Rightarrow> string \<Rightarrow> domain_error + string" where
  "require_non_empty field value = (if trim value = [] then Err (EmptyValue field) else Ok value)"

section \<open>Chain values (domain/chain.rs)\<close>

instantiation block_number :: linorder
begin

definition less_eq_block_number :: "block_number \<Rightarrow> block_number \<Rightarrow> bool" where
  "less_eq_block_number a b \<longleftrightarrow> block_get a \<le> block_get b"

definition less_block_number :: "block_number \<Rightarrow> block_number \<Rightarrow> bool" where
  "less_block_number a b \<longleftrightarrow> block_get a < block_get b"

instance
proof
  fix a b c :: block_number
  show "a < b \<longleftrightarrow> a \<le> b \<and> \<not> b \<le> a"
    by (auto simp: less_eq_block_number_def less_block_number_def)
  show "a \<le> a"
    by (simp add: less_eq_block_number_def)
  show "a \<le> b \<Longrightarrow> b \<le> c \<Longrightarrow> a \<le> c"
    by (simp add: less_eq_block_number_def)
  show "a \<le> b \<Longrightarrow> b \<le> a \<Longrightarrow> a = b"
    by (cases a; cases b) (simp add: less_eq_block_number_def)
  show "a \<le> b \<or> b \<le> a"
    by (auto simp: less_eq_block_number_def)
qed

end

lemma block_number_order [simp]:
  "BlockNumber a \<le> BlockNumber b \<longleftrightarrow> a \<le> b"
  "BlockNumber a < BlockNumber b \<longleftrightarrow> a < b"
  by (simp_all add: less_eq_block_number_def less_block_number_def)

definition block_next :: "block_number \<Rightarrow> block_number" where
  "block_next b = BlockNumber (u64_saturating_add (block_get b) 1)"

definition validate_hex_hash :: "string \<Rightarrow> string \<Rightarrow> domain_error + string" where
  "validate_hex_hash field value =
     (let normalized = to_ascii_lowercase value
      in if length normalized \<noteq> 66
            \<or> \<not> starts_with ''0x'' normalized
            \<or> \<not> list_all is_ascii_hexdigit (drop 2 normalized)
         then Err (InvalidHash field value)
         else Ok normalized)"

datatype block_hash = BlockHash string

datatype transaction_hash = TransactionHash string

datatype address = Address string

primrec block_hash_as_str :: "block_hash \<Rightarrow> string" where "block_hash_as_str (BlockHash s) = s"

primrec transaction_hash_as_str :: "transaction_hash \<Rightarrow> string" where
  "transaction_hash_as_str (TransactionHash s) = s"

primrec address_as_str :: "address \<Rightarrow> string" where "address_as_str (Address s) = s"

definition block_hash_new :: "string \<Rightarrow> domain_error + block_hash" where
  "block_hash_new value = and_then (validate_hex_hash ''block hash'' value) (\<lambda>s. Ok (BlockHash s))"

definition transaction_hash_new :: "string \<Rightarrow> domain_error + transaction_hash" where
  "transaction_hash_new value =
     and_then (validate_hex_hash ''transaction hash'' value) (\<lambda>s. Ok (TransactionHash s))"

definition address_new :: "string \<Rightarrow> domain_error + address" where
  "address_new value =
     (let normalized = to_ascii_lowercase value
      in if length normalized \<noteq> 42
            \<or> \<not> starts_with ''0x'' normalized
            \<or> \<not> list_all is_ascii_hexdigit (drop 2 normalized)
         then Err (InvalidAddress value)
         else Ok (Address normalized))"

definition zero_address :: string where
  "zero_address = ''0x0000000000000000000000000000000000000000''"

definition address_zero :: address where "address_zero = Address zero_address"

definition address_is_zero :: "address \<Rightarrow> bool" where
  "address_is_zero a \<longleftrightarrow> address_as_str a = address_as_str address_zero"

record block_ref =
  br_chain_id :: chain_id
  br_number :: block_number
  br_hash :: block_hash

record block_range =
  range_from :: block_number
  range_to :: block_number

definition block_range_new :: "block_number \<Rightarrow> block_number \<Rightarrow> domain_error + block_range" where
  "block_range_new from to =
     (if from > to then Err (InvalidRange from to) else Ok \<lparr>range_from = from, range_to = to\<rparr>)"

definition block_range_contains :: "block_range \<Rightarrow> block_number \<Rightarrow> bool" where
  "block_range_contains r b \<longleftrightarrow> range_from r \<le> b \<and> b \<le> range_to r"

datatype non_empty_id = NonEmptyId string

primrec non_empty_id_as_str :: "non_empty_id \<Rightarrow> string" where
  "non_empty_id_as_str (NonEmptyId s) = s"

definition non_empty_id_new :: "string \<Rightarrow> string \<Rightarrow> domain_error + non_empty_id" where
  "non_empty_id_new field value = and_then (require_non_empty field value) (\<lambda>s. Ok (NonEmptyId s))"

section \<open>Sources (domain/source.rs)\<close>

datatype source_id = SourceId non_empty_id

primrec source_id_as_str :: "source_id \<Rightarrow> string" where
  "source_id_as_str (SourceId i) = non_empty_id_as_str i"

definition source_id_new :: "string \<Rightarrow> domain_error + source_id" where
  "source_id_new value = and_then (non_empty_id_new ''source id'' value) (\<lambda>i. Ok (SourceId i))"

datatype token_standard = TsAuto | TsErc20 | TsErc721 | TsErc1155

fun token_standard_as_str :: "token_standard \<Rightarrow> string" where
  "token_standard_as_str TsAuto = ''auto''"
| "token_standard_as_str TsErc20 = ''erc20''"
| "token_standard_as_str TsErc721 = ''erc721''"
| "token_standard_as_str TsErc1155 = ''erc1155''"

definition token_standard_from_str :: "string \<Rightarrow> domain_error + token_standard" where
  "token_standard_from_str value =
     (let v = to_ascii_lowercase value
      in if v = ''auto'' then Ok TsAuto
         else if v = ''erc20'' then Ok TsErc20
         else if v = ''erc721'' then Ok TsErc721
         else if v = ''erc1155'' then Ok TsErc1155
         else Err (InvalidEnumValue ''token standard'' value))"

record source =
  source_ident :: source_id
  source_chain_id :: chain_id
  source_name :: string
  source_contract_address :: address
  source_token_standard :: token_standard
  source_start_block :: block_number
  source_enabled :: bool

definition source_new ::
  "source_id \<Rightarrow> chain_id \<Rightarrow> string \<Rightarrow> address \<Rightarrow> token_standard \<Rightarrow> block_number \<Rightarrow> bool \<Rightarrow> domain_error + source"
where
  "source_new i chain name contract standard start en =
     and_then (require_non_empty ''source name'' name) (\<lambda>name.
       Ok \<lparr>source_ident = i, source_chain_id = chain, source_name = name,
           source_contract_address = contract, source_token_standard = standard,
           source_start_block = start, source_enabled = en\<rparr>)"

section \<open>Checkpoints (domain/checkpoint.rs)\<close>

record checkpoint =
  cp_source :: source_id
  cp_processed :: block_ref
  cp_finalized :: block_number

definition checkpoint_new :: "source_id \<Rightarrow> block_ref \<Rightarrow> block_number \<Rightarrow> domain_error + checkpoint" where
  "checkpoint_new sid processed finalized =
     (if br_number processed > finalized
      then Err (InvalidCheckpoint (br_number processed) finalized)
      else Ok \<lparr>cp_source = sid, cp_processed = processed, cp_finalized = finalized\<rparr>)"

section \<open>Laws\<close>

lemma require_non_empty_Ok: "require_non_empty field v = Ok w \<longleftrightarrow> w = v \<and> \<not> is_blank v"
  by (auto simp: require_non_empty_def trim_empty_iff)

lemma non_empty_id_new_Ok: "non_empty_id_new field v = Ok i \<longleftrightarrow> i = NonEmptyId v \<and> \<not> is_blank v"
  by (auto simp: non_empty_id_new_def require_non_empty_Ok)

lemma address_new_Ok_iff:
  "address_new v = Ok a \<longleftrightarrow>
     a = Address (to_ascii_lowercase v) \<and> length v = 42 \<and> starts_with ''0x'' (to_ascii_lowercase v)
     \<and> list_all is_ascii_hexdigit (drop 2 v)"
  by (auto simp: address_new_def Let_def drop_to_ascii_lowercase hexdigits_lower)

lemma validate_hex_hash_Ok_iff:
  "validate_hex_hash f v = Ok h \<longleftrightarrow>
     h = to_ascii_lowercase v \<and> length v = 66 \<and> starts_with ''0x'' (to_ascii_lowercase v)
     \<and> list_all is_ascii_hexdigit (drop 2 v)"
  by (auto simp: validate_hex_hash_def Let_def drop_to_ascii_lowercase hexdigits_lower)

lemma address_is_zero_iff: "address_is_zero a \<longleftrightarrow> a = address_zero"
  by (cases a) (simp add: address_is_zero_def address_zero_def)

lemma token_standard_from_as_str [simp]: "token_standard_from_str (token_standard_as_str t) = Ok t"
  by (cases t) (simp_all add: token_standard_from_str_def ascii_lower_char_def byte_def)

text \<open>An accepted address is the lower-cased input, is 0x followed by 40 hexadecimal digits, and is
  accepted again unchanged; an input is refused, with itself in the error, exactly when its
  lower-case form does not have that shape.\<close>

theorem address_new_normalises:
  "(case address_new v of
      Inr a \<Rightarrow> address_as_str a = to_ascii_lowercase v \<and> length (address_as_str a) = 42
        \<and> (\<exists>d. address_as_str a = ''0x'' @ d \<and> list_all is_ascii_hexdigit d \<and> list_all is_lower_char d)
        \<and> address_new (address_as_str a) = Ok a
    | Inl e \<Rightarrow> e = InvalidAddress v
        \<and> \<not> (\<exists>d. to_ascii_lowercase v = ''0x'' @ d \<and> length d = 40 \<and> list_all is_ascii_hexdigit d))"
proof (cases "address_new v")
  case (Inl e)
  have "e = InvalidAddress v"
    using Inl by (auto simp: address_new_def Let_def split: if_splits)
  moreover have "\<not> (\<exists>d. to_ascii_lowercase v = ''0x'' @ d \<and> length d = 40 \<and> list_all is_ascii_hexdigit d)"
  proof
    assume "\<exists>d. to_ascii_lowercase v = ''0x'' @ d \<and> length d = 40 \<and> list_all is_ascii_hexdigit d"
    then obtain d where d: "to_ascii_lowercase v = ''0x'' @ d" "length d = 40" "list_all is_ascii_hexdigit d"
      by blast
    then have "length v = 42"
      using length_to_ascii_lowercase [of v] by simp
    with d Inl show False
      by (simp add: address_new_def Let_def starts_with_iff)
  qed
  ultimately show ?thesis using Inl by simp
next
  case (Inr a)
  then have a: "a = Address (to_ascii_lowercase v)" and l: "length v = 42"
    and p: "starts_with ''0x'' (to_ascii_lowercase v)" and h: "list_all is_ascii_hexdigit (drop 2 v)"
    by (simp_all add: address_new_Ok_iff)
  from p obtain d where d: "to_ascii_lowercase v = ''0x'' @ d"
    by (auto simp: starts_with_iff)
  then have "d = drop 2 (to_ascii_lowercase v)" by simp
  with h have hex: "list_all is_ascii_hexdigit d"
    by (simp add: drop_to_ascii_lowercase hexdigits_lower)
  have "list_all is_lower_char (to_ascii_lowercase v)"
    by (rule to_ascii_lowercase_lower)
  with d have lower: "list_all is_lower_char d" by simp
  have "address_new (to_ascii_lowercase v) = Ok a"
    using a l p h by (simp add: address_new_Ok_iff drop_to_ascii_lowercase hexdigits_lower)
  moreover have "length (to_ascii_lowercase v) = 42"
    using l by simp
  ultimately show ?thesis using a d hex lower Inr by auto
qed

end
