(* ===== verification/Domain_Events.thy ===== *)
theory Domain_Events
  imports Domain
begin

text \<open>
  Events, ledger entries, jobs and reorg records of the domain layer (src/domain/event.rs,
  job.rs, reorg.rs).
\<close>

section \<open>Events and ledger entries (domain/event.rs)\<close>

datatype log_index = LogIndex "32 word"

datatype batch_index = BatchIndex "32 word"

definition batch_index_zero :: batch_index where "batch_index_zero = BatchIndex 0"

datatype token_id = TokenId string

primrec token_id_as_str :: "token_id \<Rightarrow> string" where "token_id_as_str (TokenId s) = s"

definition token_id_new :: "string \<Rightarrow> domain_error + token_id" where
  "token_id_new value = (if trim value = [] then Err (EmptyValue ''token id'') else Ok (TokenId value))"

definition token_id_fungible :: token_id where "token_id_fungible = TokenId []"

datatype token_amount = TokenAmount string

primrec token_amount_as_str :: "token_amount \<Rightarrow> string" where "token_amount_as_str (TokenAmount s) = s"

definition token_amount_new :: "string \<Rightarrow> domain_error + token_amount" where
  "token_amount_new value =
     (if value = [] \<or> \<not> list_all is_ascii_digit value then Err (InvalidAmount value)
      else Ok (TokenAmount value))"

definition token_amount_one :: token_amount where "token_amount_one = TokenAmount ''1''"

record event_identity =
  ei_chain_id :: chain_id
  ei_transaction_hash :: transaction_hash
  ei_log_index :: log_index

record ledger_entry_identity =
  lei_event :: event_identity
  lei_batch_index :: batch_index

record indexed_event =
  ie_identity :: event_identity
  ie_source_id :: source_id
  ie_block_number :: block_number
  ie_block_hash :: block_hash
  ie_contract_address :: address
  ie_event_name :: string
  ie_finalized :: bool
  ie_orphaned :: bool

datatype movement = Mint | Transfer | Burn

definition both_zero_message :: string where
  "both_zero_message = ''from and to cannot both be the zero address''"

definition movement_from_participants :: "address \<Rightarrow> address \<Rightarrow> domain_error + movement" where
  "movement_from_participants from to =
     (case (address_is_zero from, address_is_zero to) of
        (True, False) \<Rightarrow> Ok Mint
      | (False, True) \<Rightarrow> Ok Burn
      | (False, False) \<Rightarrow> Ok Transfer
      | (True, True) \<Rightarrow> Err (InvalidLedgerEntry both_zero_message))"

record ledger_entry =
  entry_identity :: ledger_entry_identity
  entry_source_id :: source_id
  entry_token_standard :: token_standard
  entry_movement :: movement
  entry_operator :: "address option"
  entry_from :: "address option"
  entry_to :: "address option"
  entry_token_id :: token_id
  entry_amount :: token_amount
  entry_block_number :: block_number
  entry_block_hash :: block_hash
  entry_contract_address :: address

record ledger_entry_input =
  in_identity :: ledger_entry_identity
  in_source_id :: source_id
  in_token_standard :: token_standard
  in_operator :: "address option"
  in_from :: address
  in_to :: address
  in_token_id :: token_id
  in_amount :: token_amount
  in_block_number :: block_number
  in_block_hash :: block_hash
  in_contract_address :: address

definition ledger_entry_new :: "ledger_entry_input \<Rightarrow> domain_error + ledger_entry" where
  "ledger_entry_new i =
     and_then (movement_from_participants (in_from i) (in_to i)) (\<lambda>movement.
       Ok \<lparr>entry_identity = in_identity i, entry_source_id = in_source_id i,
           entry_token_standard = in_token_standard i, entry_movement = movement,
           entry_operator = in_operator i,
           entry_from = (if address_is_zero (in_from i) then None else Some (in_from i)),
           entry_to = (if address_is_zero (in_to i) then None else Some (in_to i)),
           entry_token_id = in_token_id i, entry_amount = in_amount i,
           entry_block_number = in_block_number i, entry_block_hash = in_block_hash i,
           entry_contract_address = in_contract_address i\<rparr>)"

record token_balance =
  tb_source_id :: source_id
  tb_holder :: address
  tb_token_id :: token_id
  tb_amount :: token_amount

section \<open>Jobs (domain/job.rs)\<close>

datatype job_id = JobId non_empty_id

definition job_id_new :: "string \<Rightarrow> domain_error + job_id" where
  "job_id_new value = and_then (non_empty_id_new ''job id'' value) (\<lambda>i. Ok (JobId i))"

datatype job_type = IngestRange | ReplayRange | VerifyReorg | RepairCheckpoint

fun job_type_as_str :: "job_type \<Rightarrow> string" where
  "job_type_as_str IngestRange = ''INGEST_RANGE''"
| "job_type_as_str ReplayRange = ''REPLAY_RANGE''"
| "job_type_as_str VerifyReorg = ''VERIFY_REORG''"
| "job_type_as_str RepairCheckpoint = ''REPAIR_CHECKPOINT''"

definition job_type_from_str :: "string \<Rightarrow> domain_error + job_type" where
  "job_type_from_str value =
     (if value = ''INGEST_RANGE'' then Ok IngestRange
      else if value = ''REPLAY_RANGE'' then Ok ReplayRange
      else if value = ''VERIFY_REORG'' then Ok VerifyReorg
      else if value = ''REPAIR_CHECKPOINT'' then Ok RepairCheckpoint
      else Err (InvalidEnumValue ''job type'' value))"

datatype job_status = Queued | Leased | Running | Succeeded | Failed | DeadLettered | Cancelled

fun job_status_as_str :: "job_status \<Rightarrow> string" where
  "job_status_as_str Queued = ''queued''"
| "job_status_as_str Leased = ''leased''"
| "job_status_as_str Running = ''running''"
| "job_status_as_str Succeeded = ''succeeded''"
| "job_status_as_str Failed = ''failed''"
| "job_status_as_str DeadLettered = ''dead_lettered''"
| "job_status_as_str Cancelled = ''cancelled''"

definition job_status_from_str :: "string \<Rightarrow> domain_error + job_status" where
  "job_status_from_str value =
     (if value = ''queued'' then Ok Queued
      else if value = ''leased'' then Ok Leased
      else if value = ''running'' then Ok Running
      else if value = ''succeeded'' then Ok Succeeded
      else if value = ''failed'' then Ok Failed
      else if value = ''dead_lettered'' then Ok DeadLettered
      else if value = ''cancelled'' then Ok Cancelled
      else Err (InvalidEnumValue ''job status'' value))"

datatype idempotency_key = IdempotencyKey non_empty_id

primrec idempotency_key_as_str :: "idempotency_key \<Rightarrow> string" where
  "idempotency_key_as_str (IdempotencyKey i) = non_empty_id_as_str i"

definition idempotency_key_new :: "string \<Rightarrow> domain_error + idempotency_key" where
  "idempotency_key_new value =
     and_then (non_empty_id_new ''idempotency key'' value) (\<lambda>i. Ok (IdempotencyKey i))"

text \<open>The text of the key the code builds; its \<open>expect\<close> cannot fail, as the law below shows.\<close>

definition range_key_text :: "string \<Rightarrow> string \<Rightarrow> u64 \<Rightarrow> u64 \<Rightarrow> string" where
  "range_key_text kind sid from to =
     kind @ CHR '':'' # sid @ CHR '':'' # show_u64 from @ CHR '':'' # show_u64 to"

definition idempotency_key_ingest :: "source_id \<Rightarrow> block_range \<Rightarrow> domain_error + idempotency_key" where
  "idempotency_key_ingest sid r =
     and_then (non_empty_id_new ''idempotency key''
       (range_key_text ''ingest'' (source_id_as_str sid) (block_get (range_from r)) (block_get (range_to r))))
       (\<lambda>i. Ok (IdempotencyKey i))"

record job =
  dj_id :: job_id
  dj_type :: job_type
  dj_status :: job_status
  dj_source_id :: "source_id option"
  dj_chain_id :: chain_id
  dj_range :: "block_range option"
  dj_idempotency_key :: idempotency_key

section \<open>Reorg records (domain/reorg.rs)\<close>

datatype reorg_event_id = ReorgEventId non_empty_id

definition reorg_event_id_new :: "string \<Rightarrow> domain_error + reorg_event_id" where
  "reorg_event_id_new value = and_then (non_empty_id_new ''reorg event id'' value) (\<lambda>i. Ok (ReorgEventId i))"

record reorg_event =
  dr_id :: reorg_event_id
  dr_source_id :: source_id
  dr_chain_id :: chain_id
  dr_range :: block_range
  dr_expected_block_hash :: "block_hash option"
  dr_actual_block_hash :: "block_hash option"
  dr_replay_job_id :: "job_id option"

definition reorg_event_new ::
  "reorg_event_id \<Rightarrow> source_id \<Rightarrow> chain_id \<Rightarrow> block_range \<Rightarrow> block_hash option \<Rightarrow> block_hash option
   \<Rightarrow> job_id option \<Rightarrow> reorg_event"
where
  "reorg_event_new i sid chain r expected actual replay =
     \<lparr>dr_id = i, dr_source_id = sid, dr_chain_id = chain, dr_range = r,
      dr_expected_block_hash = expected, dr_actual_block_hash = actual, dr_replay_job_id = replay\<rparr>"

section \<open>Laws\<close>

lemma job_type_from_as_str [simp]: "job_type_from_str (job_type_as_str t) = Ok t"
  by (cases t) (simp_all add: job_type_from_str_def)

lemma job_status_from_as_str [simp]: "job_status_from_str (job_status_as_str t) = Ok t"
  by (cases t) (simp_all add: job_status_from_str_def)

lemma job_type_as_str_inject [simp]: "job_type_as_str a = job_type_as_str b \<longleftrightarrow> a = b"
  by (metis job_type_from_as_str sum.inject(2))

lemma job_status_as_str_inject [simp]: "job_status_as_str a = job_status_as_str b \<longleftrightarrow> a = b"
  by (metis job_status_from_as_str sum.inject(2))

lemma append_colon_unique:
  assumes "CHR '':'' \<notin> set b" and "CHR '':'' \<notin> set d"
    and "a @ CHR '':'' # b = c @ CHR '':'' # d"
  shows "a = c \<and> b = d"
proof -
  have "rev b @ CHR '':'' # rev a = rev d @ CHR '':'' # rev c"
    using arg_cong [OF assms(3), of rev] by simp
  then have "split_on CHR '':'' (rev b @ CHR '':'' # rev a) = split_on CHR '':'' (rev d @ CHR '':'' # rev c)"
    by (rule arg_cong)
  then have "rev b = rev d"
    using assms(1,2) by (simp add: split_on_append)
  with assms(3) show ?thesis by simp
qed

lemma range_key_text_inject:
  assumes "range_key_text k s f t = range_key_text k s' f' t'"
  shows "s = s' \<and> f = f' \<and> t = t'"
proof -
  note c = colon_not_in_show_u64
  have "(k @ CHR '':'' # s @ CHR '':'' # show_u64 f) @ CHR '':'' # show_u64 t
      = (k @ CHR '':'' # s' @ CHR '':'' # show_u64 f') @ CHR '':'' # show_u64 t'"
    using assms by (simp add: range_key_text_def)
  from append_colon_unique [OF c c this]
  have t: "t = t'" and "(k @ CHR '':'' # s) @ CHR '':'' # show_u64 f = (k @ CHR '':'' # s') @ CHR '':'' # show_u64 f'"
    by (simp_all add: show_u64_inject)
  from append_colon_unique [OF c c this(2)] t show ?thesis
    by (simp add: show_u64_inject)
qed

lemma is_blank_head: "strip_space (c # cs) = None \<Longrightarrow> \<not> is_blank (c # cs)"
  by (simp add: is_blank_def trim_start.simps)

lemma range_key_not_blank: "\<not> is_blank (range_key_text ''ingest'' s f t)"
  unfolding range_key_text_def append_Cons
  by (rule is_blank_head) (simp add: byte_def)

text \<open>The ingest idempotency key is always built, its text is determined by the source and the range,
  and two keys agree only for the same source text and the same two block numbers, whatever
  characters the source identifier contains.\<close>

theorem idempotency_key_ingest_injective:
  "(\<exists>k. idempotency_key_ingest s r = Ok k
      \<and> idempotency_key_as_str k
          = range_key_text ''ingest'' (source_id_as_str s) (block_get (range_from r)) (block_get (range_to r)))
   \<and> (idempotency_key_ingest s r = idempotency_key_ingest s' r' \<longleftrightarrow>
        source_id_as_str s = source_id_as_str s' \<and> range_from r = range_from r' \<and> range_to r = range_to r')"
proof
  show "\<exists>k. idempotency_key_ingest s r = Ok k
      \<and> idempotency_key_as_str k
          = range_key_text ''ingest'' (source_id_as_str s) (block_get (range_from r)) (block_get (range_to r))"
    by (auto simp: idempotency_key_ingest_def non_empty_id_new_Ok range_key_not_blank)
  have block_eq: "block_get a = block_get b \<longleftrightarrow> a = b" for a b
    by (cases a; cases b) simp
  have key: "idempotency_key_ingest s r = Ok (IdempotencyKey (NonEmptyId
        (range_key_text ''ingest'' (source_id_as_str s) (block_get (range_from r)) (block_get (range_to r)))))"
    for s r
    by (auto simp: idempotency_key_ingest_def non_empty_id_new_Ok range_key_not_blank)
  show "idempotency_key_ingest s r = idempotency_key_ingest s' r' \<longleftrightarrow>
        source_id_as_str s = source_id_as_str s' \<and> range_from r = range_from r' \<and> range_to r = range_to r'"
    by (auto simp: key block_eq dest: range_key_text_inject)
qed

text \<open>A ledger entry is built exactly when its participants are not both the zero address; its movement
  is a mint when only the sender is zero, a burn when only the recipient is, a transfer otherwise,
  and a zero participant is stored as absent.\<close>

theorem ledger_entry_new_classifies:
  "(in_from i = address_zero \<and> in_to i = address_zero
      \<longrightarrow> ledger_entry_new i = Err (InvalidLedgerEntry both_zero_message))
   \<and> (in_from i \<noteq> address_zero \<or> in_to i \<noteq> address_zero \<longrightarrow>
      (\<exists>e. ledger_entry_new i = Ok e
         \<and> entry_movement e = (if in_from i = address_zero then Mint
                               else if in_to i = address_zero then Burn else Transfer)
         \<and> (entry_from e = None \<longleftrightarrow> entry_movement e = Mint)
         \<and> (entry_to e = None \<longleftrightarrow> entry_movement e = Burn)
         \<and> entry_from e \<noteq> Some address_zero \<and> entry_to e \<noteq> Some address_zero
         \<and> entry_amount e = in_amount i \<and> entry_token_id e = in_token_id i
         \<and> entry_identity e = in_identity i))"
  by (auto simp: ledger_entry_new_def movement_from_participants_def address_is_zero_iff)

text \<open>At a mint: the witness of its hypotheses.\<close>

theorem ledger_entry_new_classifies_witness:
  "\<exists>i e. in_from i = address_zero \<and> in_to i \<noteq> address_zero
     \<and> ledger_entry_new i = Ok e \<and> entry_movement e = Mint \<and> entry_from e = None"
proof -
  define a where "a = Address ''0x01''"
  define i where "i = \<lparr>in_identity = \<lparr>lei_event = \<lparr>ei_chain_id = ChainId 1, ei_transaction_hash = TransactionHash ''0x02'',
      ei_log_index = LogIndex 7\<rparr>, lei_batch_index = batch_index_zero\<rparr>,
    in_source_id = SourceId (NonEmptyId ''source-1''), in_token_standard = TsErc721, in_operator = None,
    in_from = address_zero, in_to = a, in_token_id = TokenId ''42'', in_amount = token_amount_one,
    in_block_number = BlockNumber 100, in_block_hash = BlockHash ''0x03'', in_contract_address = a\<rparr>"
  have a: "a \<noteq> address_zero" by (simp add: a_def address_zero_def zero_address_def)
  have "in_from i = address_zero" and "in_to i \<noteq> address_zero" using a by (simp_all add: i_def)
  with ledger_entry_new_classifies [of i] show ?thesis by auto
qed

text \<open>The text form of a job type or a job status parses back to it, and the parsers accept nothing else.\<close>

theorem job_enums_roundtrip:
  "(job_type_from_str v = Ok t \<longleftrightarrow> v = job_type_as_str t)
   \<and> (job_status_from_str v = Ok s \<longleftrightarrow> v = job_status_as_str s)"
proof
  show "job_type_from_str v = Ok t \<longleftrightarrow> v = job_type_as_str t"
    by (cases t) (auto simp: job_type_from_str_def)
  show "job_status_from_str v = Ok s \<longleftrightarrow> v = job_status_as_str s"
    by (cases s) (auto simp: job_status_from_str_def)
qed

end
