(* ===== verification/Evm_Decode.thy ===== *)
theory Evm_Decode
  imports Domain_Events
begin

text \<open>
  Decoding of transfer logs (src/application/evm.rs). What the code takes from other crates is
  the record \<open>crates\<close>: the hexadecimal Keccak-256 digest of a signature, the parse of a
  hexadecimal big integer, the parse of a decimal, the text of a UUID and the texts of a decimal as it is and normalised. \<open>crates_ok\<close> states their documented
  behaviour on the inputs the code gives them. A \<open>?\<close> in the source is \<open>and_then\<close>; a slice
  off a character boundary, an \<open>expect\<close> and an \<open>unreachable!\<close> are the error \<open>Panic\<close>.
\<close>

section \<open>Errors of the application and the adapters\<close>

datatype app_error =
    Panic string
  | InvertedRange u64 u64
  | InvertedSignedRange int int
  | MustBePositive string
  | CannotBeNegative string
  | UnsupportedStandard string
  | HexPrefixMissing string
  | HexParse string
  | HexEmpty string
  | TopicCount nat nat
  | TopicNotWord
  | MissingWord nat
  | DataNotWords
  | ArrayOffsetUnaligned
  | ArrayLengthOutOfBounds
  | ArrayItemOutOfBounds
  | WordNot32Bytes
  | WordNotHex
  | WordTooLarge string
  | MissingOffset string
  | BatchLengthMismatch nat nat
  | AmbiguousTransferShape nat nat
  | ShapeMismatch string string
  | ConflictingStandards string string
  | NoTransferLogs string u64 u64
  | NoContractCode string u64
  | BlockParse string
  | BlockTooLarge u64
  | NumberTooLarge string
  | BadAddress string
  | AmountParse string
  | RpcFailure string
  | PoolUnavailable
  | HexTooLarge string
  | RowNotFound
  | CheckViolation string
  | UniqueViolation string
  | ForeignKeyViolation string
  | NumericOverflow
  | StandardNotDetected
  | ForeignLedgerEntry string
  | NegativeBalance string string
  | CheckpointHashMismatch int string string
  | CheckpointAhead int int
  | UnsupportedJobType string
  | MissingField string
  | SourceMissing
  | ChainMissing
  | ChainMismatch int int
  | TargetNotFinal int int
  | DomainFailure domain_error
  | ConfigError string

type_synonym 'a result = "app_error + 'a"

section \<open>The crates the decoder relies on\<close>

type_synonym uuid = "128 word"

record crates =
  keccak_hex :: "string \<Rightarrow> string"
  biguint_parse_hex :: "string \<Rightarrow> nat option"
  bigdecimal_parse :: "string \<Rightarrow> int option"
  uuid_display :: "uuid \<Rightarrow> string"
  decimal_display :: "int \<Rightarrow> string"
  normalized_display :: "int \<Rightarrow> string"

definition transfer_signature :: string where
  "transfer_signature = ''Transfer(address,address,uint256)''"

definition transfer_single_signature :: string where
  "transfer_single_signature = ''TransferSingle(address,address,address,uint256,uint256)''"

definition transfer_batch_signature :: string where
  "transfer_batch_signature = ''TransferBatch(address,address,address,uint256[],uint256[])''"

definition crates_ok :: "crates \<Rightarrow> bool" where
  "crates_ok c \<longleftrightarrow>
     (\<forall>s. s \<noteq> [] \<and> list_all is_ascii_hexdigit s \<longrightarrow> biguint_parse_hex c s = digits_value 16 0 s)
     \<and> (\<forall>n. bigdecimal_parse c (show_nat n) = Some (int n))
     \<and> (\<forall>a b. uuid_display c a = uuid_display c b \<longrightarrow> a = b)
     \<and> (\<forall>s. list_all is_lower_char (keccak_hex c s))
     \<and> keccak_hex c transfer_signature \<noteq> keccak_hex c transfer_single_signature
     \<and> keccak_hex c transfer_signature \<noteq> keccak_hex c transfer_batch_signature
     \<and> keccak_hex c transfer_single_signature \<noteq> keccak_hex c transfer_batch_signature"

section \<open>Token standards\<close>

datatype standard = Auto | Erc20 | Erc721 | Erc1155

fun standard_as_str :: "standard \<Rightarrow> string" where
  "standard_as_str Auto = ''auto''"
| "standard_as_str Erc20 = ''erc20''"
| "standard_as_str Erc721 = ''erc721''"
| "standard_as_str Erc1155 = ''erc1155''"

definition standard_is_auto :: "standard \<Rightarrow> bool" where
  "standard_is_auto s \<longleftrightarrow> s = Auto"

definition standard_from_str :: "string \<Rightarrow> standard result" where
  "standard_from_str value =
     (let v = to_ascii_lowercase value
      in if v = ''auto'' then Ok Auto
         else if v = ''erc20'' then Ok Erc20
         else if v = ''erc721'' then Ok Erc721
         else if v = ''erc1155'' then Ok Erc1155
         else Err (UnsupportedStandard value))"

section \<open>Logs\<close>

record rpc_log =
  log_address :: string
  log_topics :: "string list"
  log_data :: string
  log_block_number :: string
  log_transaction_hash :: string
  log_transaction_index :: "string option"
  log_log_index :: string
  log_block_hash :: string
  log_block_timestamp :: "int option"

record decoded_entry =
  de_event_name :: string
  de_standard :: standard
  de_operator :: "string option"
  de_from :: string
  de_to :: string
  de_token_id :: string
  de_amount :: string
  de_batch_index :: int

record decoded_log =
  dl_event_name :: string
  dl_entries :: "decoded_entry list"

section \<open>Words\<close>

definition event_topic :: "crates \<Rightarrow> string \<Rightarrow> string" where
  "event_topic c signature = ''0x'' @ keccak_hex c signature"

definition strip_0x :: "string \<Rightarrow> string result" where
  "strip_0x value =
     (case strip_prefix ''0x'' value of
        Some r \<Rightarrow> Ok r
      | None \<Rightarrow> ok_or (HexPrefixMissing value) (strip_prefix ''0X'' value))"

definition strip_optional_0x :: "string \<Rightarrow> string" where
  "strip_optional_0x value =
     (case strip_prefix ''0x'' value of
        Some r \<Rightarrow> r
      | None \<Rightarrow> (case strip_prefix ''0X'' value of Some r \<Rightarrow> r | None \<Rightarrow> value))"

definition parse_hex_u64 :: "string \<Rightarrow> u64 result" where
  "parse_hex_u64 value = and_then (strip_0x value) (\<lambda>digits. ok_or (HexParse value) (parse_u64 16 digits))"

definition decode_word_as_decimal :: "crates \<Rightarrow> string \<Rightarrow> string result" where
  "decode_word_as_decimal c word =
     (let word = strip_optional_0x word
      in if length word \<noteq> 64 then Err WordNot32Bytes
         else and_then (ok_or WordNotHex (biguint_parse_hex c word)) (\<lambda>n. Ok (show_nat n)))"

definition word_decimal_as_usize :: "crates \<Rightarrow> string \<Rightarrow> nat result" where
  "word_decimal_as_usize c word =
     and_then (decode_word_as_decimal c word) (\<lambda>value.
       ok_or (WordTooLarge value) (parse_unsigned 10 u64_limit value))"

definition word_at :: "string \<Rightarrow> nat \<Rightarrow> string result" where
  "word_at data index =
     and_then (strip_0x data) (\<lambda>data.
       let start = index * 64; stop = start + 64
       in if length data < stop then Err (MissingWord index)
          else ok_or (Panic ''slice'') (str_slice data start stop))"

function chunks_of_64 :: "string \<Rightarrow> string list" where
  "chunks_of_64 s = (if s = [] then [] else take 64 s # chunks_of_64 (drop 64 s))"
  by pat_completeness auto
termination
  by (relation "measure length") auto

declare chunks_of_64.simps [simp del]

definition decode_data_words :: "string \<Rightarrow> string list result" where
  "decode_data_words data =
     and_then (strip_0x data) (\<lambda>data.
       if length data mod 64 \<noteq> 0 then Err DataNotWords
       else map_result (\<lambda>chunk. if is_utf8 (map byte chunk) then Ok chunk else Err (Panic ''hex is utf8''))
              (chunks_of_64 data))"

definition data_word_count :: "string \<Rightarrow> nat result" where
  "data_word_count data =
     and_then (strip_0x data) (\<lambda>data.
       if length data mod 64 \<noteq> 0 then Err DataNotWords else Ok (length data div 64))"

definition topic_address :: "string \<Rightarrow> string result" where
  "topic_address topic =
     and_then (strip_0x topic) (\<lambda>topic.
       if length topic \<noteq> 64 then Err TopicNotWord
       else and_then (ok_or (Panic ''slice'') (str_slice topic 24 64)) (\<lambda>digits.
              Ok (to_ascii_lowercase (''0x'' @ digits))))"

text \<open>
  The items of a dynamic array are read one after the other from the words after its length word,
  stopping at the first error: \<open>(0..len)\<close> mapped and collected.
\<close>

fun read_items :: "crates \<Rightarrow> nat \<Rightarrow> string list \<Rightarrow> string list result" where
  "read_items c n words =
     (if n = 0 then Ok []
      else (case words of
          [] \<Rightarrow> Err ArrayItemOutOfBounds
        | word # rest \<Rightarrow>
            and_then (decode_word_as_decimal c word) (\<lambda>v.
              and_then (read_items c (n - 1) rest) (\<lambda>vs. Ok (v # vs)))))"

declare read_items.simps [simp del]

definition decode_dynamic_uint_array :: "crates \<Rightarrow> string list \<Rightarrow> nat \<Rightarrow> string list result" where
  "decode_dynamic_uint_array c words offset_bytes =
     (if offset_bytes mod 32 \<noteq> 0 then Err ArrayOffsetUnaligned
      else (let start = offset_bytes div 32
            in if length words \<le> start then Err ArrayLengthOutOfBounds
               else and_then (word_decimal_as_usize c (words ! start)) (\<lambda>len.
                      read_items c len (drop (start + 1) words))))"

definition require_topic_count :: "rpc_log \<Rightarrow> nat \<Rightarrow> unit result" where
  "require_topic_count log expected =
     ensure (length (log_topics log) = expected) (TopicCount expected (length (log_topics log)))"

section \<open>Standard detection\<close>

definition first_topic :: "rpc_log \<Rightarrow> string option" where
  "first_topic log = (case log_topics log of [] \<Rightarrow> None | t # _ \<Rightarrow> Some (to_ascii_lowercase t))"

definition detect_token_standard_from_log :: "crates \<Rightarrow> rpc_log \<Rightarrow> standard option result" where
  "detect_token_standard_from_log c log =
     (case first_topic log of
        None \<Rightarrow> Ok None
      | Some topic0 \<Rightarrow>
          if topic0 = event_topic c transfer_single_signature \<or> topic0 = event_topic c transfer_batch_signature
          then Ok (Some Erc1155)
          else if topic0 = event_topic c transfer_signature
          then and_then (data_word_count (log_data log)) (\<lambda>data_words.
                 if length (log_topics log) = 4 \<and> data_words = 0 then Ok (Some Erc721)
                 else if length (log_topics log) = 3 \<and> data_words = 1 then Ok (Some Erc20)
                 else Err (AmbiguousTransferShape (length (log_topics log)) data_words))
          else Ok None)"

definition supported_topic0_values :: "crates \<Rightarrow> standard \<Rightarrow> string list" where
  "supported_topic0_values c standard =
     (case standard of
        Auto \<Rightarrow> [event_topic c transfer_signature, event_topic c transfer_single_signature,
                 event_topic c transfer_batch_signature]
      | Erc20 \<Rightarrow> [event_topic c transfer_signature]
      | Erc721 \<Rightarrow> [event_topic c transfer_signature]
      | Erc1155 \<Rightarrow> [event_topic c transfer_single_signature, event_topic c transfer_batch_signature])"

definition validate_transfer_shape_matches_standard :: "crates \<Rightarrow> rpc_log \<Rightarrow> standard \<Rightarrow> unit result" where
  "validate_transfer_shape_matches_standard c log standard =
     and_then (detect_token_standard_from_log c log) (\<lambda>detected.
       case detected of
         None \<Rightarrow> Ok ()
       | Some other \<Rightarrow>
           ensure (other = standard) (ShapeMismatch (standard_as_str other) (standard_as_str standard)))"

section \<open>Decoders\<close>

definition decode_transfer :: "crates \<Rightarrow> rpc_log \<Rightarrow> standard \<Rightarrow> decoded_log result" where
  "decode_transfer c log standard =
     and_then
       (case standard of
          Erc20 \<Rightarrow>
            and_then (require_topic_count log 3) (\<lambda>_.
            and_then (and_then (word_at (log_data log) 0) (decode_word_as_decimal c)) (\<lambda>amount.
            and_then (topic_address (log_topics log ! 1)) (\<lambda>from.
            and_then (topic_address (log_topics log ! 2)) (\<lambda>to. Ok (from, to, [], amount)))))
        | Erc721 \<Rightarrow>
            and_then (require_topic_count log 4) (\<lambda>_.
            and_then (topic_address (log_topics log ! 1)) (\<lambda>from.
            and_then (topic_address (log_topics log ! 2)) (\<lambda>to.
            and_then (and_then (strip_0x (log_topics log ! 3)) (decode_word_as_decimal c)) (\<lambda>token.
              Ok (from, to, token, ''1'')))))
        | Auto \<Rightarrow> Err (Panic ''auto must be resolved before decoding Transfer'')
        | Erc1155 \<Rightarrow> Err (Panic ''ERC-1155 transfer uses dedicated events''))
       (\<lambda>(from, to, token, amount).
          Ok \<lparr>dl_event_name = ''Transfer'',
              dl_entries = [\<lparr>de_event_name = ''Transfer'', de_standard = standard, de_operator = None,
                             de_from = from, de_to = to, de_token_id = token, de_amount = amount,
                             de_batch_index = 0\<rparr>]\<rparr>)"

definition decode_transfer_single :: "crates \<Rightarrow> rpc_log \<Rightarrow> decoded_log result" where
  "decode_transfer_single c log =
     and_then (require_topic_count log 4) (\<lambda>_.
     and_then (and_then (word_at (log_data log) 0) (decode_word_as_decimal c)) (\<lambda>token.
     and_then (and_then (word_at (log_data log) 1) (decode_word_as_decimal c)) (\<lambda>amount.
     and_then (topic_address (log_topics log ! 1)) (\<lambda>operator.
     and_then (topic_address (log_topics log ! 2)) (\<lambda>from.
     and_then (topic_address (log_topics log ! 3)) (\<lambda>to.
       Ok \<lparr>dl_event_name = ''TransferSingle'',
           dl_entries = [\<lparr>de_event_name = ''TransferSingle'', de_standard = Erc1155,
                          de_operator = Some operator, de_from = from, de_to = to,
                          de_token_id = token, de_amount = amount, de_batch_index = 0\<rparr>]\<rparr>))))))"

definition batch_entries :: "string \<Rightarrow> string \<Rightarrow> string \<Rightarrow> string list \<Rightarrow> string list \<Rightarrow> decoded_entry list" where
  "batch_entries operator from to ids amounts =
     map (\<lambda>(index, token, amount).
            \<lparr>de_event_name = ''TransferBatch'', de_standard = Erc1155, de_operator = Some operator,
             de_from = from, de_to = to, de_token_id = token, de_amount = amount,
             de_batch_index = u64_as_i32 (word_of_nat index)\<rparr>)
       (enumerate 0 (zip ids amounts))"

definition decode_transfer_batch :: "crates \<Rightarrow> rpc_log \<Rightarrow> decoded_log result" where
  "decode_transfer_batch c log =
     and_then (require_topic_count log 4) (\<lambda>_.
     and_then (decode_data_words (log_data log)) (\<lambda>data.
     and_then (and_then (case data of [] \<Rightarrow> Err (MissingOffset ''ids'') | w # _ \<Rightarrow> Ok w)
        (word_decimal_as_usize c)) (\<lambda>ids_offset.
     and_then (and_then (if length data \<le> 1 then Err (MissingOffset ''amounts'') else Ok (data ! 1))
        (word_decimal_as_usize c)) (\<lambda>amounts_offset.
     and_then (decode_dynamic_uint_array c data ids_offset) (\<lambda>ids.
     and_then (decode_dynamic_uint_array c data amounts_offset) (\<lambda>amounts.
     and_then (ensure (length ids = length amounts) (BatchLengthMismatch (length ids) (length amounts))) (\<lambda>_.
     and_then (topic_address (log_topics log ! 1)) (\<lambda>operator.
     and_then (topic_address (log_topics log ! 2)) (\<lambda>from.
     and_then (topic_address (log_topics log ! 3)) (\<lambda>to.
       Ok \<lparr>dl_event_name = ''TransferBatch'',
           dl_entries = batch_entries operator from to ids amounts\<rparr>))))))))))"

definition decode_log_as :: "crates \<Rightarrow> rpc_log \<Rightarrow> standard \<Rightarrow> decoded_log option result" where
  "decode_log_as c log standard =
     (case first_topic log of
        None \<Rightarrow> Ok None
      | Some topic0 \<Rightarrow>
          if topic0 = event_topic c transfer_signature \<and> (standard = Erc20 \<or> standard = Erc721)
          then and_then (validate_transfer_shape_matches_standard c log standard) (\<lambda>_.
                 and_then (decode_transfer c log standard) (\<lambda>d. Ok (Some d)))
          else if topic0 = event_topic c transfer_single_signature \<and> standard = Erc1155
          then and_then (decode_transfer_single c log) (\<lambda>d. Ok (Some d))
          else if topic0 = event_topic c transfer_batch_signature \<and> standard = Erc1155
          then and_then (decode_transfer_batch c log) (\<lambda>d. Ok (Some d))
          else Ok None)"

definition decode_log :: "crates \<Rightarrow> rpc_log \<Rightarrow> standard \<Rightarrow> decoded_log option result" where
  "decode_log c log standard =
     (if standard_is_auto standard
      then and_then (detect_token_standard_from_log c log) (\<lambda>detected.
             case detected of None \<Rightarrow> Ok None | Some s \<Rightarrow> decode_log_as c log s)
      else decode_log_as c log standard)"

end
