(* ===== verification/Ports.thy ===== *)
theory Ports
  imports Evm_Decode
begin

text \<open>
  The interfaces of the application layer (src/application/ports.rs): the values the services
  exchange with their repositories, and the node. A \<open>ChainRpc\<close> is a record of functions from
  the arguments of a query to its outcome: a service asks no query twice, so a function describes
  what any node answers during one run. A repository trait is a record of programs over the
  repository's state. A timestamp is the number of microseconds since the epoch. A JSON number that is
  not an integer of 64 bits is kept as its text.
\<close>

datatype json =
    JNull
  | JBool bool
  | JNumber int
  | JFloat string
  | JString string
  | JArray "json list"
  | JObject "(string \<times> json) list"

record source_ref =
  sr_id :: uuid
  sr_chain_id :: int
  sr_contract_address :: string
  sr_token_standard :: string

record source_checkpoint =
  sc_processed_block :: int
  sc_processed_block_hash :: string
  sc_finalized_block :: int

text \<open>\<open>IndexedBlockHash\<close> derives its order: block number first, then hash.\<close>

datatype indexed_block_hash = IndexedBlockHash (ib_block: int) (ib_hash: string)

instantiation indexed_block_hash :: linorder
begin

definition less_eq_indexed_block_hash :: "indexed_block_hash \<Rightarrow> indexed_block_hash \<Rightarrow> bool" where
  "less_eq_indexed_block_hash a b \<longleftrightarrow> ib_block a < ib_block b \<or> ib_block a = ib_block b \<and> ib_hash a \<le> ib_hash b"

definition less_indexed_block_hash :: "indexed_block_hash \<Rightarrow> indexed_block_hash \<Rightarrow> bool" where
  "less_indexed_block_hash a b \<longleftrightarrow> ib_block a < ib_block b \<or> ib_block a = ib_block b \<and> ib_hash a < ib_hash b"

instance
proof
  fix a b c :: indexed_block_hash
  show "a < b \<longleftrightarrow> a \<le> b \<and> \<not> b \<le> a"
    by (auto simp: less_eq_indexed_block_hash_def less_indexed_block_hash_def)
  show "a \<le> a"
    by (simp add: less_eq_indexed_block_hash_def)
  show "a \<le> b \<Longrightarrow> b \<le> c \<Longrightarrow> a \<le> c"
    by (auto simp: less_eq_indexed_block_hash_def)
  show "a \<le> b \<Longrightarrow> b \<le> a \<Longrightarrow> a = b"
    by (cases a; cases b) (auto simp: less_eq_indexed_block_hash_def)
  show "a \<le> b \<or> b \<le> a"
    by (auto simp: less_eq_indexed_block_hash_def)
qed

end

record reorg_event_insert =
  ri_source_id :: uuid
  ri_chain_id :: int
  ri_from_block :: int
  ri_to_block :: int
  ri_expected_block_hash :: "string option"
  ri_actual_block_hash :: "string option"
  ri_replay_job_id :: "uuid option"
  ri_mismatches :: json

record persist_options =
  restore_orphaned_conflicts :: bool

record token_balance_snapshot =
  tbs_holder_address :: string
  tbs_token_id :: string
  tbs_balance :: string
  tbs_first_received_block :: "int option"
  tbs_last_moved_block :: "int option"

record scan_summary =
  ss_source_id :: uuid
  ss_events_seen :: nat
  ss_events_persisted :: nat
  ss_ledger_entries_persisted :: nat
  ss_transaction_receipts_persisted :: nat
  ss_holder_count :: int
  ss_minter_count :: int
  ss_top_holders :: "token_balance_snapshot list"

record transaction_receipt =
  tr_transaction_hash :: string
  tr_transaction_index :: string
  tr_block_hash :: string
  tr_block_number :: string
  tr_from :: string
  tr_to :: "string option"
  tr_contract_address :: "string option"
  tr_status :: "string option"
  tr_gas_used :: string
  tr_cumulative_gas_used :: string
  tr_effective_gas_price :: "string option"
  tr_transaction_type :: "string option"
  tr_raw :: json

record new_range_job =
  nj_job_type :: job_type
  nj_source_id :: uuid
  nj_chain_id :: int
  nj_from_block :: int
  nj_to_block :: int
  nj_idempotency_key :: string
  nj_max_attempts :: int

datatype enqueue_result = Inserted | Existing

record rpc =
  rpc_block_number :: "u64 result"
  rpc_code_at :: "string \<Rightarrow> u64 \<Rightarrow> string result"
  rpc_block_hash :: "u64 \<Rightarrow> string result"
  rpc_block_timestamp :: "u64 \<Rightarrow> int result"
  rpc_logs :: "string \<Rightarrow> standard \<Rightarrow> u64 \<Rightarrow> u64 \<Rightarrow> rpc_log list result"
  rpc_transaction_receipt :: "string \<Rightarrow> transaction_receipt result"

record 's backfill_repository =
  bf_checkpoint_for_source :: "uuid \<Rightarrow> ('s, app_error, source_checkpoint option) prog"
  bf_enqueue_range_job :: "new_range_job \<Rightarrow> ('s, app_error, enqueue_result) prog"

record 's reorg_repository =
  ro_indexed_block_hashes :: "uuid \<Rightarrow> int \<Rightarrow> int \<Rightarrow> ('s, app_error, indexed_block_hash list) prog"
  ro_checkpoint_for_source :: "uuid \<Rightarrow> ('s, app_error, source_checkpoint option) prog"
  ro_record_reorg_event :: "reorg_event_insert \<Rightarrow> ('s, app_error, unit) prog"

record 's ledger_ingest_repository =
  li_persist_decoded_logs ::
    "source_ref \<Rightarrow> (rpc_log \<times> decoded_log) list \<Rightarrow> persist_options \<Rightarrow> ('s, app_error, scan_summary) prog"
  li_persist_transaction_receipts :: "int \<Rightarrow> transaction_receipt list \<Rightarrow> ('s, app_error, nat) prog"

text \<open>A \<open>BTreeSet\<close> is the sorted list of its distinct elements.\<close>

definition btree_set :: "'a :: linorder list \<Rightarrow> 'a list" where
  "btree_set xs = remdups_adj (sort xs)"

lemma set_btree_set [simp]: "set (btree_set xs) = set xs"
  by (simp add: btree_set_def)

lemma sorted_btree_set: "sorted (btree_set xs)"
  by (simp add: btree_set_def sorted_remdups_adj)

lemma sorted_distinct_adj: "sorted xs \<Longrightarrow> distinct (remdups_adj xs)"
proof (induction xs rule: remdups_adj.induct)
  case (3 x y xs)
  show ?case
  proof (cases "x = y")
    case True
    with 3 show ?thesis by simp
  next
    case False
    with "3.prems" have "\<forall>z \<in> set (y # xs). x < z" by force
    then have "x \<notin> set (remdups_adj (y # xs))" by auto
    with False 3 show ?thesis by simp
  qed
qed simp_all

lemma distinct_btree_set: "distinct (btree_set xs)"
  by (simp add: btree_set_def sorted_distinct_adj)

end
