(* ===== verification/Store.thy ===== *)
theory Store
  imports Ports
begin

text \<open>
  The database: the rows of src/infra/postgres/models.rs and the constraints of
  migrations/. A table is the list of its rows; the order of the list is the order a query without
  ORDER BY reports, which nothing relies on. An amount of type NUMERIC(78,0) is an integer, a
  timestamp the number of microseconds since the epoch. Beside the tables the state holds the
  environment: whether the pool hands out connections, the identifiers \<open>Uuid::new_v4\<close> will
  return and the readings of the clock, both arbitrary sequences with the position reached, and the
  next value of the sequence behind the chain identifiers. A
  rollback restores the tables and keeps the environment.
\<close>

section \<open>Rows\<close>

record chain_row =
  ch_id :: int
  ch_name :: string
  ch_chain_id :: int
  ch_rpc_url :: string
  ch_finality_confirmations :: int
  ch_created_at :: int

record source_row =
  so_id :: uuid
  so_chain_id :: int
  so_name :: string
  so_contract_address :: string
  so_token_standard :: string
  so_start_block :: int
  so_enabled :: bool
  so_created_at :: int

record checkpoint_row =
  ck_id :: uuid
  ck_source_id :: uuid
  ck_processed_block :: int
  ck_processed_block_hash :: string
  ck_finalized_block :: int
  ck_updated_at :: int

record event_row =
  ev_id :: uuid
  ev_source_id :: uuid
  ev_chain_id :: int
  ev_block_number :: int
  ev_block_timestamp :: "int option"
  ev_block_hash :: string
  ev_transaction_hash :: string
  ev_transaction_index :: "int option"
  ev_log_index :: int
  ev_contract_address :: string
  ev_event_name :: string
  ev_topics :: json
  ev_data :: string
  ev_args :: json
  ev_finalized :: bool
  ev_orphaned :: bool
  ev_inserted_at :: int

record ledger_row =
  le_id :: uuid
  le_event_id :: uuid
  le_source_id :: uuid
  le_chain_id :: int
  le_contract_address :: string
  le_token_standard :: string
  le_movement_type :: string
  le_operator_address :: "string option"
  le_from_address :: "string option"
  le_to_address :: "string option"
  le_token_id :: string
  le_amount :: int
  le_batch_index :: int
  le_block_number :: int
  le_block_timestamp :: "int option"
  le_block_hash :: string
  le_transaction_hash :: string
  le_transaction_index :: "int option"
  le_log_index :: int
  le_orphaned :: bool
  le_inserted_at :: int

record balance_row =
  ba_id :: uuid
  ba_source_id :: uuid
  ba_chain_id :: int
  ba_contract_address :: string
  ba_token_standard :: string
  ba_holder_address :: string
  ba_token_id :: string
  ba_balance :: int
  ba_first_received_block :: "int option"
  ba_last_moved_block :: "int option"
  ba_updated_at :: int

record receipt_row =
  rc_id :: uuid
  rc_chain_id :: int
  rc_transaction_hash :: string
  rc_block_number :: int
  rc_block_hash :: string
  rc_transaction_index :: "int option"
  rc_from_address :: string
  rc_to_address :: "string option"
  rc_contract_address :: "string option"
  rc_status :: "int option"
  rc_gas_used :: int
  rc_cumulative_gas_used :: int
  rc_effective_gas_price :: "int option"
  rc_transaction_type :: "string option"
  rc_raw_receipt :: json
  rc_inserted_at :: int
  rc_updated_at :: int

record job_row =
  jr_id :: uuid
  jr_job_type :: string
  jr_status :: string
  jr_source_id :: "uuid option"
  jr_chain_id :: int
  jr_from_block :: "int option"
  jr_to_block :: "int option"
  jr_idempotency_key :: string
  jr_leased_by :: "string option"
  jr_lease_expires_at :: "int option"
  jr_attempts :: int
  jr_max_attempts :: int
  jr_error_class :: "string option"
  jr_error_message :: "string option"
  jr_created_at :: int
  jr_updated_at :: int

record attempt_row =
  at_id :: uuid
  at_job_id :: uuid
  at_attempt_number :: int
  at_worker_id :: string
  at_started_at :: int
  at_finished_at :: "int option"
  at_status :: string
  at_error_class :: "string option"
  at_error_message :: "string option"

record reorg_row =
  re_id :: uuid
  re_source_id :: uuid
  re_chain_id :: int
  re_from_block :: int
  re_to_block :: int
  re_expected_block_hash :: "string option"
  re_actual_block_hash :: "string option"
  re_detected_at :: int
  re_replay_job_id :: "uuid option"
  re_mismatches :: json

section \<open>The state\<close>

record environment =
  pool_available :: bool
  uuid_supply :: "nat \<Rightarrow> uuid"
  uuids_used :: nat
  clock :: "nat \<Rightarrow> int"
  clock_reads :: nat
  chain_serial :: int

record db =
  db_chains :: "chain_row list"
  db_sources :: "source_row list"
  db_checkpoints :: "checkpoint_row list"
  db_events :: "event_row list"
  db_entries :: "ledger_row list"
  db_balances :: "balance_row list"
  db_receipts :: "receipt_row list"
  db_jobs :: "job_row list"
  db_attempts :: "attempt_row list"
  db_reorgs :: "reorg_row list"
  db_env :: environment

type_synonym 'a db_prog = "(db, app_error, 'a) prog"

definition connection :: "unit db_prog" where
  "connection = (\<lambda>d. if pool_available (db_env d) then (Ok (), d) else (Err PoolUnavailable, d))"

definition new_uuid :: "uuid db_prog" where
  "new_uuid = (\<lambda>d. (Ok (uuid_supply (db_env d) (uuids_used (db_env d))),
     d\<lparr>db_env := (db_env d)\<lparr>uuids_used := uuids_used (db_env d) + 1\<rparr>\<rparr>))"

definition utc_now :: "int db_prog" where
  "utc_now = (\<lambda>d. (Ok (clock (db_env d) (clock_reads (db_env d))),
     d\<lparr>db_env := (db_env d)\<lparr>clock_reads := clock_reads (db_env d) + 1\<rparr>\<rparr>))"

definition next_chain_id :: "int db_prog" where
  "next_chain_id = (\<lambda>d. (Ok (chain_serial (db_env d)),
     d\<lparr>db_env := (db_env d)\<lparr>chain_serial := chain_serial (db_env d) + 1\<rparr>\<rparr>))"

definition rollback :: "db \<Rightarrow> db \<Rightarrow> db" where
  "rollback start failed = start\<lparr>db_env := db_env failed\<rparr>"

definition pg_transaction :: "'a db_prog \<Rightarrow> 'a db_prog" where
  "pg_transaction m = transaction rollback m"

definition tables :: "db \<Rightarrow> db" where
  "tables d = d\<lparr>db_env := \<lparr>pool_available = True, uuid_supply = (\<lambda>_. 0), uuids_used = 0,
     clock = (\<lambda>_. 0), clock_reads = 0, chain_serial = 0\<rparr>\<rparr>"

section \<open>Constraints\<close>

definition numeric_78 :: "int \<Rightarrow> bool" where "numeric_78 n \<longleftrightarrow> \<bar>n\<bar> < 10 ^ 78"

definition opt_nonneg :: "int option \<Rightarrow> bool" where
  "opt_nonneg x = (case x of None \<Rightarrow> True | Some i \<Rightarrow> 0 \<le> i)"

definition stored_standard :: "string \<Rightarrow> bool" where
  "stored_standard s \<longleftrightarrow> s = ''erc20'' \<or> s = ''erc721'' \<or> s = ''erc1155''"

definition source_check :: "source_row \<Rightarrow> bool" where
  "source_check r \<longleftrightarrow> stored_standard (so_token_standard r) \<and> 0 \<le> so_start_block r"

definition checkpoint_check :: "checkpoint_row \<Rightarrow> bool" where
  "checkpoint_check r \<longleftrightarrow>
     0 \<le> ck_processed_block r \<and> 0 \<le> ck_finalized_block r \<and> ck_processed_block r \<le> ck_finalized_block r"

definition event_check :: "event_row \<Rightarrow> bool" where
  "event_check r \<longleftrightarrow> 0 \<le> ev_block_number r \<and> 0 \<le> ev_log_index r \<and> opt_nonneg (ev_transaction_index r)"

definition entry_check :: "ledger_row \<Rightarrow> bool" where
  "entry_check r \<longleftrightarrow>
     stored_standard (le_token_standard r)
     \<and> (le_movement_type r = ''mint'' \<or> le_movement_type r = ''transfer'' \<or> le_movement_type r = ''burn'')
     \<and> 0 \<le> le_amount r \<and> 0 \<le> le_batch_index r \<and> 0 \<le> le_block_number r \<and> 0 \<le> le_log_index r
     \<and> (le_from_address r \<noteq> None \<or> le_to_address r \<noteq> None) \<and> opt_nonneg (le_transaction_index r)"

definition balance_check :: "balance_row \<Rightarrow> bool" where
  "balance_check r \<longleftrightarrow>
     stored_standard (ba_token_standard r) \<and> 0 \<le> ba_balance r
     \<and> opt_nonneg (ba_first_received_block r) \<and> opt_nonneg (ba_last_moved_block r)"

definition receipt_check :: "receipt_row \<Rightarrow> bool" where
  "receipt_check r \<longleftrightarrow>
     0 \<le> rc_block_number r \<and> opt_nonneg (rc_transaction_index r)
     \<and> (rc_status r = None \<or> rc_status r = Some 0 \<or> rc_status r = Some 1)
     \<and> 0 \<le> rc_gas_used r \<and> 0 \<le> rc_cumulative_gas_used r \<and> opt_nonneg (rc_effective_gas_price r)"

definition job_check :: "job_row \<Rightarrow> bool" where
  "job_check r \<longleftrightarrow>
     jr_job_type r \<in> {''INGEST_RANGE'', ''REPLAY_RANGE'', ''VERIFY_REORG'', ''REPAIR_CHECKPOINT''}
     \<and> jr_status r \<in> {''queued'', ''leased'', ''running'', ''succeeded'', ''failed'', ''dead_lettered'', ''cancelled''}
     \<and> opt_nonneg (jr_from_block r) \<and> opt_nonneg (jr_to_block r)
     \<and> (case (jr_from_block r, jr_to_block r) of (Some f, Some t) \<Rightarrow> f \<le> t | _ \<Rightarrow> True)
     \<and> 0 \<le> jr_attempts r \<and> 0 < jr_max_attempts r"

definition attempt_check :: "attempt_row \<Rightarrow> bool" where
  "attempt_check r \<longleftrightarrow>
     0 < at_attempt_number r
     \<and> at_status r \<in> {''leased'', ''running'', ''succeeded'', ''failed'', ''dead_lettered'', ''cancelled''}"

definition reorg_check :: "reorg_row \<Rightarrow> bool" where
  "reorg_check r \<longleftrightarrow> 0 \<le> re_from_block r \<and> 0 \<le> re_to_block r \<and> re_from_block r \<le> re_to_block r"

text \<open>Keys of the unique constraints.\<close>

definition event_key :: "event_row \<Rightarrow> int \<times> string \<times> int" where
  "event_key r = (ev_chain_id r, ev_transaction_hash r, ev_log_index r)"

definition entry_key :: "ledger_row \<Rightarrow> int \<times> string \<times> int \<times> int" where
  "entry_key r = (le_chain_id r, le_transaction_hash r, le_log_index r, le_batch_index r)"

definition balance_key :: "balance_row \<Rightarrow> uuid \<times> string \<times> string" where
  "balance_key r = (ba_source_id r, ba_holder_address r, ba_token_id r)"

definition source_key :: "source_row \<Rightarrow> int \<times> string" where
  "source_key r = (so_chain_id r, so_contract_address r)"

definition receipt_key :: "receipt_row \<Rightarrow> int \<times> string" where
  "receipt_key r = (rc_chain_id r, rc_transaction_hash r)"

text \<open>The partial unique index on the ranges of jobs: rows with a null column do not conflict.\<close>

definition job_range_key :: "job_row \<Rightarrow> (uuid \<times> string \<times> int \<times> int) option" where
  "job_range_key r =
     (case (jr_source_id r, jr_from_block r, jr_to_block r) of
        (Some s, Some f, Some t) \<Rightarrow> Some (s, jr_job_type r, f, t)
      | _ \<Rightarrow> None)"

definition has_source :: "db \<Rightarrow> uuid \<Rightarrow> bool" where
  "has_source d sid \<longleftrightarrow> sid \<in> so_id ` set (db_sources d)"

section \<open>Laws\<close>

lemma connection_Ok [simp]: "connection d = (Ok u, t) \<longleftrightarrow> pool_available (db_env d) \<and> t = d"
  by (auto simp: connection_def)

lemma connection_seq [simp]:
  "pool_available (db_env d) \<Longrightarrow> seq connection f d = f () d"
  "\<not> pool_available (db_env d) \<Longrightarrow> seq connection f d = (Err PoolUnavailable, d)"
  by (simp_all add: seq_apply connection_def)

lemma seq_connection_Ok [simp]:
  "seq connection f d = (Ok a, t) \<longleftrightarrow> pool_available (db_env d) \<and> f () d = (Ok a, t)"
  by (cases "pool_available (db_env d)") simp_all

lemma tables_env [simp]:
  "tables (d\<lparr>db_env := e\<rparr>) = tables d"
  "tables (rollback d t) = tables d"
  by (simp_all add: tables_def rollback_def)

lemma tables_select [simp]:
  "db_chains (tables d) = db_chains d" "db_sources (tables d) = db_sources d"
  "db_checkpoints (tables d) = db_checkpoints d" "db_events (tables d) = db_events d"
  "db_entries (tables d) = db_entries d" "db_balances (tables d) = db_balances d"
  "db_receipts (tables d) = db_receipts d" "db_jobs (tables d) = db_jobs d"
  "db_attempts (tables d) = db_attempts d" "db_reorgs (tables d) = db_reorgs d"
  by (simp_all add: tables_def)

lemma tables_eq_iff:
  "tables d = tables e \<longleftrightarrow>
     db_chains d = db_chains e \<and> db_sources d = db_sources e \<and> db_checkpoints d = db_checkpoints e
     \<and> db_events d = db_events e \<and> db_entries d = db_entries e \<and> db_balances d = db_balances e
     \<and> db_receipts d = db_receipts e \<and> db_jobs d = db_jobs e \<and> db_attempts d = db_attempts e
     \<and> db_reorgs d = db_reorgs e"
  by (cases d; cases e) (simp add: tables_def)

lemma pg_transaction_Ok [simp]: "pg_transaction m d = (Ok a, t) \<longleftrightarrow> m d = (Ok a, t)"
  by (simp add: pg_transaction_def)

lemma pg_transaction_Err: "pg_transaction m d = (Err e, t) \<Longrightarrow> tables t = tables d"
  by (auto simp: pg_transaction_def dest!: transaction_Err)

lemma supply_tables [simp]:
  "tables (snd (new_uuid d)) = tables d"
  "tables (snd (utc_now d)) = tables d"
  by (simp_all add: new_uuid_def utc_now_def)

section \<open>The environment is only consumed\<close>

definition tick :: "db \<Rightarrow> environment \<Rightarrow> bool" where
  "tick d e \<longleftrightarrow> clock e = clock (db_env d) \<and> pool_available e = pool_available (db_env d)
     \<and> uuid_supply e = uuid_supply (db_env d)"

definition steady :: "'a db_prog \<Rightarrow> bool" where
  "steady m \<longleftrightarrow> (\<forall>d r t. m d = (r, t) \<longrightarrow> tick d (db_env t))"

named_theorems steady_intros

lemma tick_refl [simp]: "tick d (db_env d)"
  by (simp add: tick_def)

lemma tick_trans: "tick d (db_env t) \<Longrightarrow> tick t e \<Longrightarrow> tick d e"
  by (simp add: tick_def)

lemma steadyI: "(\<And>d r t. m d = (r, t) \<Longrightarrow> tick d (db_env t)) \<Longrightarrow> steady m"
  by (simp add: steady_def)

lemma steadyD: "steady m \<Longrightarrow> m d = (r, t) \<Longrightarrow> tick d (db_env t)"
  by (simp add: steady_def)

lemma steady_basic [steady_intros]:
  "steady (ret a)" "steady (throw e)" "steady (lift r)" "steady (reads g)"
  "steady connection" "steady new_uuid" "steady utc_now" "steady next_chain_id"
  by (auto simp: steady_def tick_def connection_def new_uuid_def utc_now_def next_chain_id_def split: if_splits)

lemma steady_writes [steady_intros]: "(\<And>d. db_env (f d) = db_env d) \<Longrightarrow> steady (writes f)"
  by (simp add: steady_def tick_def)

lemma steady_seq [steady_intros]:
  assumes "steady m" and "\<And>a. steady (f a)"
  shows "steady (seq m f)"
proof (rule steadyI)
  fix d r t
  assume run: "seq m f d = (r, t)"
  obtain q s where m: "m d = (q, s)" by (cases "m d")
  note ms = steadyD [OF assms(1) m]
  show "tick d (db_env t)"
  proof (cases q)
    case (Inl e)
    with run m ms show ?thesis by (simp add: seq_apply)
  next
    case (Inr a)
    with run m have "f a s = (r, t)" by (simp add: seq_apply)
    from tick_trans [OF ms steadyD [OF assms(2) this]] show ?thesis .
  qed
qed

lemma steady_transaction [steady_intros]:
  assumes "steady m"
  shows "steady (pg_transaction m)"
proof (rule steadyI)
  fix d r t
  assume run: "pg_transaction m d = (r, t)"
  obtain q s where m: "m d = (q, s)" by (cases "m d")
  with run steadyD [OF assms m] show "tick d (db_env t)"
    by (cases q) (auto simp: pg_transaction_def transaction_def rollback_def)
qed

lemma steady_run_if [steady_intros]: "steady m \<Longrightarrow> steady (run_if b m)"
  by (cases b) (auto intro: steady_basic)

lemma steady_each [steady_intros]: "(\<And>x. steady (f x)) \<Longrightarrow> steady (each f xs)"
  by (induction xs) (auto intro: steady_basic steady_seq)

lemma steady_if [steady_intros]: "(b \<Longrightarrow> steady m) \<Longrightarrow> (\<not> b \<Longrightarrow> steady n) \<Longrightarrow> steady (if b then m else n)"
  by simp

lemma steady_case_option [steady_intros]:
  "steady n \<Longrightarrow> (\<And>a. steady (f a)) \<Longrightarrow> steady (case x of None \<Rightarrow> n | Some a \<Rightarrow> f a)"
  by (simp split: option.split)

lemma steady_pure: "steady (\<lambda>d. (f d, d))"
  by (simp add: steady_def)

section \<open>Programs that leave the tables alone\<close>

definition silent :: "'a db_prog \<Rightarrow> bool" where
  "silent m \<longleftrightarrow> (\<forall>d r t. m d = (r, t) \<longrightarrow> tables t = tables d)"

text \<open>A program whose failures leave the tables as they were.\<close>

definition safe :: "'a db_prog \<Rightarrow> bool" where
  "safe m \<longleftrightarrow> (\<forall>d e t. m d = (Err e, t) \<longrightarrow> tables t = tables d)"

named_theorems silent_intros

lemma silentD: "silent m \<Longrightarrow> m d = (r, t) \<Longrightarrow> tables t = tables d"
  by (simp add: silent_def)

lemma safeD: "safe m \<Longrightarrow> m d = (Err e, t) \<Longrightarrow> tables t = tables d"
  by (simp add: safe_def)

lemma silent_basic [silent_intros]:
  "silent (ret a)" "silent (throw e)" "silent (lift r)" "silent (reads g)"
  "silent connection" "silent new_uuid" "silent utc_now" "silent next_chain_id"
  by (auto simp: silent_def connection_def new_uuid_def utc_now_def next_chain_id_def split: if_splits)

lemma silent_seq [silent_intros]:
  assumes "silent m" and "\<And>a. silent (f a)"
  shows "silent (seq m f)"
  unfolding silent_def
proof (intro allI impI)
  fix d r t assume run: "seq m f d = (r, t)"
  obtain q s where m: "m d = (q, s)" by (cases "m d")
  with run silentD [OF assms(1) m] silentD [OF assms(2), of _ s r t] show "tables t = tables d"
    by (cases q) (auto simp: seq_apply)
qed

lemma silent_if [silent_intros]: "silent m \<Longrightarrow> silent n \<Longrightarrow> silent (if b then m else n)"
  by simp

lemma silent_case_option [silent_intros]:
  "silent n \<Longrightarrow> (\<And>a. silent (f a)) \<Longrightarrow> silent (case x of None \<Rightarrow> n | Some a \<Rightarrow> f a)"
  by (simp split: option.split)

lemma silent_pure: "silent (\<lambda>d. (f d, d))"
  by (simp add: silent_def)

lemma silent_transaction [silent_intros]: "silent m \<Longrightarrow> silent (pg_transaction m)"
  by (auto simp: silent_def pg_transaction_def transaction_def split: prod.splits sum.splits)

lemma safe_silent: "silent m \<Longrightarrow> safe m"
  by (simp add: silent_def safe_def)

lemma safe_writes: "safe (writes f)"
  by (simp add: safe_def)

lemma safe_transaction: "safe (pg_transaction m)"
  by (auto simp: safe_def dest: pg_transaction_Err)

lemma safe_seq:
  assumes "silent m" and "\<And>a. safe (f a)"
  shows "safe (seq m f)"
  unfolding safe_def
proof (intro allI impI)
  fix d e t assume run: "seq m f d = (Err e, t)"
  obtain q s where m: "m d = (q, s)" by (cases "m d")
  with run silentD [OF assms(1) m] safeD [OF assms(2), of _ s e t] show "tables t = tables d"
    by (cases q) (auto simp: seq_apply)
qed

lemma safe_seq_ret: "safe m \<Longrightarrow> safe (seq m (\<lambda>a. ret (g a)))"
  by (auto simp: safe_def seq_apply ret_def split: sum.splits prod.splits)

lemma safe_if: "safe m \<Longrightarrow> safe n \<Longrightarrow> safe (if b then m else n)"
  by simp

end
