(* ===== verification/Evm_Laws.thy ===== *)
theory Evm_Laws
  imports Evm_Decode
begin

text \<open>
  What the decoder promises: every decoded entry is well formed, an ABI-encoded batch decodes to
  the values it was built from, and ASCII logs never make it panic. \<open>abi_word\<close>, \<open>abi_batch\<close> and
  \<open>address_topic\<close> are the specification's encoders.
\<close>

section \<open>Well-formed entries\<close>

definition address_text :: "string \<Rightarrow> bool" where
  "address_text a \<longleftrightarrow> length a = 42 \<and> starts_with ''0x'' a \<and> list_all is_lower_char a"

definition entry_wf :: "decoded_entry \<Rightarrow> bool" where
  "entry_wf e \<longleftrightarrow>
     de_standard e \<noteq> Auto \<and> address_text (de_from e) \<and> address_text (de_to e)
     \<and> (\<exists>n. de_amount e = show_nat n)
     \<and> (de_standard e = Erc20 \<longrightarrow> de_token_id e = [])
     \<and> (de_standard e = Erc721 \<longrightarrow> de_amount e = ''1'')
     \<and> (de_standard e \<noteq> Erc20 \<longrightarrow> (\<exists>n. de_token_id e = show_nat n))
     \<and> (case de_operator e of None \<Rightarrow> de_standard e \<noteq> Erc1155 | Some a \<Rightarrow> de_standard e = Erc1155 \<and> address_text a)"

lemma str_slice_length: "str_slice s a b = Some r \<Longrightarrow> b \<le> length s \<Longrightarrow> length r = b - a"
  by (auto simp: str_slice_def split: if_splits)

lemma topic_address_text: "topic_address t = Ok a \<Longrightarrow> address_text a"
  using to_ascii_lowercase_lower [of "''0x'' @ _"]
  by (auto simp: topic_address_def address_text_def starts_with_iff ascii_lower_char_def byte_def
      is_lower_char_def to_ascii_lowercase_lower dest!: str_slice_length split: if_splits)

lemma decode_word_shows: "decode_word_as_decimal c w = Ok v \<Longrightarrow> \<exists>n. v = show_nat n"
  by (auto simp: decode_word_as_decimal_def Let_def split: if_splits)

lemma one_is_show_nat: "''1'' = show_nat 1"
  by (simp add: show_nat.simps digit_char_def char_of_def bit_simps)

lemma read_items_shows: "read_items c n ws = Ok vs \<Longrightarrow> list_all (\<lambda>v. \<exists>n. v = show_nat n) vs"
proof (induction c n ws arbitrary: vs rule: read_items.induct)
  case (1 c n words)
  then show ?case
    by (subst (asm) (2) read_items.simps) (auto split: if_splits list.splits dest: decode_word_shows)
qed

lemma array_shows: "decode_dynamic_uint_array c ws k = Ok vs \<Longrightarrow> v \<in> set vs \<Longrightarrow> \<exists>n. v = show_nat n"
  by (auto simp: decode_dynamic_uint_array_def Let_def list_all_iff split: if_splits dest!: read_items_shows)

lemma decode_transfer_wf:
  "decode_transfer c log s = Ok d \<Longrightarrow> \<exists>e. dl_entries d = [e] \<and> entry_wf e \<and> de_batch_index e = 0 \<and> de_standard e = s"
  using one_is_show_nat
  by (cases s) (auto simp: decode_transfer_def entry_wf_def dest: topic_address_text decode_word_shows)

lemma decode_transfer_single_wf:
  "decode_transfer_single c log = Ok d \<Longrightarrow>
     \<exists>e. dl_entries d = [e] \<and> entry_wf e \<and> de_batch_index e = 0 \<and> de_standard e = Erc1155"
  by (auto simp: decode_transfer_single_def entry_wf_def dest: topic_address_text decode_word_shows)

lemma batch_entries_nth:
  "length ids = length amounts \<Longrightarrow> i < length ids \<Longrightarrow>
     batch_entries opr from to ids amounts ! i
       = \<lparr>de_event_name = ''TransferBatch'', de_standard = Erc1155, de_operator = Some opr,
          de_from = from, de_to = to, de_token_id = ids ! i, de_amount = amounts ! i,
          de_batch_index = u64_as_i32 (word_of_nat i)\<rparr>"
  by (simp add: batch_entries_def nth_enumerate_eq)

lemma length_batch_entries [simp]:
  "length (batch_entries opr from to ids amounts) = min (length ids) (length amounts)"
  by (simp add: batch_entries_def)

lemma decode_transfer_batch_wf:
  assumes "decode_transfer_batch c log = Ok d"
  shows "\<forall>e \<in> set (dl_entries d). entry_wf e \<and> de_standard e = Erc1155"
    and "i < length (dl_entries d) \<Longrightarrow> de_batch_index (dl_entries d ! i) = u64_as_i32 (word_of_nat i)"
proof -
  from assms obtain data k l ids amounts opr src dst where
    ids: "decode_dynamic_uint_array c data k = Ok ids" and
    amounts: "decode_dynamic_uint_array c data l = Ok amounts" and
    len: "length ids = length amounts" and
    addr: "address_text opr" "address_text src" "address_text dst" and
    d: "dl_entries d = batch_entries opr src dst ids amounts"
    by (auto simp: decode_transfer_batch_def) (blast dest: topic_address_text)
  show "i < length (dl_entries d) \<Longrightarrow> de_batch_index (dl_entries d ! i) = u64_as_i32 (word_of_nat i)"
    using len by (simp add: d batch_entries_nth)
  show "\<forall>e \<in> set (dl_entries d). entry_wf e \<and> de_standard e = Erc1155"
  proof
    fix e assume "e \<in> set (dl_entries d)"
    then obtain i where i: "i < length ids" and e: "e = batch_entries opr src dst ids amounts ! i"
      using len by (auto simp: d in_set_conv_nth)
    have "\<exists>n. ids ! i = show_nat n" and "\<exists>n. amounts ! i = show_nat n"
      using array_shows [OF ids] array_shows [OF amounts] i len by simp_all
    with addr i e len show "entry_wf e \<and> de_standard e = Erc1155"
      by (simp add: batch_entries_nth entry_wf_def)
  qed
qed

lemma i32_of_small: "i < 2 ^ 31 \<Longrightarrow> u64_as_i32 (word_of_nat i) = int i"
proof -
  assume i: "i < 2 ^ 31"
  have "signed_take_bit 31 (int i) = int i"
    by (rule signed_take_bit_int_eq_self) (use i in simp_all)
  then have "sint (word_of_nat i :: 32 word) = int i"
    by (simp add: signed_of_nat)
  moreover have "ucast (word_of_nat i :: u64) = (word_of_nat i :: 32 word)"
    using i by (simp add: unsigned_of_nat take_bit_nat_eq_self)
  ultimately show ?thesis
    by (simp add: u64_as_i32_def)
qed

section \<open>ABI encoding\<close>

definition abi_word :: "nat \<Rightarrow> string" where "abi_word n = hex_fixed 64 n"

definition abi_batch_words :: "nat list \<Rightarrow> nat list \<Rightarrow> string list" where
  "abi_batch_words ids amounts =
     [abi_word 64, abi_word (96 + 32 * length ids)]
       @ (abi_word (length ids) # map abi_word ids) @ (abi_word (length amounts) # map abi_word amounts)"

definition abi_batch :: "nat list \<Rightarrow> nat list \<Rightarrow> string" where
  "abi_batch ids amounts = ''0x'' @ concat (abi_batch_words ids amounts)"

definition address_topic :: "string \<Rightarrow> string" where
  "address_topic digits = ''0x'' @ replicate 24 (CHR ''0'') @ digits"

definition address_digits :: "string \<Rightarrow> bool" where
  "address_digits a \<longleftrightarrow> length a = 40 \<and> list_all (\<lambda>c. is_ascii_hexdigit c \<and> is_lower_char c) a"

definition ascii :: "string \<Rightarrow> bool" where
  "ascii s \<longleftrightarrow> list_all (\<lambda>c. byte c < 128) s"

lemma hexdigit_ascii: "is_ascii_hexdigit c \<Longrightarrow> byte c < 128"
  by (auto simp: is_ascii_hexdigit_def is_ascii_digit_def)

lemma ascii_append [simp]: "ascii (s @ t) \<longleftrightarrow> ascii s \<and> ascii t"
  by (simp add: ascii_def)

lemma ascii_0x [simp]: "ascii ''0x''"
  by (simp add: ascii_def byte_def)

lemma ascii_hexdigits: "list_all is_ascii_hexdigit s \<Longrightarrow> ascii s"
  by (induction s) (auto simp: ascii_def hexdigit_ascii)

lemma ascii_take_drop: "ascii s \<Longrightarrow> ascii (take n s)" "ascii s \<Longrightarrow> ascii (drop n s)"
  by (auto simp: ascii_def list_all_iff dest: in_set_takeD in_set_dropD)

lemma ascii_utf8: "ascii s \<Longrightarrow> is_utf8 (map byte s)"
  by (induction s) (auto simp: ascii_def)

lemma ascii_boundary:
  assumes "ascii s" and "i \<le> length s"
  shows "is_char_boundary s i"
proof -
  have "i < length s \<Longrightarrow> byte (s ! i) < 128"
    using assms(1) by (simp add: ascii_def list_all_length)
  with assms(2) show ?thesis
    by (auto simp: is_char_boundary_def is_continuation_def)
qed

lemma ascii_slice: "ascii s \<Longrightarrow> a \<le> b \<Longrightarrow> b \<le> length s \<Longrightarrow> str_slice s a b = Some (take (b - a) (drop a s))"
  by (simp add: str_slice_def ascii_boundary)

lemma ascii_strip_0x: "ascii s \<Longrightarrow> strip_0x s = Ok r \<Longrightarrow> ascii r"
  by (auto simp: strip_0x_def strip_prefix_Some_iff ascii_def split: option.splits)

lemma strip_0x_prefixed [simp]: "strip_0x (CHR ''0'' # CHR ''x'' # s) = Ok s"
  by (simp add: strip_0x_def)

lemma chunks_of_64_Cons: "length w = 64 \<Longrightarrow> chunks_of_64 (w @ s) = w # chunks_of_64 s"
  by (subst chunks_of_64.simps) auto

lemma chunks_of_64_concat: "list_all (\<lambda>w. length w = 64) ws \<Longrightarrow> chunks_of_64 (concat ws) = ws"
proof (induction ws)
  case Nil
  show ?case by (subst chunks_of_64.simps) simp
next
  case (Cons w ws)
  then show ?case by (simp add: chunks_of_64_Cons)
qed

lemma length_concat_words: "list_all (\<lambda>w. length w = 64) ws \<Longrightarrow> length (concat ws) = 64 * length ws"
  by (induction ws) auto

lemma decode_data_words_concat:
  assumes "list_all (\<lambda>w. length w = 64 \<and> ascii w) ws"
  shows "decode_data_words (''0x'' @ concat ws) = Ok ws"
proof -
  have len: "list_all (\<lambda>w. length w = 64) ws"
    using assms by (simp add: list_all_iff)
  have "map_result (\<lambda>chunk. if is_utf8 (map byte chunk) then Ok chunk else Err (Panic ''hex is utf8'')) ws
      = Ok (map id ws)"
    by (rule map_result_pure) (use assms in \<open>auto simp: list_all_iff ascii_utf8\<close>)
  with len show ?thesis
    by (simp add: decode_data_words_def length_concat_words chunks_of_64_concat)
qed

lemma strip_optional_hex: "list_all is_ascii_hexdigit w \<Longrightarrow> strip_optional_0x w = w"
  by (auto simp: strip_optional_0x_def strip_prefix_Some_iff is_ascii_hexdigit_def is_ascii_digit_def
      byte_def split: option.splits)

lemma abi_word_length [simp]: "length (abi_word n) = 64"
  by (simp add: abi_word_def)

lemma abi_word_ascii [simp]: "ascii (abi_word n)"
  by (simp add: abi_word_def ascii_hexdigits hex_fixed_digits)

lemma decode_abi_word:
  assumes "crates_ok c" and "n < 2 ^ 256"
  shows "decode_word_as_decimal c (abi_word n) = Ok (show_nat n)"
proof -
  have "n < 16 ^ 64" using assms(2) by simp
  then have "digits_value 16 0 (abi_word n) = Some n"
    by (simp add: abi_word_def digits_value_hex_fixed)
  moreover have hex: "list_all is_ascii_hexdigit (abi_word n)"
    by (simp add: abi_word_def hex_fixed_digits)
  moreover have "abi_word n \<noteq> []"
    using abi_word_length [of n] by (metis list.size(3) zero_neq_numeral)
  ultimately have "biguint_parse_hex c (abi_word n) = Some n"
    using assms(1) by (simp add: crates_ok_def)
  with hex show ?thesis
    by (simp add: decode_word_as_decimal_def strip_optional_hex)
qed

lemma usize_abi_word:
  assumes "crates_ok c" and "n < 2 ^ 64"
  shows "word_decimal_as_usize c (abi_word n) = Ok n"
proof -
  have "n < 2 ^ 256" using assms(2) by simp
  with assms show ?thesis
    by (simp add: word_decimal_as_usize_def decode_abi_word parse_unsigned_show_nat u64_limit_def)
qed

lemma read_items_abi:
  assumes "crates_ok c" and "\<forall>n \<in> set ns. n < 2 ^ 256"
  shows "read_items c (length ns) (map abi_word ns @ rest) = Ok (map show_nat ns)"
  using assms(2)
proof (induction ns)
  case Nil
  show ?case by (simp add: read_items.simps)
next
  case (Cons n ns)
  then show ?case
    by (subst read_items.simps) (simp add: decode_abi_word [OF assms(1)])
qed

lemma array_abi:
  assumes "crates_ok c" and "\<forall>n \<in> set ns. n < 2 ^ 256" and "length ns < 2 ^ 64"
  shows "decode_dynamic_uint_array c (pre @ abi_word (length ns) # map abi_word ns @ rest) (32 * length pre)
         = Ok (map show_nat ns)"
  using assms by (simp add: decode_dynamic_uint_array_def nth_append usize_abi_word read_items_abi)

lemma topic_address_encoded:
  assumes "address_digits a"
  shows "topic_address (address_topic a) = Ok (''0x'' @ a)"
proof -
  let ?t = "replicate 24 (CHR ''0'') @ a"
  have len: "length ?t = 64" using assms by (simp add: address_digits_def)
  have "ascii a"
    using assms by (auto simp: address_digits_def list_all_iff intro!: ascii_hexdigits)
  then have asc: "ascii ?t"
    by (simp add: ascii_def byte_def list_all_iff)
  have "str_slice ?t 24 64 = Some a"
    using ascii_slice [OF asc, of 24 64] len by simp
  moreover have "to_ascii_lowercase a = a"
    using assms by (intro to_ascii_lowercase_fixed) (simp add: address_digits_def list_all_iff)
  ultimately show ?thesis
    using len by (simp add: topic_address_def address_topic_def ascii_lower_char_def byte_def)
qed

section \<open>Freedom from panics\<close>

definition no_panic :: "'a result \<Rightarrow> bool" where
  "no_panic r \<longleftrightarrow> (\<forall>m. r \<noteq> Err (Panic m))"

named_theorems no_panic_intros

lemma no_panic_basic [simp, no_panic_intros]:
  "no_panic (Ok a)"
  "no_panic (Err e) \<longleftrightarrow> (\<forall>m. e \<noteq> Panic m)"
  by (auto simp: no_panic_def)

lemma no_panic_and_then [no_panic_intros]:
  "no_panic r \<Longrightarrow> (\<And>a. r = Ok a \<Longrightarrow> no_panic (f a)) \<Longrightarrow> no_panic (and_then r f)"
  by (cases r) (auto simp: no_panic_def)

lemma no_panic_ok_or [no_panic_intros]: "(\<And>m. e \<noteq> Panic m) \<Longrightarrow> no_panic (ok_or e x)"
  by (cases x) auto

lemma no_panic_ensure [no_panic_intros]: "(\<And>m. e \<noteq> Panic m) \<Longrightarrow> no_panic (ensure b e)"
  by (cases b) auto

lemma no_panic_map_result: "(\<And>x. x \<in> set xs \<Longrightarrow> no_panic (f x)) \<Longrightarrow> no_panic (map_result f xs)"
  by (induction xs) (auto intro!: no_panic_and_then)

lemma strip_0x_no_panic [no_panic_intros]: "no_panic (strip_0x s)"
  by (auto simp: strip_0x_def split: option.splits intro!: no_panic_ok_or)

lemma decode_word_no_panic [no_panic_intros]: "no_panic (decode_word_as_decimal c w)"
  by (auto simp: decode_word_as_decimal_def Let_def intro!: no_panic_intros)

lemma usize_no_panic [no_panic_intros]: "no_panic (word_decimal_as_usize c w)"
  by (auto simp: word_decimal_as_usize_def intro!: no_panic_intros)

lemma read_items_no_panic [no_panic_intros]: "no_panic (read_items c n ws)"
proof (induction c n ws rule: read_items.induct)
  case (1 c n words)
  then show ?case
    by (subst read_items.simps) (auto split: list.splits intro!: no_panic_and_then decode_word_no_panic)
qed

lemma array_no_panic [no_panic_intros]: "no_panic (decode_dynamic_uint_array c ws k)"
  by (auto simp: decode_dynamic_uint_array_def Let_def intro!: no_panic_intros)

lemma word_count_no_panic [no_panic_intros]: "no_panic (data_word_count s)"
  by (auto simp: data_word_count_def intro!: no_panic_intros)

lemma word_at_no_panic: "ascii s \<Longrightarrow> no_panic (word_at s i)"
  by (auto simp: word_at_def Let_def ascii_slice dest: ascii_strip_0x intro!: no_panic_intros)

lemma topic_address_no_panic: "ascii s \<Longrightarrow> no_panic (topic_address s)"
  by (auto simp: topic_address_def ascii_slice dest: ascii_strip_0x intro!: no_panic_intros)

lemma ascii_chunks: "ascii s \<Longrightarrow> w \<in> set (chunks_of_64 s) \<Longrightarrow> ascii w"
proof (induction s rule: chunks_of_64.induct)
  case (1 s)
  then show ?case
    by (subst (asm) (2) chunks_of_64.simps) (auto split: if_splits dest: ascii_take_drop)
qed

lemma decode_data_words_no_panic:
  assumes "ascii s"
  shows "no_panic (decode_data_words s)"
proof -
  have "is_utf8 (map byte w)" if "strip_0x s = Ok r" and "w \<in> set (chunks_of_64 r)" for r w
    using ascii_chunks [OF ascii_strip_0x [OF assms that(1)] that(2)] by (rule ascii_utf8)
  then show ?thesis
    by (auto simp: decode_data_words_def intro!: no_panic_and_then strip_0x_no_panic no_panic_map_result)
qed

lemma detect_no_panic [no_panic_intros]: "no_panic (detect_token_standard_from_log c log)"
  by (auto simp: detect_token_standard_from_log_def split: option.splits intro!: no_panic_intros)

lemma validate_shape_no_panic [no_panic_intros]: "no_panic (validate_transfer_shape_matches_standard c log s)"
  by (auto simp: validate_transfer_shape_matches_standard_def split: option.splits intro!: no_panic_intros)

lemma topic_count_no_panic [no_panic_intros]: "no_panic (require_topic_count log n)"
  by (auto simp: require_topic_count_def intro!: no_panic_intros)

definition ascii_log :: "rpc_log \<Rightarrow> bool" where
  "ascii_log log \<longleftrightarrow> ascii (log_data log) \<and> list_all ascii (log_topics log)"

lemma ascii_log_topic: "ascii_log log \<Longrightarrow> i < length (log_topics log) \<Longrightarrow> no_panic (topic_address (log_topics log ! i))"
  by (simp add: ascii_log_def list_all_length topic_address_no_panic)

lemma topic_count_Ok: "require_topic_count log n = Ok u \<longleftrightarrow> length (log_topics log) = n"
  by (simp add: require_topic_count_def)

lemma decode_transfer_no_panic:
  "ascii_log log \<Longrightarrow> s = Erc20 \<or> s = Erc721 \<Longrightarrow> no_panic (decode_transfer c log s)"
  by (cases s)
    (auto simp: decode_transfer_def topic_count_Ok ascii_log_def word_at_no_panic
      intro!: no_panic_intros ascii_log_topic)

lemma decode_single_no_panic: "ascii_log log \<Longrightarrow> no_panic (decode_transfer_single c log)"
  by (auto simp: decode_transfer_single_def topic_count_Ok ascii_log_def word_at_no_panic
      intro!: no_panic_intros ascii_log_topic)

lemma decode_batch_no_panic: "ascii_log log \<Longrightarrow> no_panic (decode_transfer_batch c log)"
  by (auto simp: decode_transfer_batch_def topic_count_Ok ascii_log_def decode_data_words_no_panic
      split: list.splits intro!: no_panic_intros ascii_log_topic)

lemma decode_log_as_no_panic: "ascii_log log \<Longrightarrow> no_panic (decode_log_as c log s)"
  by (auto simp: decode_log_as_def split: option.splits
      intro!: no_panic_intros decode_transfer_no_panic decode_single_no_panic decode_batch_no_panic)

section \<open>A sample instance\<close>

definition sample_crates :: crates where
  "sample_crates = \<lparr>keccak_hex = to_ascii_lowercase, biguint_parse_hex = digits_value 16 0,
     bigdecimal_parse = (\<lambda>s. map_option int (digits_value 10 0 s)),
     uuid_display = (\<lambda>u. show_nat (unat u)), decimal_display = show_int, normalized_display = show_int\<rparr>"

definition sample_digits :: string where "sample_digits = replicate 40 (CHR ''1'')"

definition sample_log :: "nat list \<Rightarrow> nat list \<Rightarrow> rpc_log" where
  "sample_log ids amounts =
     \<lparr>log_address = ''0x'' @ sample_digits,
      log_topics = [event_topic sample_crates transfer_batch_signature, address_topic sample_digits,
                    address_topic sample_digits, address_topic sample_digits],
      log_data = abi_batch ids amounts, log_block_number = ''0x10'', log_transaction_hash = ''0x20'',
      log_transaction_index = None, log_log_index = ''0x0'', log_block_hash = ''0x30'',
      log_block_timestamp = None\<rparr>"

lemma sample_crates_ok: "crates_ok sample_crates"
  by (simp add: crates_ok_def sample_crates_def digits_value_show_nat show_nat_inject word_unat_eq_iff to_ascii_lowercase_lower
      transfer_signature_def transfer_single_signature_def transfer_batch_signature_def
      ascii_lower_char_def byte_def)

lemma sample_digits_ok: "address_digits sample_digits"
  by (simp add: sample_digits_def address_digits_def list_all_iff is_ascii_hexdigit_def is_ascii_digit_def
      is_lower_char_def byte_def)

section \<open>Properties\<close>

lemma decode_log_as_wf:
  assumes "decode_log_as c log s = Ok (Some d)"
  shows "(\<forall>e \<in> set (dl_entries d). entry_wf e \<and> de_standard e = s)
    \<and> (\<forall>i < length (dl_entries d). de_batch_index (dl_entries d ! i) = u64_as_i32 (word_of_nat i))"
proof -
  have zero: "u64_as_i32 (word_of_nat 0) = 0"
    using i32_of_small [of 0] by simp
  from assms consider
      "decode_transfer c log s = Ok d"
    | "decode_transfer_single c log = Ok d" "s = Erc1155"
    | "decode_transfer_batch c log = Ok d" "s = Erc1155"
    by (auto simp: decode_log_as_def split: option.splits if_splits)
  then show ?thesis
  proof cases
    case 1
    from decode_transfer_wf [OF this] zero show ?thesis by auto
  next
    case 2
    from decode_transfer_single_wf [OF this(1)] zero 2 show ?thesis by auto
  next
    case 3
    from decode_transfer_batch_wf [OF this(1)] 3 show ?thesis by auto
  qed
qed

lemma decode_log_resolves:
  assumes "decode_log c log s = Ok (Some d)"
  shows "\<exists>s'. s' \<noteq> Auto \<and> (s = Auto \<or> s' = s) \<and> decode_log_as c log s' = Ok (Some d)"
proof (cases "s = Auto")
  case True
  with assms show ?thesis
    by (auto simp: decode_log_def standard_is_auto_def detect_token_standard_from_log_def
        split: option.splits if_splits)
next
  case False
  with assms show ?thesis
    by (auto simp: decode_log_def standard_is_auto_def)
qed

lemma first_topic_lower:
  assumes "crates_ok c" and "log_topics log = event_topic c sig # ts"
  shows "first_topic log = Some (event_topic c sig)"
proof -
  have "list_all is_lower_char (event_topic c sig)"
    using assms(1) by (simp add: event_topic_def crates_ok_def is_lower_char_def byte_def)
  with assms(2) show ?thesis
    by (simp add: first_topic_def to_ascii_lowercase_fixed)
qed

lemma batch_words_arrays:
  assumes c: "crates_ok c" and n: "length ids = length amounts" "length ids < 2 ^ 31"
    and b: "\<forall>n \<in> set ids. n < 2 ^ 256" "\<forall>n \<in> set amounts. n < 2 ^ 256"
  shows "decode_dynamic_uint_array c (abi_batch_words ids amounts) 64 = Ok (map show_nat ids)"
    and "decode_dynamic_uint_array c (abi_batch_words ids amounts) (96 + 32 * length ids)
           = Ok (map show_nat amounts)"
proof -
  have l: "length ids < 2 ^ 64" "length amounts < 2 ^ 64" using n by simp_all
  show "decode_dynamic_uint_array c (abi_batch_words ids amounts) 64 = Ok (map show_nat ids)"
    using array_abi [OF c b(1) l(1), of "[abi_word 64, abi_word (96 + 32 * length ids)]"
        "abi_word (length amounts) # map abi_word amounts"]
    by (simp add: abi_batch_words_def)
  show "decode_dynamic_uint_array c (abi_batch_words ids amounts) (96 + 32 * length ids)
           = Ok (map show_nat amounts)"
    using array_abi [OF c b(2) l(2),
        of "[abi_word 64, abi_word (96 + 32 * length ids)] @ abi_word (length ids) # map abi_word ids" "[]"]
    by (simp add: abi_batch_words_def)
qed

lemma decode_batch_roundtrip:
  assumes c: "crates_ok c" and n: "length ids = length amounts" "length ids < 2 ^ 31"
    and b: "\<forall>n \<in> set ids. n < 2 ^ 256" "\<forall>n \<in> set amounts. n < 2 ^ 256"
    and a: "address_digits opr" "address_digits src" "address_digits dst"
    and t: "log_topics log = [t0, address_topic opr, address_topic src, address_topic dst]"
    and d: "log_data log = abi_batch ids amounts"
  shows "decode_transfer_batch c log =
    Ok \<lparr>dl_event_name = ''TransferBatch'',
        dl_entries = batch_entries (''0x'' @ opr) (''0x'' @ src) (''0x'' @ dst) (map show_nat ids) (map show_nat amounts)\<rparr>"
proof -
  have "list_all (\<lambda>w. length w = 64 \<and> ascii w) (abi_batch_words ids amounts)"
    by (auto simp: abi_batch_words_def list_all_iff)
  then have words: "decode_data_words (log_data log) = Ok (abi_batch_words ids amounts)"
    using decode_data_words_concat by (simp add: d abi_batch_def)
  obtain ws where ws: "abi_batch_words ids amounts = abi_word 64 # abi_word (96 + 32 * length ids) # ws"
    by (simp add: abi_batch_words_def)
  have offs: "word_decimal_as_usize c (abi_word 64) = Ok 64"
    "word_decimal_as_usize c (abi_word (96 + 32 * length ids)) = Ok (96 + 32 * length ids)"
    using n by (simp_all add: usize_abi_word [OF c])
  note arrays = batch_words_arrays [OF c n b, unfolded ws]
  have addr: "topic_address (log_topics log ! 1) = Ok (''0x'' @ opr)"
    "topic_address (log_topics log ! 2) = Ok (''0x'' @ src)"
    "topic_address (log_topics log ! 3) = Ok (''0x'' @ dst)"
    using a by (simp_all add: t topic_address_encoded)
  have "require_topic_count log 4 = Ok ()"
    by (simp add: require_topic_count_def t)
  then show ?thesis
    using n unfolding decode_transfer_batch_def words ws
    by (simp add: offs [unfolded n(1)] arrays [unfolded n(1)] addr [simplified])
qed

lemma decode_log_batch:
  assumes "crates_ok c" and "log_topics log = event_topic c transfer_batch_signature # ts"
    and "s = Erc1155 \<or> s = Auto"
  shows "decode_log c log s = and_then (decode_transfer_batch c log) (\<lambda>d. Ok (Some d))"
proof -
  have "event_topic c transfer_batch_signature \<noteq> event_topic c transfer_signature"
    "event_topic c transfer_batch_signature \<noteq> event_topic c transfer_single_signature"
    using assms(1) by (auto simp: crates_ok_def event_topic_def)
  with assms(3) first_topic_lower [OF assms(1,2)] show ?thesis
    by (auto simp: decode_log_def standard_is_auto_def detect_token_standard_from_log_def decode_log_as_def)
qed

text \<open>C40: Every entry of a decoded log is well formed: a concrete standard, the requested one unless it was
  to be detected; lower-case 42-character addresses; decimal amounts and token ids; amount 1 for
  an ERC-721 entry and no token id for an ERC-20 one; an operator exactly for ERC-1155. The batch
  index of an entry is its position.\<close>

theorem decode_log_entries_well_formed:
  assumes "decode_log c log s = Ok (Some d)" and "length (dl_entries d) \<le> 2 ^ 31"
  shows "(\<forall>e \<in> set (dl_entries d). entry_wf e \<and> (s = Auto \<or> de_standard e = s))
    \<and> map de_batch_index (dl_entries d) = map int [0..<length (dl_entries d)]"
proof -
  obtain s' where "s = Auto \<or> s' = s" and as: "decode_log_as c log s' = Ok (Some d)"
    using decode_log_resolves [OF assms(1)] by blast
  moreover have "map de_batch_index (dl_entries d) = map int [0..<length (dl_entries d)]"
    using decode_log_as_wf [OF as] assms(2) i32_of_small by (intro nth_equalityI) auto
  ultimately show ?thesis
    using decode_log_as_wf [OF as] by auto
qed

text \<open>C40 at a decoded batch of two transfers.\<close>

theorem decode_log_entries_well_formed_witness:
  "\<exists>d. decode_log sample_crates (sample_log [5, 7] [2, 9]) Auto = Ok (Some d)
     \<and> map de_batch_index (dl_entries d) = [0, 1] \<and> (\<forall>e \<in> set (dl_entries d). entry_wf e)"
proof -
  let ?a = "''0x'' @ sample_digits"
  let ?d = "\<lparr>dl_event_name = ''TransferBatch'',
    dl_entries = batch_entries ?a ?a ?a (map show_nat [5, 7]) (map show_nat [2, 9])\<rparr>"
  have "decode_transfer_batch sample_crates (sample_log [5, 7] [2, 9]) = Ok ?d"
    by (rule decode_batch_roundtrip [OF sample_crates_ok _ _ _ _ sample_digits_ok sample_digits_ok sample_digits_ok])
      (simp_all add: sample_log_def)
  moreover have "decode_log sample_crates (sample_log [5, 7] [2, 9]) Auto
      = and_then (decode_transfer_batch sample_crates (sample_log [5, 7] [2, 9])) (\<lambda>d. Ok (Some d))"
    by (rule decode_log_batch [OF sample_crates_ok]) (simp_all add: sample_log_def)
  ultimately have d: "decode_log sample_crates (sample_log [5, 7] [2, 9]) Auto = Ok (Some ?d)"
    by simp
  have len: "length (dl_entries ?d) = 2" by simp
  then have "length (dl_entries ?d) \<le> 2 ^ 31" by (simp del: length_batch_entries)
  note wf = decode_log_entries_well_formed [OF d this]
  have "map int [0..<length (dl_entries ?d)] = [0, 1]"
    unfolding len by (simp add: upt_rec)
  with wf have "map de_batch_index (dl_entries ?d) = [0, 1]"
    by (simp only:)
  moreover have "\<forall>e \<in> set (dl_entries ?d). entry_wf e"
    using wf by blast
  ultimately show ?thesis
    using d by (intro exI [of _ ?d] conjI)
qed

text \<open>C39: A TransferBatch log whose data is the ABI encoding of two lists of 256-bit integers decodes, under
  the ERC-1155 standard and under detection alike, to one entry per position with the operator,
  sender and recipient of its topics, the decimal text of the id and the amount, and its position
  as batch index.\<close>

theorem decode_transfer_batch_roundtrip:
  assumes "crates_ok c" and "length ids = length amounts" and "length ids < 2 ^ 31"
    and "\<forall>n \<in> set ids. n < 2 ^ 256" and "\<forall>n \<in> set amounts. n < 2 ^ 256"
    and "address_digits opr" and "address_digits src" and "address_digits dst"
    and "log_topics log = [event_topic c transfer_batch_signature,
                           address_topic opr, address_topic src, address_topic dst]"
    and "log_data log = abi_batch ids amounts" and "s = Erc1155 \<or> s = Auto"
  shows "\<exists>d. decode_log c log s = Ok (Some d) \<and> dl_event_name d = ''TransferBatch''
    \<and> length (dl_entries d) = length ids
    \<and> (\<forall>i < length ids. dl_entries d ! i =
         \<lparr>de_event_name = ''TransferBatch'', de_standard = Erc1155, de_operator = Some (''0x'' @ opr),
          de_from = ''0x'' @ src, de_to = ''0x'' @ dst, de_token_id = show_nat (ids ! i),
          de_amount = show_nat (amounts ! i), de_batch_index = int i\<rparr>)"
  using decode_log_batch [OF assms(1,9,11)] decode_batch_roundtrip [OF assms(1-10)] assms(2,3)
  by (simp add: batch_entries_nth i32_of_small)

text \<open>C39 at two transfers.\<close>

theorem decode_transfer_batch_roundtrip_witness:
  "\<exists>d. decode_log sample_crates (sample_log [5, 7] [2, 9]) Erc1155 = Ok (Some d) \<and> length (dl_entries d) = 2
     \<and> de_token_id (dl_entries d ! 1) = show_nat 7 \<and> de_amount (dl_entries d ! 1) = show_nat 9"
proof -
  have "\<exists>d. decode_log sample_crates (sample_log [5, 7] [2, 9]) Erc1155 = Ok (Some d)
    \<and> dl_event_name d = ''TransferBatch'' \<and> length (dl_entries d) = length [5::nat, 7]
    \<and> (\<forall>i < length [5::nat, 7]. dl_entries d ! i =
         \<lparr>de_event_name = ''TransferBatch'', de_standard = Erc1155, de_operator = Some (''0x'' @ sample_digits),
          de_from = ''0x'' @ sample_digits, de_to = ''0x'' @ sample_digits, de_token_id = show_nat ([5, 7] ! i),
          de_amount = show_nat ([2, 9] ! i), de_batch_index = int i\<rparr>)"
    by (rule decode_transfer_batch_roundtrip [OF sample_crates_ok _ _ _ _ sample_digits_ok sample_digits_ok
          sample_digits_ok]) (simp_all add: sample_log_def)
  then show ?thesis by force
qed

text \<open>A log whose topics and data are ASCII is decoded without a panic, whatever the standard.\<close>

theorem decode_log_no_panic:
  assumes "ascii_log log"
  shows "decode_log c log s \<noteq> Err (Panic m)"
proof -
  have "no_panic (decode_log c log s)"
    using assms
    by (auto simp: decode_log_def split: option.splits intro!: no_panic_intros decode_log_as_no_panic)
  then show ?thesis by (simp add: no_panic_def)
qed

text \<open>At an encoded batch.\<close>

theorem decode_log_no_panic_witness:
  "decode_log sample_crates (sample_log [5, 7] [2, 9]) Erc20 \<noteq> Err (Panic ''hex is utf8'')"
proof (rule decode_log_no_panic)
  have "ascii sample_digits"
    using sample_digits_ok by (auto simp: address_digits_def list_all_iff intro!: ascii_hexdigits)
  then show "ascii_log (sample_log [5, 7] [2, 9])"
    using abi_word_ascii
    by (simp add: ascii_log_def sample_log_def abi_batch_def abi_batch_words_def address_topic_def
        event_topic_def sample_crates_def transfer_batch_signature_def ascii_def byte_def
        ascii_lower_char_def list_all_iff ball_Un)
qed

end
