(* ===== verification/Backfill.thy ===== *)
theory Backfill
  imports Ports Evm_Laws
begin

text \<open>
  Backfill planning (src/application/backfill.rs): an inclusive block range is cut into chunks,
  each chunk becomes one ingest job. The repository is the locale \<open>backfill_store\<close>; its laws
  are what the planner relies on.
\<close>

section \<open>Chunks\<close>

record backfill_chunk =
  chunk_from :: u64
  chunk_to :: u64

lemma saturating_add_ge: "a \<le> u64_saturating_add a b"
  by (auto simp: u64_saturating_add_def)

lemma next_chunk_from:
  assumes "a \<le> (t :: u64)" and "min (u64_saturating_add a b) t \<noteq> - 1"
  shows "unat a < unat (min (u64_saturating_add a b) t + 1)"
proof -
  have "a \<le> min (u64_saturating_add a b) t"
    using assms(1) saturating_add_ge by simp
  then show ?thesis
    unfolding unat_succ [OF assms(2)] word_le_nat_alt by simp
qed

function split_loop :: "u64 \<Rightarrow> u64 \<Rightarrow> u64 \<Rightarrow> backfill_chunk list" where
  "split_loop cursor to range_size =
     (if cursor \<le> to then
        (let stop = min (u64_saturating_add cursor (range_size - 1)) to
         in \<lparr>chunk_from = cursor, chunk_to = stop\<rparr>
              # (if stop = - 1 then [] else split_loop (stop + 1) to range_size))
      else [])"
  by pat_completeness auto

termination
  by (relation "measure (\<lambda>(f, t, _). Suc (unat t) - unat f)")
    (use next_chunk_from in \<open>auto simp: word_le_nat_alt intro!: diff_less_mono2\<close>)

declare split_loop.simps [simp del]

definition split_inclusive_range :: "u64 \<Rightarrow> u64 \<Rightarrow> u64 \<Rightarrow> backfill_chunk list result" where
  "split_inclusive_range from to range_size =
     (if from > to then Err (InvertedRange from to)
      else if range_size = 0 then Err (MustBePositive ''range-size'')
      else Ok (split_loop from to range_size))"

definition ensure_block_fits_i64 :: "u64 \<Rightarrow> unit result" where
  "ensure_block_fits_i64 block = (if block > i64_as_u64 i64_max then Err (BlockTooLarge block) else Ok ())"

definition block_to_i64 :: "u64 \<Rightarrow> int result" where
  "block_to_i64 block = and_then (ensure_block_fits_i64 block) (\<lambda>_. Ok (u64_as_i64 block))"

section \<open>Planning\<close>

record backfill_plan =
  bp_source_id :: uuid
  bp_requested_from :: u64
  bp_requested_to :: u64
  bp_planned_from :: "u64 option"
  bp_planned_to :: "u64 option"
  bp_range_size :: u64
  bp_ranges :: "backfill_chunk list"
  bp_inserted_jobs :: nat
  bp_existing_jobs :: nat

definition total_jobs :: "backfill_plan \<Rightarrow> nat" where
  "total_jobs p = bp_inserted_jobs p + bp_existing_jobs p"

definition backfill_key :: "crates \<Rightarrow> uuid \<Rightarrow> backfill_chunk \<Rightarrow> string" where
  "backfill_key c sid r = range_key_text ''backfill'' (uuid_display c sid) (chunk_from r) (chunk_to r)"

definition range_job :: "crates \<Rightarrow> source_ref \<Rightarrow> int \<Rightarrow> backfill_chunk \<Rightarrow> new_range_job result" where
  "range_job c source attempts r =
     and_then (block_to_i64 (chunk_from r)) (\<lambda>from.
     and_then (block_to_i64 (chunk_to r)) (\<lambda>to.
       Ok \<lparr>nj_job_type = IngestRange, nj_source_id = sr_id source, nj_chain_id = sr_chain_id source,
           nj_from_block = from, nj_to_block = to, nj_idempotency_key = backfill_key c (sr_id source) r,
           nj_max_attempts = attempts\<rparr>))"

fun enqueue_ranges ::
  "'s backfill_repository \<Rightarrow> crates \<Rightarrow> source_ref \<Rightarrow> int \<Rightarrow> backfill_chunk list \<Rightarrow> nat \<times> nat
   \<Rightarrow> ('s, app_error, nat \<times> nat) prog"
where
  "enqueue_ranges repo c source attempts [] counts = ret counts"
| "enqueue_ranges repo c source attempts (r # rs) (inserted, existing) =
     seq (lift (range_job c source attempts r)) (\<lambda>job.
     seq (bf_enqueue_range_job repo job) (\<lambda>result.
       case result of
         Inserted \<Rightarrow> enqueue_ranges repo c source attempts rs (inserted + 1, existing)
       | Existing \<Rightarrow> enqueue_ranges repo c source attempts rs (inserted, existing + 1)))"

definition resume_from :: "source_checkpoint option \<Rightarrow> u64 \<Rightarrow> u64" where
  "resume_from cp from =
     (case cp of
        Some cp \<Rightarrow>
          if sc_processed_block cp \<ge> 0
          then max from (u64_saturating_add (i64_as_u64 (sc_processed_block cp)) 1) else from
      | None \<Rightarrow> from)"

definition plan_result :: "source_ref \<Rightarrow> u64 \<Rightarrow> u64 \<Rightarrow> u64 \<Rightarrow> backfill_chunk list \<Rightarrow> nat \<times> nat \<Rightarrow> backfill_plan" where
  "plan_result source from to range_size ranges counts =
     \<lparr>bp_source_id = sr_id source, bp_requested_from = from, bp_requested_to = to,
      bp_planned_from = (case ranges of [] \<Rightarrow> None | r # _ \<Rightarrow> Some (chunk_from r)),
      bp_planned_to = (if ranges = [] then None else Some (chunk_to (last ranges))),
      bp_range_size = range_size, bp_ranges = ranges,
      bp_inserted_jobs = fst counts, bp_existing_jobs = snd counts\<rparr>"

definition plan_backfill_jobs ::
  "'s backfill_repository \<Rightarrow> crates \<Rightarrow> source_ref \<Rightarrow> u64 \<Rightarrow> u64 \<Rightarrow> u64 \<Rightarrow> int
   \<Rightarrow> ('s, app_error, backfill_plan) prog"
where
  "plan_backfill_jobs repo c source from to range_size max_attempts =
     (if max_attempts \<le> 0 then throw (MustBePositive ''max-attempts'')
      else if range_size = 0 then throw (MustBePositive ''range-size'')
      else if from > to then throw (InvertedRange from to)
      else
        seq (lift (ensure_block_fits_i64 from)) (\<lambda>_.
        seq (lift (ensure_block_fits_i64 to)) (\<lambda>_.
        seq (bf_checkpoint_for_source repo (sr_id source)) (\<lambda>checkpoint.
        let start = resume_from checkpoint from in
        seq (if start > to then ret [] else lift (split_inclusive_range start to range_size)) (\<lambda>ranges.
        seq (enqueue_ranges repo c source max_attempts ranges (0, 0)) (\<lambda>counts.
          ret (plan_result source from to range_size ranges counts)))))))"

section \<open>The chunks cover the range\<close>

definition chunk_blocks :: "backfill_chunk \<Rightarrow> nat list" where
  "chunk_blocks r = [unat (chunk_from r)..<Suc (unat (chunk_to r))]"

lemma unat_chunk_to:
  "range_size \<noteq> 0 \<Longrightarrow> unat (min (u64_saturating_add a (range_size - 1)) t)
     = min (unat a + unat range_size - 1) (unat t)"
proof -
  assume "range_size \<noteq> 0"
  moreover have "0 < unat range_size"
    using \<open>range_size \<noteq> 0\<close> by (simp add: unat_gt_0)
  moreover have "unat t \<le> 18446744073709551615" using unat_u64_lt [of t] by linarith
  ultimately show ?thesis
    by (simp add: unat_min unat_saturating_add unat_pred min.assoc min_absorb2)
qed

lemma split_loop_blocks:
  "range_size \<noteq> 0 \<Longrightarrow>
     concat (map chunk_blocks (split_loop from to range_size)) = [unat from..<Suc (unat to)]"
proof (induction "from" to range_size rule: split_loop.induct)
  case (1 src dst size)
  show ?case
  proof (cases "src \<le> dst")
    case False
    then show ?thesis by (subst split_loop.simps) (simp add: word_le_nat_alt)
  next
    case True
    let ?t = "min (u64_saturating_add src (size - 1)) dst"
    have le: "unat src \<le> unat ?t" "unat ?t \<le> unat dst"
      using True saturating_add_ge [of src "size - 1"] by (simp_all add: word_le_nat_alt [symmetric])
    show ?thesis
    proof (cases "?t = - 1")
      case last: True
      then have "dst = - 1"
        using le(2) by (metis antisym min.cobounded2 word_n1_ge)
      with True last show ?thesis
        by (subst split_loop.simps) (simp add: chunk_blocks_def Let_def)
    next
      case False
      have "concat (map chunk_blocks (split_loop src dst size))
          = [unat src..<Suc (unat ?t)] @ concat (map chunk_blocks (split_loop (?t + 1) dst size))"
        using True False by (subst split_loop.simps) (simp add: chunk_blocks_def Let_def)
      also have "\<dots> = [unat src..<Suc (unat ?t)] @ [Suc (unat ?t)..<Suc (unat dst)]"
        using "1.IH" [OF True refl] False "1.prems" by (simp add: unat_succ)
      also have "\<dots> = [unat src..<Suc (unat dst)]"
        using le by (intro upt_split) simp_all
      finally show ?thesis .
    qed
  qed
qed

definition chunk_ok :: "u64 \<Rightarrow> u64 \<Rightarrow> u64 \<Rightarrow> backfill_chunk \<Rightarrow> bool" where
  "chunk_ok from to range_size r \<longleftrightarrow>
     from \<le> chunk_from r \<and> chunk_from r \<le> chunk_to r \<and> chunk_to r \<le> to
     \<and> length (chunk_blocks r) \<le> unat range_size
     \<and> (chunk_to r \<noteq> to \<longrightarrow> length (chunk_blocks r) = unat range_size)"

lemma split_loop_chunks:
  "range_size \<noteq> 0 \<Longrightarrow> \<forall>r \<in> set (split_loop from to range_size). chunk_ok from to range_size r"
proof (induction "from" to range_size rule: split_loop.induct)
  case (1 src dst size)
  show ?case
  proof (cases "src \<le> dst")
    case False
    then show ?thesis by (subst split_loop.simps) simp
  next
    case True
    let ?t = "min (u64_saturating_add src (size - 1)) dst"
    have pos: "0 < unat size" using "1.prems" by (simp add: unat_gt_0)
    have ut: "unat ?t = min (unat src + unat size - 1) (unat dst)"
      by (rule unat_chunk_to [OF "1.prems"])
    have hd: "chunk_ok src dst size \<lparr>chunk_from = src, chunk_to = ?t\<rparr>"
      using True pos ut by (auto simp: chunk_ok_def chunk_blocks_def word_le_nat_alt word_unat_eq_iff)
    have tl: "\<forall>r \<in> set (split_loop (?t + 1) dst size). chunk_ok src dst size r" if "?t \<noteq> - 1"
    proof
      fix r assume "r \<in> set (split_loop (?t + 1) dst size)"
      then have "chunk_ok (?t + 1) dst size r"
        using "1.IH" [OF True refl that "1.prems"] by blast
      moreover have "src \<le> ?t + 1"
        using next_chunk_from [OF True that] by (simp add: word_le_nat_alt)
      ultimately show "chunk_ok src dst size r" by (auto simp: chunk_ok_def)
    qed
    from True hd tl show ?thesis
      by (subst split_loop.simps) (auto simp: Let_def)
  qed
qed

lemma split_loop_nonempty: "from \<le> to \<Longrightarrow> split_loop from to range_size \<noteq> []"
  by (subst split_loop.simps) (simp add: Let_def)

lemma split_loop_empty: "\<not> from \<le> to \<Longrightarrow> split_loop from to range_size = []"
  by (subst split_loop.simps) simp

text \<open>A range is cut into chunks exactly when it is not inverted and the size is positive. The blocks of
  the chunks, read in order, are the blocks of the range, each once; every chunk lies in the range
  and holds at most the requested number of blocks, and every chunk but the one that ends the range
  holds exactly that number. This includes ranges that end at the largest u64.\<close>

theorem split_inclusive_range_partition:
  "(case split_inclusive_range from to range_size of
      Inl e \<Rightarrow> from > to \<and> e = InvertedRange from to \<or> range_size = 0 \<and> e = MustBePositive ''range-size''
    | Inr chunks \<Rightarrow>
        from \<le> to \<and> range_size \<noteq> 0 \<and> chunks \<noteq> []
        \<and> concat (map chunk_blocks chunks) = [unat from..<Suc (unat to)]
        \<and> (\<forall>r \<in> set chunks. chunk_ok from to range_size r))"
  using split_loop_blocks [of range_size "from" to] split_loop_chunks [of range_size "from" to]
    split_loop_nonempty [of "from" to range_size]
  by (auto simp: split_inclusive_range_def)

text \<open>At a range that ends at the largest block number.\<close>

theorem split_inclusive_range_partition_witness:
  "\<exists>chunks. split_inclusive_range (- 5) (- 1) 2 = Ok chunks
     \<and> concat (map chunk_blocks chunks) = [unat (- 5 :: u64)..<Suc (unat (- 1 :: u64))]"
  using split_inclusive_range_partition [of "- 1" "- 5" 2]
  by (cases "split_inclusive_range (- 5) (- 1) 2") (auto simp del: upt_Suc)

section \<open>The repository the planner relies on\<close>

locale backfill_store =
  fixes checkpoint :: "uuid \<Rightarrow> ('s, app_error, source_checkpoint option) prog"
    and enqueue :: "new_range_job \<Rightarrow> ('s, app_error, enqueue_result) prog"
    and stored :: "'s \<Rightarrow> new_range_job \<Rightarrow> bool"
    and accepts :: "'s \<Rightarrow> new_range_job \<Rightarrow> bool"
    and view :: "'s \<Rightarrow> 'v"
  assumes checkpoint_reads: "checkpoint sid s = (r, t) \<Longrightarrow> t = s"
    and enqueue_inserted: "enqueue j s = (Ok Inserted, t) \<Longrightarrow> \<not> stored s j \<and> stored t j"
    and enqueue_existing: "enqueue j s = (Ok Existing, t) \<Longrightarrow> view t = view s \<and> stored s j"
    and enqueue_keeps: "enqueue j s = (Ok e, t) \<Longrightarrow> stored s i \<Longrightarrow> stored t i"
    and enqueue_accepts: "enqueue j s = (Ok e, t) \<Longrightarrow> accepts s j \<and> (accepts t i \<longleftrightarrow> accepts s i)"
    and enqueue_checkpoint: "enqueue j s = (Ok e, t) \<Longrightarrow> fst (checkpoint sid t) = fst (checkpoint sid s)"
    and enqueue_again: "accepts s j \<Longrightarrow> stored s j \<Longrightarrow> \<exists>t. enqueue j s = (Ok Existing, t)"
begin

definition repo :: "'s backfill_repository" where
  "repo = \<lparr>bf_checkpoint_for_source = checkpoint, bf_enqueue_range_job = enqueue\<rparr>"

definition planned :: "crates \<Rightarrow> source_ref \<Rightarrow> int \<Rightarrow> 's \<Rightarrow> backfill_chunk list \<Rightarrow> bool" where
  "planned c source n s rs \<longleftrightarrow>
     (\<forall>r \<in> set rs. \<exists>j. range_job c source n r = Ok j \<and> stored s j \<and> accepts s j)"

lemma repo_simps [simp]:
  "bf_checkpoint_for_source repo = checkpoint"
  "bf_enqueue_range_job repo = enqueue"
  by (simp_all add: repo_def)

lemma enqueue_ok:
  assumes "enqueue j s = (Ok e, t)"
  shows "stored t j" and "accepts t j"
  using assms enqueue_inserted [of j s t] enqueue_existing [of j s t] enqueue_keeps [of j s e t j]
    enqueue_accepts [of j s e t j]
  by (cases e; auto)+

lemma enqueue_ranges_step:
  assumes "enqueue_ranges repo c source n (r # rs) (a, b) s = (Ok (a', b'), t)"
  obtains j e s1 a1 b1 where "range_job c source n r = Ok j" and "enqueue j s = (Ok e, s1)"
    and "enqueue_ranges repo c source n rs (a1, b1) s1 = (Ok (a', b'), t)" and "a1 + b1 = a + b + 1"
proof -
  from assms obtain j e s1 where "range_job c source n r = Ok j" and "enqueue j s = (Ok e, s1)"
    and "(case e of Inserted \<Rightarrow> enqueue_ranges repo c source n rs (Suc a, b)
          | Existing \<Rightarrow> enqueue_ranges repo c source n rs (a, Suc b)) s1 = (Ok (a', b'), t)"
    by (simp add: seq_Ok_iff) blast
  then show thesis
    by (cases e) (auto intro: that [of j e s1 "Suc a" b] that [of j e s1 a "Suc b"])
qed

lemma enqueue_ranges_run:
  assumes "enqueue_ranges repo c source n rs (a, b) s = (Ok (a', b'), t)"
  shows "a' + b' = a + b + length rs \<and> planned c source n t rs
    \<and> (\<forall>i. stored s i \<longrightarrow> stored t i) \<and> (\<forall>i. accepts t i \<longleftrightarrow> accepts s i)
    \<and> (\<forall>sid. fst (checkpoint sid t) = fst (checkpoint sid s))"
  using assms
proof (induction rs arbitrary: a b s)
  case Nil
  then show ?case by (simp add: planned_def)
next
  case (Cons r rs)
  obtain j e s1 a1 b1 where "range_job c source n r = Ok j" and e: "enqueue j s = (Ok e, s1)"
    and rest: "enqueue_ranges repo c source n rs (a1, b1) s1 = (Ok (a', b'), t)" and "a1 + b1 = a + b + 1"
    by (rule enqueue_ranges_step [OF Cons.prems])
  with Cons.IH [OF rest] enqueue_ok [OF e] enqueue_keeps [OF e] enqueue_accepts [OF e]
    enqueue_checkpoint [OF e] show ?case
    by (auto simp: planned_def)
qed

lemma enqueue_ranges_again:
  "planned c source n t rs \<Longrightarrow>
     \<exists>u. enqueue_ranges repo c source n rs (a, b) t = (Ok (a, b + length rs), u) \<and> view u = view t"
proof (induction rs arbitrary: b t)
  case Nil
  show ?case by (simp add: ret_def)
next
  case (Cons r rs)
  then obtain j u where j: "range_job c source n r = Ok j" and e: "enqueue j t = (Ok Existing, u)"
    by (auto simp: planned_def dest: enqueue_again)
  have "planned c source n u rs"
    using Cons.prems enqueue_keeps [OF e] enqueue_accepts [OF e] by (fastforce simp: planned_def)
  from Cons.IH [OF this, of "Suc b"] enqueue_existing [OF e] j e show ?case
    by (auto simp: seq_apply [of "enqueue j"])
qed

lemma plan_eq:
  assumes "0 < n" and "width \<noteq> 0" and "from \<le> to"
    and "ensure_block_fits_i64 from = Ok ()" and "ensure_block_fits_i64 to = Ok ()"
    and "checkpoint (sr_id source) s = (Ok cp, s)"
  shows "plan_backfill_jobs repo c source from to width n s
    = seq (enqueue_ranges repo c source n (split_loop (resume_from cp from) to width) (0, 0))
        (\<lambda>counts. ret (plan_result source from to width (split_loop (resume_from cp from) to width) counts)) s"
  using assms leD [OF assms(3)]
  by (simp add: plan_backfill_jobs_def seq_apply [of "checkpoint (sr_id source)"] Let_def
      split_inclusive_range_def split_loop_empty not_le)

lemma plan_run:
  assumes "plan_backfill_jobs repo c source from to width n s = (Ok p, t)"
  obtains cp counts where "0 < n" and "width \<noteq> 0" and "from \<le> to"
    and "ensure_block_fits_i64 from = Ok ()" and "ensure_block_fits_i64 to = Ok ()"
    and "checkpoint (sr_id source) s = (Ok cp, s)"
    and "enqueue_ranges repo c source n (split_loop (resume_from cp from) to width) (0, 0) s = (Ok counts, t)"
    and "p = plan_result source from to width (split_loop (resume_from cp from) to width) counts"
proof -
  from assms obtain cp s1 where g: "0 < n" "width \<noteq> 0" "from \<le> to"
    "ensure_block_fits_i64 from = Ok ()" "ensure_block_fits_i64 to = Ok ()"
    and cp: "checkpoint (sr_id source) s = (Ok cp, s1)"
    by (auto simp: plan_backfill_jobs_def seq_Ok_iff Let_def split: if_splits)
  from checkpoint_reads [OF cp] cp have cp: "checkpoint (sr_id source) s = (Ok cp, s)" by simp
  from assms plan_eq [OF g cp] that [OF g cp] show thesis
    by (auto simp: seq_Ok_iff)
qed

text \<open>A successful plan covers what the checkpoint leaves of the range, and every chunk has its job.\<close>

lemma plan_covers:
  assumes "plan_backfill_jobs repo c source from to width n s = (Ok p, t)"
  shows "(\<exists>cp. checkpoint (sr_id source) s = (Ok cp, s)
      \<and> concat (map chunk_blocks (bp_ranges p)) = [unat (resume_from cp from)..<Suc (unat to)])
    \<and> planned c source n t (bp_ranges p) \<and> total_jobs p = length (bp_ranges p)"
proof -
  from assms obtain cp counts where w: "width \<noteq> 0" and cp: "checkpoint (sr_id source) s = (Ok cp, s)"
    and run: "enqueue_ranges repo c source n (split_loop (resume_from cp from) to width) (0, 0) s = (Ok counts, t)"
    and p: "p = plan_result source from to width (split_loop (resume_from cp from) to width) counts"
    by (rule plan_run)
  have run: "enqueue_ranges repo c source n (split_loop (resume_from cp from) to width) (0, 0) s
      = (Ok (fst counts, snd counts), t)"
    using run by simp
  show ?thesis
    using enqueue_ranges_run [OF run] cp split_loop_blocks [OF w, of "resume_from cp from" to]
    by (simp add: p plan_result_def total_jobs_def)
qed

text \<open>Planning the same range again inserts nothing and changes nothing.\<close>

lemma plan_again:
  assumes "plan_backfill_jobs repo c source from to width n s = (Ok p, t)"
  shows "\<exists>u. plan_backfill_jobs repo c source from to width n t
      = (Ok (p\<lparr>bp_inserted_jobs := 0, bp_existing_jobs := length (bp_ranges p)\<rparr>), u) \<and> view u = view t"
proof -
  from assms obtain cp counts where g: "0 < n" "width \<noteq> 0" "from \<le> to"
    "ensure_block_fits_i64 from = Ok ()" "ensure_block_fits_i64 to = Ok ()"
    and cp: "checkpoint (sr_id source) s = (Ok cp, s)"
    and run: "enqueue_ranges repo c source n (split_loop (resume_from cp from) to width) (0, 0) s = (Ok counts, t)"
    and p: "p = plan_result source from to width (split_loop (resume_from cp from) to width) counts"
    by (rule plan_run)
  have run: "enqueue_ranges repo c source n (split_loop (resume_from cp from) to width) (0, 0) s
      = (Ok (fst counts, snd counts), t)"
    using run by simp
  note after = enqueue_ranges_run [OF run]
  have "fst (checkpoint (sr_id source) t) = Ok cp"
    using after cp by simp
  then have "checkpoint (sr_id source) t = (Ok cp, t)"
    using checkpoint_reads [of "sr_id source" t] by (cases "checkpoint (sr_id source) t") auto
  note eq = plan_eq [OF g this]
  obtain u where "enqueue_ranges repo c source n (split_loop (resume_from cp from) to width) (0, 0) t
      = (Ok (0, 0 + length (split_loop (resume_from cp from) to width)), u)" and "view u = view t"
    using enqueue_ranges_again after by blast
  with eq show ?thesis
    by (simp add: p plan_result_def seq_apply ret_def)
qed

end

end
