(* ===== verification/Job_Queue.thy ===== *)
theory Job_Queue
  imports Store Backfill
begin

text \<open>
  The job queue (src/infra/postgres/job_repository.rs) and the repository the planner uses
  (repositories.rs). The rows another transaction holds locked are the argument \<open>locked\<close> of a
  lease, the set SKIP LOCKED leaves out; FOR UPDATE only waits and has no effect on the outcome of
  a single operation.
\<close>

section \<open>Enqueueing\<close>

record new_job =
  nw_id :: uuid
  nw_job_type :: job_type
  nw_source_id :: "uuid option"
  nw_chain_id :: int
  nw_from_block :: "int option"
  nw_to_block :: "int option"
  nw_idempotency_key :: string
  nw_max_attempts :: int

definition new_job_new :: "job_type \<Rightarrow> int \<Rightarrow> string \<Rightarrow> new_job db_prog" where
  "new_job_new t chain key =
     seq new_uuid (\<lambda>i. ret \<lparr>nw_id = i, nw_job_type = t, nw_source_id = None, nw_chain_id = chain,
       nw_from_block = None, nw_to_block = None, nw_idempotency_key = key, nw_max_attempts = 5\<rparr>)"

definition with_range :: "int \<Rightarrow> int \<Rightarrow> new_job \<Rightarrow> new_job" where
  "with_range from to j = j\<lparr>nw_from_block := Some from, nw_to_block := Some to\<rparr>"

definition with_source :: "uuid \<Rightarrow> new_job \<Rightarrow> new_job" where
  "with_source sid j = j\<lparr>nw_source_id := Some sid\<rparr>"

definition with_max_attempts :: "int \<Rightarrow> new_job \<Rightarrow> new_job" where
  "with_max_attempts n j = j\<lparr>nw_max_attempts := n\<rparr>"

definition new_job_row :: "new_job \<Rightarrow> int \<Rightarrow> job_row" where
  "new_job_row j now =
     \<lparr>jr_id = nw_id j, jr_job_type = job_type_as_str (nw_job_type j), jr_status = job_status_as_str Queued,
      jr_source_id = nw_source_id j, jr_chain_id = nw_chain_id j, jr_from_block = nw_from_block j,
      jr_to_block = nw_to_block j, jr_idempotency_key = nw_idempotency_key j, jr_leased_by = None,
      jr_lease_expires_at = None, jr_attempts = 0, jr_max_attempts = nw_max_attempts j,
      jr_error_class = None, jr_error_message = None, jr_created_at = now, jr_updated_at = now\<rparr>"

datatype enqueued = EnqInserted job_row | EnqExisting job_row

definition same_range :: "job_row \<Rightarrow> job_row \<Rightarrow> bool" where
  "same_range a b \<longleftrightarrow> job_range_key a \<noteq> None \<and> job_range_key a = job_range_key b"

definition job_conflict :: "job_row list \<Rightarrow> job_row \<Rightarrow> bool" where
  "job_conflict rows row \<longleftrightarrow>
     list_ex (\<lambda>r. jr_id r = jr_id row \<or> jr_idempotency_key r = jr_idempotency_key row \<or> same_range r row) rows"

definition existing_enqueue_conflict :: "job_row \<Rightarrow> job_row db_prog" where
  "existing_enqueue_conflict row = (\<lambda>d.
     (case List.find (\<lambda>r. jr_idempotency_key r = jr_idempotency_key row) (db_jobs d) of
        Some r \<Rightarrow> Ok r
      | None \<Rightarrow>
          (case (jr_source_id row, jr_from_block row, jr_to_block row) of
             (Some sid, Some from, Some to) \<Rightarrow>
               ok_or RowNotFound (List.find (\<lambda>r. jr_source_id r = Some sid \<and> jr_job_type r = jr_job_type row
                 \<and> jr_from_block r = Some from \<and> jr_to_block r = Some to) (db_jobs d))
           | _ \<Rightarrow> Err RowNotFound), d))"

definition insert_job :: "job_row \<Rightarrow> job_row db_prog" where
  "insert_job row = (\<lambda>d.
     if \<not> (case jr_source_id row of None \<Rightarrow> True | Some sid \<Rightarrow> has_source d sid)
     then (Err (ForeignKeyViolation ''jobs''), d)
     else (Ok row, d\<lparr>db_jobs := db_jobs d @ [row]\<rparr>))"

definition enqueue :: "new_job \<Rightarrow> enqueued db_prog" where
  "enqueue j =
     seq connection (\<lambda>_.
     seq utc_now (\<lambda>now.
     let row = new_job_row j now in
     seq (lift (ensure (job_check row) (CheckViolation ''jobs''))) (\<lambda>_.
     seq (reads (\<lambda>d. job_conflict (db_jobs d) row)) (\<lambda>conflict.
       if conflict then seq (existing_enqueue_conflict row) (\<lambda>r. ret (EnqExisting r))
       else seq (insert_job row) (\<lambda>r. ret (EnqInserted r))))))"

section \<open>Leasing\<close>

definition lease_eligible :: "job_type option \<Rightarrow> int option \<Rightarrow> int \<Rightarrow> job_row \<Rightarrow> bool" where
  "lease_eligible jt chain now r \<longleftrightarrow>
     (case jt of None \<Rightarrow> True | Some t \<Rightarrow> jr_job_type r = job_type_as_str t)
     \<and> (case chain of None \<Rightarrow> True | Some c \<Rightarrow> jr_chain_id r = c)
     \<and> (jr_status r = job_status_as_str Queued
        \<or> (jr_status r = job_status_as_str Leased \<or> jr_status r = job_status_as_str Running)
          \<and> (case jr_lease_expires_at r of None \<Rightarrow> False | Some e \<Rightarrow> e < now))"

definition oldest_job :: "job_row list \<Rightarrow> job_row option" where
  "oldest_job rows = List.find (\<lambda>r. list_all (\<lambda>q. jr_created_at r \<le> jr_created_at q) rows) rows"

definition lock_next_candidate ::
  "(uuid \<Rightarrow> bool) \<Rightarrow> job_type option \<Rightarrow> int option \<Rightarrow> job_row option db_prog"
where
  "lock_next_candidate locked jt chain =
     seq utc_now (\<lambda>now.
       reads (\<lambda>d. oldest_job (filter (\<lambda>r. \<not> locked (jr_id r) \<and> lease_eligible jt chain now r) (db_jobs d))))"

definition update_job :: "uuid \<Rightarrow> (job_row \<Rightarrow> job_row) \<Rightarrow> job_row db_prog" where
  "update_job i f = (\<lambda>d.
     case List.find (\<lambda>r. jr_id r = i) (db_jobs d) of
       None \<Rightarrow> (Err RowNotFound, d)
     | Some r \<Rightarrow>
         if job_check (f r)
         then (Ok (f r), d\<lparr>db_jobs := update_rows (\<lambda>r. jr_id r = i) f (db_jobs d)\<rparr>)
         else (Err (CheckViolation ''jobs''), d))"

definition status_is_terminal :: "job_status \<Rightarrow> bool" where
  "status_is_terminal s \<longleftrightarrow> s = Succeeded \<or> s = Failed \<or> s = DeadLettered \<or> s = Cancelled"

definition update_attempt_status ::
  "uuid \<Rightarrow> int \<Rightarrow> job_status \<Rightarrow> string option \<Rightarrow> string option \<Rightarrow> nat db_prog"
where
  "update_attempt_status i n status cls msg =
     seq (if status_is_terminal status then seq utc_now (\<lambda>now. ret (Some now)) else ret None) (\<lambda>finished.
     seq (reads (\<lambda>d. count_rows (\<lambda>a. at_job_id a = i \<and> at_attempt_number a = n) (db_attempts d))) (\<lambda>count.
     seq (writes (\<lambda>d. d\<lparr>db_attempts := update_rows (\<lambda>a. at_job_id a = i \<and> at_attempt_number a = n)
            (\<lambda>a. a\<lparr>at_status := job_status_as_str status, at_finished_at := finished,
                   at_error_class := cls, at_error_message := msg\<rparr>) (db_attempts d)\<rparr>)) (\<lambda>_.
       ret count)))"

definition insert_attempt :: "uuid \<Rightarrow> int \<Rightarrow> string \<Rightarrow> unit db_prog" where
  "insert_attempt job n worker =
     seq new_uuid (\<lambda>i.
     seq utc_now (\<lambda>now.
     let row = \<lparr>at_id = i, at_job_id = job, at_attempt_number = n, at_worker_id = worker,
                at_started_at = now, at_finished_at = None, at_status = job_status_as_str Leased,
                at_error_class = None, at_error_message = None\<rparr> in
     seq (lift (ensure (attempt_check row) (CheckViolation ''job_attempts''))) (\<lambda>_.
     seq (reads (\<lambda>d. i \<notin> at_id ` set (db_attempts d))) (\<lambda>fresh.
     seq (lift (ensure fresh (UniqueViolation ''job_attempts''))) (\<lambda>_.
       writes (\<lambda>d. d\<lparr>db_attempts := db_attempts d @ [row]\<rparr>))))))"

definition lease_expired_class :: string where "lease_expired_class = ''LeaseExpired''"

definition lease_row :: "job_row \<Rightarrow> string \<Rightarrow> int \<Rightarrow> int \<Rightarrow> job_row \<Rightarrow> job_row" where
  "lease_row candidate worker lease_for now r =
     r\<lparr>jr_status := job_status_as_str Leased, jr_leased_by := Some worker,
       jr_lease_expires_at := Some (now + lease_for),
       jr_attempts := i32_wrapping_add (jr_attempts candidate) 1,
       jr_error_class := None, jr_error_message := None, jr_updated_at := now\<rparr>"

definition cancel_expired_attempt :: "job_row \<Rightarrow> int \<Rightarrow> unit db_prog" where
  "cancel_expired_attempt candidate now =
     run_if ((jr_status candidate = ''leased'' \<or> jr_status candidate = ''running'')
         \<and> (case jr_lease_expires_at candidate of None \<Rightarrow> False | Some e \<Rightarrow> e < now))
       (seq (update_attempt_status (jr_id candidate) (jr_attempts candidate) Cancelled
              (Some lease_expired_class) (Some ''job lease expired before worker completed'')) (\<lambda>_. ret ()))"

definition lease_next_candidate ::
  "(uuid \<Rightarrow> bool) \<Rightarrow> string \<Rightarrow> int \<Rightarrow> job_type option \<Rightarrow> int option \<Rightarrow> job_row option db_prog"
where
  "lease_next_candidate locked worker lease_for jt chain =
     seq connection (\<lambda>_. pg_transaction (
       seq (lock_next_candidate locked jt chain) (\<lambda>candidate.
       case candidate of
         None \<Rightarrow> ret None
       | Some candidate \<Rightarrow>
           seq utc_now (\<lambda>now.
           seq (cancel_expired_attempt candidate now) (\<lambda>_.
           seq (update_job (jr_id candidate) (lease_row candidate worker lease_for now)) (\<lambda>leased.
           seq (insert_attempt (jr_id leased) (jr_attempts leased) worker) (\<lambda>_.
             ret (Some leased))))))))"

definition lease_next :: "(uuid \<Rightarrow> bool) \<Rightarrow> string \<Rightarrow> int \<Rightarrow> job_row option db_prog" where
  "lease_next locked worker lease_for = lease_next_candidate locked worker lease_for None None"

definition lease_next_for_type :: "(uuid \<Rightarrow> bool) \<Rightarrow> string \<Rightarrow> int \<Rightarrow> job_type \<Rightarrow> job_row option db_prog" where
  "lease_next_for_type locked worker lease_for jt =
     lease_next_candidate locked worker lease_for (Some jt) None"

definition lease_next_for_type_and_chain ::
  "(uuid \<Rightarrow> bool) \<Rightarrow> string \<Rightarrow> int \<Rightarrow> job_type \<Rightarrow> int \<Rightarrow> job_row option db_prog"
where
  "lease_next_for_type_and_chain locked worker lease_for jt chain =
     lease_next_candidate locked worker lease_for (Some jt) (Some chain)"

section \<open>Outcomes\<close>

definition get_job_for_update :: "uuid \<Rightarrow> job_row db_prog" where
  "get_job_for_update i =
     (\<lambda>d. (ok_or RowNotFound (List.find (\<lambda>r. jr_id r = i) (db_jobs d)), d))"

definition worker_interrupted_class :: string where "worker_interrupted_class = ''WorkerInterrupted''"

definition interrupted_row :: "string \<Rightarrow> int \<Rightarrow> job_row \<Rightarrow> job_row" where
  "interrupted_row message now r =
     r\<lparr>jr_status := job_status_as_str Queued, jr_leased_by := None, jr_lease_expires_at := None,
       jr_error_class := Some worker_interrupted_class, jr_error_message := Some message,
       jr_updated_at := now\<rparr>"

definition mark_interrupted_for_retry :: "uuid \<Rightarrow> string \<Rightarrow> job_row db_prog" where
  "mark_interrupted_for_retry i message =
     seq connection (\<lambda>_. pg_transaction (
       seq (get_job_for_update i) (\<lambda>row.
       if \<not> (jr_status row = ''leased'' \<or> jr_status row = ''running'') then ret row
       else
         seq utc_now (\<lambda>now.
         seq (update_job (jr_id row) (interrupted_row message now)) (\<lambda>row.
         seq (update_attempt_status (jr_id row) (jr_attempts row) Cancelled
                (Some worker_interrupted_class) (Some message)) (\<lambda>_.
           ret row))))))"

definition running_row :: "int \<Rightarrow> job_row \<Rightarrow> job_row" where
  "running_row now r = r\<lparr>jr_status := job_status_as_str Running, jr_updated_at := now\<rparr>"

definition mark_running :: "uuid \<Rightarrow> job_row db_prog" where
  "mark_running i =
     seq connection (\<lambda>_. pg_transaction (
       seq utc_now (\<lambda>now.
       seq (update_job i (running_row now)) (\<lambda>row.
       seq (update_attempt_status (jr_id row) (jr_attempts row) Running None None) (\<lambda>_.
         ret row)))))"

definition succeeded_row :: "int \<Rightarrow> job_row \<Rightarrow> job_row" where
  "succeeded_row now r =
     r\<lparr>jr_status := job_status_as_str Succeeded, jr_leased_by := None, jr_lease_expires_at := None,
       jr_updated_at := now\<rparr>"

definition mark_succeeded :: "uuid \<Rightarrow> job_row db_prog" where
  "mark_succeeded i =
     seq connection (\<lambda>_. pg_transaction (
       seq utc_now (\<lambda>now.
       seq (update_job i (succeeded_row now)) (\<lambda>row.
       seq (update_attempt_status (jr_id row) (jr_attempts row) Succeeded None None) (\<lambda>_.
         ret row)))))"

definition failed_row :: "job_status \<Rightarrow> string \<Rightarrow> string \<Rightarrow> int \<Rightarrow> job_row \<Rightarrow> job_row" where
  "failed_row status cls message now r =
     r\<lparr>jr_status := job_status_as_str status, jr_leased_by := None, jr_lease_expires_at := None,
       jr_error_class := Some cls, jr_error_message := Some message, jr_updated_at := now\<rparr>"

definition next_status :: "job_row \<Rightarrow> job_status" where
  "next_status row = (if jr_attempts row \<ge> jr_max_attempts row then DeadLettered else Queued)"

definition mark_failed :: "uuid \<Rightarrow> string \<Rightarrow> string \<Rightarrow> job_row db_prog" where
  "mark_failed i cls message =
     seq connection (\<lambda>_. pg_transaction (
       seq (get_job_for_update i) (\<lambda>row.
       let status = next_status row in
       seq utc_now (\<lambda>now.
       seq (update_job (jr_id row) (failed_row status cls message now)) (\<lambda>row.
       let attempt_status = (if status = DeadLettered then DeadLettered else Failed) in
       seq (update_attempt_status (jr_id row) (jr_attempts row) attempt_status (Some cls) (Some message)) (\<lambda>_.
         ret row))))))"

section \<open>Queries\<close>

definition get_job :: "uuid \<Rightarrow> job_row db_prog" where
  "get_job i = seq connection (\<lambda>_. get_job_for_update i)"

text \<open>Ascending order with the nulls last, as PostgreSQL sorts them.\<close>

definition null_last_le :: "int option \<Rightarrow> int option \<Rightarrow> bool" where
  "null_last_le a b = (case (a, b) of (_, None) \<Rightarrow> True | (None, Some _) \<Rightarrow> False | (Some x, Some y) \<Rightarrow> x \<le> y)"

definition job_order :: "job_row \<Rightarrow> job_row \<Rightarrow> bool" where
  "job_order a b \<longleftrightarrow>
     (if jr_from_block a \<noteq> jr_from_block b then null_last_le (jr_from_block a) (jr_from_block b)
      else if jr_to_block a \<noteq> jr_to_block b then null_last_le (jr_to_block a) (jr_to_block b)
      else jr_created_at a \<le> jr_created_at b)"

definition jobs_for_source :: "uuid \<Rightarrow> job_row list db_prog" where
  "jobs_for_source sid =
     seq connection (\<lambda>_. reads (\<lambda>d. sort_by job_order (filter (\<lambda>r. jr_source_id r = Some sid) (db_jobs d))))"

definition job_matches :: "int option \<Rightarrow> uuid option \<Rightarrow> job_type option \<Rightarrow> job_row \<Rightarrow> bool" where
  "job_matches chain sid jt r \<longleftrightarrow>
     (case chain of None \<Rightarrow> True | Some c \<Rightarrow> jr_chain_id r = c)
     \<and> (case sid of None \<Rightarrow> True | Some i \<Rightarrow> jr_source_id r = Some i)
     \<and> (case jt of None \<Rightarrow> True | Some t \<Rightarrow> jr_job_type r = job_type_as_str t)"

definition status_counts ::
  "int option \<Rightarrow> uuid option \<Rightarrow> job_type option \<Rightarrow> (string \<times> nat) list db_prog"
where
  "status_counts chain sid jt =
     seq connection (\<lambda>_. reads (\<lambda>d.
       let rows = filter (job_matches chain sid jt) (db_jobs d)
       in map (\<lambda>s. (s, count_rows (\<lambda>r. jr_status r = s) rows)) (btree_set (map jr_status rows))))"

definition attempts_for_job :: "uuid \<Rightarrow> attempt_row list db_prog" where
  "attempts_for_job i =
     seq connection (\<lambda>_. reads (\<lambda>d.
       sort_by (\<lambda>a b. at_attempt_number a \<le> at_attempt_number b) (filter (\<lambda>a. at_job_id a = i) (db_attempts d))))"

section \<open>The repository of the planner (repositories.rs)\<close>

definition checkpoint_row_for_source :: "uuid \<Rightarrow> checkpoint_row option db_prog" where
  "checkpoint_row_for_source sid =
     seq connection (\<lambda>_. reads (\<lambda>d. List.find (\<lambda>r. ck_source_id r = sid) (db_checkpoints d)))"

definition to_source_checkpoint :: "checkpoint_row \<Rightarrow> source_checkpoint" where
  "to_source_checkpoint r =
     \<lparr>sc_processed_block = ck_processed_block r, sc_processed_block_hash = ck_processed_block_hash r,
      sc_finalized_block = ck_finalized_block r\<rparr>"

definition checkpoint_for_source :: "uuid \<Rightarrow> source_checkpoint option db_prog" where
  "checkpoint_for_source sid =
     seq (checkpoint_row_for_source sid) (\<lambda>r. ret (map_option to_source_checkpoint r))"

definition enqueue_range_job :: "new_range_job \<Rightarrow> enqueue_result db_prog" where
  "enqueue_range_job job =
     seq (new_job_new (nj_job_type job) (nj_chain_id job) (nj_idempotency_key job)) (\<lambda>j.
     seq (enqueue (with_max_attempts (nj_max_attempts job)
            (with_range (nj_from_block job) (nj_to_block job) (with_source (nj_source_id job) j)))) (\<lambda>result.
       ret (case result of EnqInserted _ \<Rightarrow> Inserted | EnqExisting _ \<Rightarrow> Existing)))"

definition postgres_backfill_repository :: "db backfill_repository" where
  "postgres_backfill_repository =
     \<lparr>bf_checkpoint_for_source = checkpoint_for_source, bf_enqueue_range_job = enqueue_range_job\<rparr>"

end
