(* ===== verification/Ledger_Write.thy ===== *)
theory Ledger_Write
  imports Job_Queue
begin

text \<open>
  The writes of the ledger (src/infra/postgres/ledger_repository.rs): chains and sources, the
  upserts of events, entries and receipts, the balances they maintain, and the orphaning of a
  range. A statement that violates a constraint is an error, and the transaction around it rolls
  back.
\<close>

section \<open>Conversions\<close>

definition parse_hex_i32 :: "string \<Rightarrow> int result" where
  "parse_hex_i32 value =
     and_then (parse_hex_u64 value) (\<lambda>parsed. ok_or (HexTooLarge value) (i32_try_from_u64 parsed))"

definition parse_optional_hex_i32 :: "string option \<Rightarrow> int option result" where
  "parse_optional_hex_i32 value = transpose (map_option parse_hex_i32 value)"

definition parse_hex_big_decimal :: "crates \<Rightarrow> string \<Rightarrow> int result" where
  "parse_hex_big_decimal c value =
     and_then (strip_0x value) (\<lambda>digits.
       if digits = [] then Err (HexEmpty value)
       else and_then (ok_or (HexParse value) (biguint_parse_hex c digits)) (\<lambda>n. Ok (int n)))"

definition parse_optional_hex_big_decimal :: "crates \<Rightarrow> string option \<Rightarrow> int option result" where
  "parse_optional_hex_big_decimal c value = transpose (map_option (parse_hex_big_decimal c) value)"

definition normalized_topics :: "rpc_log \<Rightarrow> json" where
  "normalized_topics log = JArray (map (\<lambda>t. JString (to_ascii_lowercase t)) (log_topics log))"

definition non_zero_address :: "string \<Rightarrow> string option" where
  "non_zero_address value =
     (let v = to_ascii_lowercase value in if v \<noteq> zero_address then Some v else None)"

definition movement_type :: "string \<Rightarrow> string \<Rightarrow> string" where
  "movement_type from to =
     (case (non_zero_address from \<noteq> None, non_zero_address to \<noteq> None) of
        (False, True) \<Rightarrow> ''mint''
      | (True, False) \<Rightarrow> ''burn''
      | (True, True) \<Rightarrow> ''transfer''
      | (False, False) \<Rightarrow> ''transfer'')"

definition json_option :: "string option \<Rightarrow> json" where
  "json_option x = (case x of None \<Rightarrow> JNull | Some s \<Rightarrow> JString s)"

definition entry_json :: "decoded_entry \<Rightarrow> json" where
  "entry_json e = JObject
     [(''event_name'', JString (de_event_name e)),
      (''token_standard'', JString (standard_as_str (de_standard e))),
      (''operator'', json_option (de_operator e)),
      (''from'', JString (de_from e)), (''to'', JString (de_to e)),
      (''token_id'', JString (de_token_id e)), (''amount'', JString (de_amount e)),
      (''batch_index'', JNumber (de_batch_index e))]"

definition min_optional_block :: "int option \<Rightarrow> int option \<Rightarrow> int option" where
  "min_optional_block current candidate =
     (case (current, candidate) of
        (Some a, Some b) \<Rightarrow> Some (min a b)
      | (Some a, None) \<Rightarrow> Some a
      | (None, Some b) \<Rightarrow> Some b
      | (None, None) \<Rightarrow> None)"

definition max_optional_block :: "int option \<Rightarrow> int option \<Rightarrow> int option" where
  "max_optional_block current candidate =
     (case (current, candidate) of
        (Some a, Some b) \<Rightarrow> Some (max a b)
      | (Some a, None) \<Rightarrow> Some a
      | (None, Some b) \<Rightarrow> Some b
      | (None, None) \<Rightarrow> None)"

section \<open>Chains and sources\<close>

definition ensure_chain :: "string \<Rightarrow> int \<Rightarrow> string \<Rightarrow> int \<Rightarrow> chain_row db_prog" where
  "ensure_chain name chain url confirmations =
     seq connection (\<lambda>_.
     seq next_chain_id (\<lambda>i.
     seq utc_now (\<lambda>now d.
       let others = filter (\<lambda>r. ch_chain_id r \<noteq> chain) (db_chains d) in
       if name \<in> ch_name ` set others then (Err (UniqueViolation ''chains''), d)
       else (case List.find (\<lambda>r. ch_chain_id r = chain) (db_chains d) of
          Some r \<Rightarrow>
            (let f = (\<lambda>r. r\<lparr>ch_name := name, ch_rpc_url := url, ch_finality_confirmations := confirmations\<rparr>)
             in (Ok (f r), d\<lparr>db_chains := update_rows (\<lambda>r. ch_chain_id r = chain) f (db_chains d)\<rparr>))
        | None \<Rightarrow>
            if i \<in> ch_id ` set (db_chains d) then (Err (UniqueViolation ''chains''), d)
            else (let r = \<lparr>ch_id = i, ch_name = name, ch_chain_id = chain, ch_rpc_url = url,
                           ch_finality_confirmations = confirmations, ch_created_at = now\<rparr>
                  in (Ok r, d\<lparr>db_chains := db_chains d @ [r]\<rparr>))))))"

definition chain_by_chain_id :: "int \<Rightarrow> chain_row option db_prog" where
  "chain_by_chain_id chain =
     seq connection (\<lambda>_. reads (\<lambda>d. List.find (\<lambda>r. ch_chain_id r = chain) (db_chains d)))"

definition ensure_source :: "int \<Rightarrow> string \<Rightarrow> string \<Rightarrow> standard \<Rightarrow> int \<Rightarrow> source_row db_prog" where
  "ensure_source chain name contract standard start =
     (if standard_is_auto standard then throw StandardNotDetected
      else
        seq connection (\<lambda>_.
        seq new_uuid (\<lambda>i.
        seq utc_now (\<lambda>now d.
          let row = \<lparr>so_id = i, so_chain_id = chain, so_name = name,
                     so_contract_address = to_ascii_lowercase contract,
                     so_token_standard = standard_as_str standard, so_start_block = start,
                     so_enabled = True, so_created_at = now\<rparr>;
              f = (\<lambda>r. r\<lparr>so_name := name, so_token_standard := standard_as_str standard,
                         so_start_block := start, so_enabled := True\<rparr>)
          in if \<not> source_check row then (Err (CheckViolation ''sources''), d)
             else (case List.find (\<lambda>r. source_key r = source_key row) (db_sources d) of
                Some r \<Rightarrow>
                  (Ok (f r), d\<lparr>db_sources := update_rows (\<lambda>r. source_key r = source_key row) f (db_sources d)\<rparr>)
              | None \<Rightarrow>
                  if has_source d i then (Err (UniqueViolation ''sources''), d)
                  else if chain \<notin> ch_chain_id ` set (db_chains d) then (Err (ForeignKeyViolation ''sources''), d)
                  else (Ok row, d\<lparr>db_sources := db_sources d @ [row]\<rparr>))))))"

definition source_by_contract_conn :: "int \<Rightarrow> string \<Rightarrow> source_row option db_prog" where
  "source_by_contract_conn chain contract =
     reads (\<lambda>d. List.find (\<lambda>r. source_key r = (chain, to_ascii_lowercase contract)) (db_sources d))"

definition source_by_contract :: "int \<Rightarrow> string \<Rightarrow> source_row option db_prog" where
  "source_by_contract chain contract = seq connection (\<lambda>_. source_by_contract_conn chain contract)"

definition source_by_id :: "uuid \<Rightarrow> source_row option db_prog" where
  "source_by_id sid = seq connection (\<lambda>_. reads (\<lambda>d. List.find (\<lambda>r. so_id r = sid) (db_sources d)))"

definition source_ref_of :: "source_row \<Rightarrow> source_ref" where
  "source_ref_of r = \<lparr>sr_id = so_id r, sr_chain_id = so_chain_id r,
     sr_contract_address = so_contract_address r, sr_token_standard = so_token_standard r\<rparr>"

definition lock_source_for_write_conn :: "source_ref \<Rightarrow> unit db_prog" where
  "lock_source_for_write_conn source =
     seq (reads (\<lambda>d. has_source d (sr_id source))) (\<lambda>found. lift (ensure found RowNotFound))"

section \<open>Events\<close>

definition new_event_row :: "source_ref \<Rightarrow> rpc_log \<Rightarrow> decoded_log \<Rightarrow> uuid \<Rightarrow> int \<Rightarrow> event_row result" where
  "new_event_row source log decoded i now =
     and_then (parse_hex_u64 (log_block_number log)) (\<lambda>block.
     and_then (parse_optional_hex_i32 (log_transaction_index log)) (\<lambda>tx_index.
     and_then (parse_hex_u64 (log_log_index log)) (\<lambda>index.
       Ok \<lparr>ev_id = i, ev_source_id = sr_id source, ev_chain_id = sr_chain_id source,
           ev_block_number = u64_as_i64 block, ev_block_timestamp = log_block_timestamp log,
           ev_block_hash = to_ascii_lowercase (log_block_hash log),
           ev_transaction_hash = to_ascii_lowercase (log_transaction_hash log),
           ev_transaction_index = tx_index, ev_log_index = u64_as_i32 index,
           ev_contract_address = to_ascii_lowercase (log_address log),
           ev_event_name = dl_event_name decoded, ev_topics = normalized_topics log,
           ev_data = to_ascii_lowercase (log_data log),
           ev_args = JObject [(''entries'', JArray (map entry_json (dl_entries decoded)))],
           ev_finalized = True, ev_orphaned = False, ev_inserted_at = now\<rparr>)))"

definition excluded_event :: "event_row \<Rightarrow> event_row \<Rightarrow> event_row" where
  "excluded_event new r =
     r\<lparr>ev_block_timestamp := ev_block_timestamp new, ev_block_hash := ev_block_hash new,
       ev_transaction_index := ev_transaction_index new, ev_contract_address := ev_contract_address new,
       ev_event_name := ev_event_name new, ev_topics := ev_topics new, ev_data := ev_data new,
       ev_args := ev_args new, ev_finalized := True\<rparr>"

definition insert_event_conflict :: "event_row \<Rightarrow> event_row db_prog" where
  "insert_event_conflict row = (\<lambda>d.
     if \<not> event_check row then (Err (CheckViolation ''events''), d)
     else (case List.find (\<lambda>r. event_key r = event_key row) (db_events d) of
        Some r \<Rightarrow>
          (Ok (excluded_event row r),
           d\<lparr>db_events := update_rows (\<lambda>r. event_key r = event_key row) (excluded_event row) (db_events d)\<rparr>)
      | None \<Rightarrow>
          if ev_id row \<in> ev_id ` set (db_events d) then (Err (UniqueViolation ''events''), d)
          else if \<not> has_source d (ev_source_id row) then (Err (ForeignKeyViolation ''events''), d)
          else (Ok row, d\<lparr>db_events := db_events d @ [row]\<rparr>)))"

definition restore_event :: "uuid \<Rightarrow> unit db_prog" where
  "restore_event i =
     writes (\<lambda>d. d\<lparr>db_events := update_rows (\<lambda>r. ev_id r = i) (\<lambda>r. r\<lparr>ev_orphaned := False\<rparr>) (db_events d)\<rparr>)"

definition upsert_event :: "source_ref \<Rightarrow> rpc_log \<Rightarrow> decoded_log \<Rightarrow> persist_options \<Rightarrow> uuid db_prog" where
  "upsert_event source log decoded options =
     seq new_uuid (\<lambda>i.
     seq utc_now (\<lambda>now.
     seq (lift (new_event_row source log decoded i now)) (\<lambda>values.
     seq (insert_event_conflict values) (\<lambda>row.
     seq (run_if (restore_orphaned_conflicts options \<and> ev_orphaned row) (restore_event (ev_id row))) (\<lambda>_.
       ret (ev_id row))))))"

section \<open>Ledger entries\<close>

definition log_entry_key :: "source_ref \<Rightarrow> rpc_log \<Rightarrow> int \<Rightarrow> (int \<times> string \<times> int \<times> int) result" where
  "log_entry_key source log batch =
     and_then (parse_hex_u64 (log_log_index log)) (\<lambda>index.
       Ok (sr_chain_id source, to_ascii_lowercase (log_transaction_hash log), u64_as_i32 index, batch))"

definition lock_existing_ledger_entry :: "source_ref \<Rightarrow> rpc_log \<Rightarrow> int \<Rightarrow> ledger_row option db_prog" where
  "lock_existing_ledger_entry source log batch =
     seq (lift (log_entry_key source log batch)) (\<lambda>key.
       reads (\<lambda>d. List.find (\<lambda>r. entry_key r = key) (db_entries d)))"

definition new_ledger_row ::
  "crates \<Rightarrow> source_ref \<Rightarrow> rpc_log \<Rightarrow> uuid \<Rightarrow> decoded_entry \<Rightarrow> uuid \<Rightarrow> int \<Rightarrow> ledger_row result"
where
  "new_ledger_row c source log event_id entry i now =
     and_then (ok_or (AmountParse (de_amount entry)) (bigdecimal_parse c (de_amount entry))) (\<lambda>amount.
     and_then (parse_hex_u64 (log_block_number log)) (\<lambda>block.
     and_then (parse_optional_hex_i32 (log_transaction_index log)) (\<lambda>tx_index.
     and_then (parse_hex_u64 (log_log_index log)) (\<lambda>index.
       Ok \<lparr>le_id = i, le_event_id = event_id, le_source_id = sr_id source, le_chain_id = sr_chain_id source,
           le_contract_address = to_ascii_lowercase (log_address log),
           le_token_standard = standard_as_str (de_standard entry),
           le_movement_type = movement_type (de_from entry) (de_to entry),
           le_operator_address = map_option to_ascii_lowercase (de_operator entry),
           le_from_address = non_zero_address (de_from entry),
           le_to_address = non_zero_address (de_to entry), le_token_id = de_token_id entry,
           le_amount = amount, le_batch_index = de_batch_index entry,
           le_block_number = u64_as_i64 block, le_block_timestamp = log_block_timestamp log,
           le_block_hash = to_ascii_lowercase (log_block_hash log),
           le_transaction_hash = to_ascii_lowercase (log_transaction_hash log),
           le_transaction_index = tx_index, le_log_index = u64_as_i32 index,
           le_orphaned = False, le_inserted_at = now\<rparr>))))"

definition excluded_entry :: "ledger_row \<Rightarrow> ledger_row \<Rightarrow> ledger_row" where
  "excluded_entry new r =
     r\<lparr>le_amount := le_amount new, le_block_timestamp := le_block_timestamp new,
       le_block_hash := le_block_hash new, le_transaction_index := le_transaction_index new\<rparr>"

definition insert_entry_conflict :: "ledger_row \<Rightarrow> ledger_row db_prog" where
  "insert_entry_conflict row = (\<lambda>d.
     if \<not> numeric_78 (le_amount row) then (Err NumericOverflow, d)
     else if \<not> entry_check row then (Err (CheckViolation ''ledger_entries''), d)
     else (case List.find (\<lambda>r. entry_key r = entry_key row) (db_entries d) of
        Some r \<Rightarrow>
          (Ok (excluded_entry row r),
           d\<lparr>db_entries := update_rows (\<lambda>r. entry_key r = entry_key row) (excluded_entry row) (db_entries d)\<rparr>)
      | None \<Rightarrow>
          if le_id row \<in> le_id ` set (db_entries d) then (Err (UniqueViolation ''ledger_entries''), d)
          else if \<not> has_source d (le_source_id row) \<or> le_event_id row \<notin> ev_id ` set (db_events d)
          then (Err (ForeignKeyViolation ''ledger_entries''), d)
          else (Ok row, d\<lparr>db_entries := db_entries d @ [row]\<rparr>)))"

definition restore_entry :: "ledger_row \<Rightarrow> ledger_row db_prog" where
  "restore_entry row =
     seq (writes (\<lambda>d. d\<lparr>db_entries := update_rows (\<lambda>r. le_id r = le_id row) (\<lambda>r. r\<lparr>le_orphaned := False\<rparr>)
       (db_entries d)\<rparr>)) (\<lambda>_. ret (row\<lparr>le_orphaned := False\<rparr>))"

definition upsert_ledger_entry ::
  "crates \<Rightarrow> source_ref \<Rightarrow> rpc_log \<Rightarrow> uuid \<Rightarrow> decoded_entry \<Rightarrow> persist_options \<Rightarrow> ledger_row db_prog"
where
  "upsert_ledger_entry c source log event_id entry options =
     seq new_uuid (\<lambda>i.
     seq utc_now (\<lambda>now.
     seq (lift (new_ledger_row c source log event_id entry i now)) (\<lambda>values.
     seq (insert_entry_conflict values) (\<lambda>row.
       if restore_orphaned_conflicts options \<and> le_orphaned row then restore_entry row else ret row))))"

section \<open>Balances\<close>

record balance_delta =
  bd_amount :: int
  bd_first_received_block :: "int option"
  bd_last_moved_block :: "int option"

definition default_delta :: balance_delta where
  "default_delta = \<lparr>bd_amount = 0, bd_first_received_block = None, bd_last_moved_block = None\<rparr>"

type_synonym deltas = "((string \<times> string) \<times> balance_delta) list"

text \<open>\<open>deltas.entry(key).or_default()\<close> followed by the change of the entry.\<close>

fun change_delta :: "string \<times> string \<Rightarrow> (balance_delta \<Rightarrow> balance_delta) \<Rightarrow> deltas \<Rightarrow> deltas" where
  "change_delta k f [] = [(k, f default_delta)]"
| "change_delta k f ((k', b) # ds) = (if k' = k then (k, f b) # ds else (k', b) # change_delta k f ds)"

definition collect_balance_delta :: "deltas \<Rightarrow> ledger_row \<Rightarrow> bool \<Rightarrow> deltas" where
  "collect_balance_delta deltas row reversed =
     (let amount = (if reversed then - le_amount row else le_amount row);
          after_from =
            (case le_from_address row of
               None \<Rightarrow> deltas
             | Some from \<Rightarrow> change_delta (from, le_token_id row) (\<lambda>b.
                 let b = b\<lparr>bd_amount := bd_amount b - amount\<rparr>
                 in if reversed then b
                    else b\<lparr>bd_last_moved_block := max_optional_block (bd_last_moved_block b) (Some (le_block_number row))\<rparr>)
                 deltas)
      in (case le_to_address row of
            None \<Rightarrow> after_from
          | Some to \<Rightarrow> change_delta (to, le_token_id row) (\<lambda>b.
              let b = b\<lparr>bd_amount := bd_amount b + amount\<rparr>
              in if reversed then b
                 else b\<lparr>bd_first_received_block := min_optional_block (bd_first_received_block b) (Some (le_block_number row)),
                        bd_last_moved_block := max_optional_block (bd_last_moved_block b) (Some (le_block_number row))\<rparr>)
              after_from))"

definition collect_deltas :: "ledger_row option \<Rightarrow> ledger_row \<Rightarrow> deltas" where
  "collect_deltas previous current =
     (let reversed = (case previous of
            Some p \<Rightarrow> if \<not> le_orphaned p then collect_balance_delta [] p True else []
          | None \<Rightarrow> [])
      in if \<not> le_orphaned current then collect_balance_delta reversed current False else reversed)"

definition delta_order :: "(string \<times> string) \<times> balance_delta \<Rightarrow> (string \<times> string) \<times> balance_delta \<Rightarrow> bool" where
  "delta_order a b \<longleftrightarrow>
     fst (fst a) < fst (fst b) \<or> fst (fst a) = fst (fst b) \<and> snd (fst a) \<le> snd (fst b)"

definition balance_update :: "int \<Rightarrow> balance_delta \<Rightarrow> int \<Rightarrow> balance_row \<Rightarrow> balance_row" where
  "balance_update next delta now r =
     r\<lparr>ba_balance := next,
       ba_first_received_block := min_optional_block (ba_first_received_block r) (bd_first_received_block delta),
       ba_last_moved_block := max_optional_block (ba_last_moved_block r) (bd_last_moved_block delta),
       ba_updated_at := now\<rparr>"

definition update_balance :: "uuid \<Rightarrow> (balance_row \<Rightarrow> balance_row) \<Rightarrow> unit db_prog" where
  "update_balance i f = (\<lambda>d.
     if \<not> list_all (\<lambda>r. ba_id r = i \<longrightarrow> numeric_78 (ba_balance (f r))) (db_balances d)
     then (Err NumericOverflow, d)
     else if \<not> list_all (\<lambda>r. ba_id r = i \<longrightarrow> balance_check (f r)) (db_balances d)
     then (Err (CheckViolation ''token_balances''), d)
     else (Ok (), d\<lparr>db_balances := update_rows (\<lambda>r. ba_id r = i) f (db_balances d)\<rparr>))"

definition insert_balance :: "balance_row \<Rightarrow> unit db_prog" where
  "insert_balance row = (\<lambda>d.
     if \<not> numeric_78 (ba_balance row) then (Err NumericOverflow, d)
     else if \<not> balance_check row then (Err (CheckViolation ''token_balances''), d)
     else if ba_id row \<in> ba_id ` set (db_balances d) \<or> balance_key row \<in> balance_key ` set (db_balances d)
     then (Err (UniqueViolation ''token_balances''), d)
     else if \<not> has_source d (ba_source_id row) then (Err (ForeignKeyViolation ''token_balances''), d)
     else (Ok (), d\<lparr>db_balances := db_balances d @ [row]\<rparr>))"

definition apply_holder_balance_delta ::
  "source_ref \<Rightarrow> string \<Rightarrow> string \<Rightarrow> balance_delta \<Rightarrow> unit db_prog"
where
  "apply_holder_balance_delta source holder token delta =
     seq (reads (\<lambda>d. List.find (\<lambda>r. balance_key r = (sr_id source, holder, token)) (db_balances d))) (\<lambda>existing.
     let current = (case existing of None \<Rightarrow> 0 | Some r \<Rightarrow> ba_balance r);
         next = current + bd_amount delta
     in if next < 0 then throw (NegativeBalance holder token)
        else (case existing of
            Some r \<Rightarrow>
              seq utc_now (\<lambda>now. update_balance (ba_id r) (balance_update next delta now))
          | None \<Rightarrow>
              if next = 0 then ret ()
              else
                seq new_uuid (\<lambda>i.
                seq utc_now (\<lambda>now.
                  insert_balance \<lparr>ba_id = i, ba_source_id = sr_id source, ba_chain_id = sr_chain_id source,
                    ba_contract_address = sr_contract_address source,
                    ba_token_standard = sr_token_standard source, ba_holder_address = holder,
                    ba_token_id = token, ba_balance = next,
                    ba_first_received_block = bd_first_received_block delta,
                    ba_last_moved_block = bd_last_moved_block delta, ba_updated_at = now\<rparr>))))"

definition apply_balance_delta :: "source_ref \<Rightarrow> ledger_row option \<Rightarrow> ledger_row \<Rightarrow> unit db_prog" where
  "apply_balance_delta source previous current =
     each (\<lambda>((holder, token), delta). apply_holder_balance_delta source holder token delta)
       (sort_by delta_order (collect_deltas previous current))"

section \<open>Counts\<close>

definition holder_count_conn :: "uuid \<Rightarrow> int db_prog" where
  "holder_count_conn sid =
     reads (\<lambda>d. int (count_rows (\<lambda>r. ba_source_id r = sid \<and> 0 < ba_balance r) (db_balances d)))"

definition live_mint :: "uuid \<Rightarrow> ledger_row \<Rightarrow> bool" where
  "live_mint sid r \<longleftrightarrow> le_source_id r = sid \<and> le_movement_type r = ''mint'' \<and> \<not> le_orphaned r \<and> le_to_address r \<noteq> None"

definition minter_count_conn :: "uuid \<Rightarrow> int db_prog" where
  "minter_count_conn sid =
     reads (\<lambda>d. int (length (remdups (map le_to_address (filter (live_mint sid) (db_entries d))))))"

definition top_holders_conn :: "uuid \<Rightarrow> int \<Rightarrow> balance_row list db_prog" where
  "top_holders_conn sid limit =
     reads (\<lambda>d. take (nat limit) (sort_by (\<lambda>a b. ba_balance b \<le> ba_balance a)
       (filter (\<lambda>r. ba_source_id r = sid \<and> 0 < ba_balance r) (db_balances d))))"

definition balance_string :: "crates \<Rightarrow> int \<Rightarrow> string" where
  "balance_string c balance = normalized_display c balance"

definition to_balance_snapshot :: "crates \<Rightarrow> balance_row \<Rightarrow> token_balance_snapshot" where
  "to_balance_snapshot c r =
     \<lparr>tbs_holder_address = ba_holder_address r, tbs_token_id = ba_token_id r,
      tbs_balance = balance_string c (ba_balance r),
      tbs_first_received_block = ba_first_received_block r, tbs_last_moved_block = ba_last_moved_block r\<rparr>"

section \<open>Persisting decoded logs\<close>

definition persist_entry ::
  "crates \<Rightarrow> source_ref \<Rightarrow> rpc_log \<Rightarrow> uuid \<Rightarrow> persist_options \<Rightarrow> decoded_entry \<Rightarrow> unit db_prog"
where
  "persist_entry c source log event_id options entry =
     seq (lock_existing_ledger_entry source log (de_batch_index entry)) (\<lambda>previous.
     if (case previous of None \<Rightarrow> False | Some r \<Rightarrow> le_source_id r \<noteq> sr_id source)
     then throw (ForeignLedgerEntry (log_transaction_hash log))
     else
       seq (upsert_ledger_entry c source log event_id entry options) (\<lambda>current.
         apply_balance_delta source previous current))"

definition persist_log :: "crates \<Rightarrow> source_ref \<Rightarrow> persist_options \<Rightarrow> rpc_log \<times> decoded_log \<Rightarrow> unit db_prog" where
  "persist_log c source options ld =
     seq (upsert_event source (fst ld) (snd ld) options) (\<lambda>event_id.
       each (persist_entry c source (fst ld) event_id options) (dl_entries (snd ld)))"

text \<open>The loop counts one event per log and one ledger entry per decoded entry.\<close>

definition persist_decoded_logs_with_options ::
  "crates \<Rightarrow> source_ref \<Rightarrow> (rpc_log \<times> decoded_log) list \<Rightarrow> persist_options \<Rightarrow> scan_summary db_prog"
where
  "persist_decoded_logs_with_options c source logs options =
     seq connection (\<lambda>_. pg_transaction (
       seq (lock_source_for_write_conn source) (\<lambda>_.
       seq (each (persist_log c source options) logs) (\<lambda>_.
       seq (holder_count_conn (sr_id source)) (\<lambda>holders.
       seq (minter_count_conn (sr_id source)) (\<lambda>minters.
       seq (top_holders_conn (sr_id source) 10) (\<lambda>top.
         ret \<lparr>ss_source_id = sr_id source, ss_events_seen = length logs,
              ss_events_persisted = length logs,
              ss_ledger_entries_persisted = sum_list (map (\<lambda>ld. length (dl_entries (snd ld))) logs),
              ss_transaction_receipts_persisted = 0, ss_holder_count = holders, ss_minter_count = minters,
              ss_top_holders = map (to_balance_snapshot c) top\<rparr>)))))))"

definition persist_decoded_logs ::
  "crates \<Rightarrow> source_ref \<Rightarrow> (rpc_log \<times> decoded_log) list \<Rightarrow> scan_summary db_prog"
where
  "persist_decoded_logs c source logs =
     persist_decoded_logs_with_options c source logs \<lparr>restore_orphaned_conflicts = False\<rparr>"

section \<open>Transaction receipts\<close>

definition new_receipt_row :: "crates \<Rightarrow> int \<Rightarrow> transaction_receipt \<Rightarrow> uuid \<Rightarrow> int \<Rightarrow> receipt_row result" where
  "new_receipt_row c chain receipt i now =
     and_then (parse_hex_u64 (tr_block_number receipt)) (\<lambda>block.
     and_then (parse_hex_i32 (tr_transaction_index receipt)) (\<lambda>tx_index.
     and_then (parse_optional_hex_i32 (tr_status receipt)) (\<lambda>status.
     and_then (parse_hex_big_decimal c (tr_gas_used receipt)) (\<lambda>gas.
     and_then (parse_hex_big_decimal c (tr_cumulative_gas_used receipt)) (\<lambda>total.
     and_then (parse_optional_hex_big_decimal c (tr_effective_gas_price receipt)) (\<lambda>price.
       Ok \<lparr>rc_id = i, rc_chain_id = chain,
           rc_transaction_hash = to_ascii_lowercase (tr_transaction_hash receipt),
           rc_block_number = u64_as_i64 block, rc_block_hash = to_ascii_lowercase (tr_block_hash receipt),
           rc_transaction_index = Some tx_index, rc_from_address = to_ascii_lowercase (tr_from receipt),
           rc_to_address = map_option to_ascii_lowercase (tr_to receipt),
           rc_contract_address = map_option to_ascii_lowercase (tr_contract_address receipt),
           rc_status = status, rc_gas_used = gas, rc_cumulative_gas_used = total,
           rc_effective_gas_price = price,
           rc_transaction_type = map_option to_ascii_lowercase (tr_transaction_type receipt),
           rc_raw_receipt = tr_raw receipt, rc_inserted_at = now, rc_updated_at = now\<rparr>))))))"

definition excluded_receipt :: "receipt_row \<Rightarrow> int \<Rightarrow> receipt_row \<Rightarrow> receipt_row" where
  "excluded_receipt new now r = new\<lparr>rc_id := rc_id r, rc_chain_id := rc_chain_id r,
     rc_transaction_hash := rc_transaction_hash r, rc_inserted_at := rc_inserted_at r, rc_updated_at := now\<rparr>"

definition receipt_numeric :: "receipt_row \<Rightarrow> bool" where
  "receipt_numeric r \<longleftrightarrow> numeric_78 (rc_gas_used r) \<and> numeric_78 (rc_cumulative_gas_used r)
     \<and> (case rc_effective_gas_price r of None \<Rightarrow> True | Some p \<Rightarrow> numeric_78 p)"

definition upsert_transaction_receipt :: "crates \<Rightarrow> int \<Rightarrow> transaction_receipt \<Rightarrow> uuid db_prog" where
  "upsert_transaction_receipt c chain receipt =
     seq new_uuid (\<lambda>i.
     seq utc_now (\<lambda>now.
     seq (lift (new_receipt_row c chain receipt i now)) (\<lambda>row.
     seq utc_now (\<lambda>later d.
       if \<not> receipt_numeric row then (Err NumericOverflow, d)
       else if \<not> receipt_check row then (Err (CheckViolation ''transaction_receipts''), d)
       else (case List.find (\<lambda>r. receipt_key r = receipt_key row) (db_receipts d) of
          Some r \<Rightarrow>
            (Ok (rc_id r), d\<lparr>db_receipts :=
               update_rows (\<lambda>r. receipt_key r = receipt_key row) (excluded_receipt row later) (db_receipts d)\<rparr>)
        | None \<Rightarrow>
            if i \<in> rc_id ` set (db_receipts d) then (Err (UniqueViolation ''transaction_receipts''), d)
            else (Ok i, d\<lparr>db_receipts := db_receipts d @ [row]\<rparr>))))))"

definition persist_transaction_receipts :: "crates \<Rightarrow> int \<Rightarrow> transaction_receipt list \<Rightarrow> nat db_prog" where
  "persist_transaction_receipts c chain receipts =
     seq connection (\<lambda>_. pg_transaction (
       seq (each (\<lambda>r. seq (upsert_transaction_receipt c chain r) (\<lambda>_. ret ())) receipts) (\<lambda>_.
         ret (length receipts))))"

definition postgres_ingest_repository :: "crates \<Rightarrow> db ledger_ingest_repository" where
  "postgres_ingest_repository c =
     \<lparr>li_persist_decoded_logs = persist_decoded_logs_with_options c,
      li_persist_transaction_receipts = persist_transaction_receipts c\<rparr>"

section \<open>Orphaning a range\<close>

record orphan_summary =
  os_events_orphaned :: nat
  os_ledger_entries_orphaned :: nat

definition live_entry_in :: "uuid \<Rightarrow> int \<Rightarrow> int \<Rightarrow> ledger_row \<Rightarrow> bool" where
  "live_entry_in sid from to r \<longleftrightarrow>
     le_source_id r = sid \<and> from \<le> le_block_number r \<and> le_block_number r \<le> to \<and> \<not> le_orphaned r"

definition live_event_in :: "uuid \<Rightarrow> int \<Rightarrow> int \<Rightarrow> event_row \<Rightarrow> bool" where
  "live_event_in sid from to r \<longleftrightarrow>
     ev_source_id r = sid \<and> from \<le> ev_block_number r \<and> ev_block_number r \<le> to \<and> \<not> ev_orphaned r"

definition entry_position :: "ledger_row \<Rightarrow> int \<times> int \<times> int" where
  "entry_position r = (le_block_number r, le_log_index r, le_batch_index r)"

definition position_le :: "int \<times> int \<times> int \<Rightarrow> int \<times> int \<times> int \<Rightarrow> bool" where
  "position_le p q \<longleftrightarrow>
     (case (p, q) of ((a, b, c), (a', b', c')) \<Rightarrow>
        a < a' \<or> a = a' \<and> b < b' \<or> a = a' \<and> b = b' \<and> c \<le> c')"

definition reverse_entry :: "source_ref \<Rightarrow> ledger_row \<Rightarrow> unit db_prog" where
  "reverse_entry source row = apply_balance_delta source (Some row) (row\<lparr>le_orphaned := True\<rparr>)"

definition orphan_source_range :: "source_row \<Rightarrow> int \<Rightarrow> int \<Rightarrow> orphan_summary db_prog" where
  "orphan_source_range source from to =
     (if from < 0 \<or> to < 0 then throw (CannotBeNegative ''orphan range'')
      else if from > to then throw (InvertedSignedRange from to)
      else
        seq connection (\<lambda>_. pg_transaction (
          seq (lock_source_for_write_conn (source_ref_of source)) (\<lambda>_.
          seq (reads (\<lambda>d. sort_by (\<lambda>a b. position_le (entry_position a) (entry_position b))
                 (filter (live_entry_in (so_id source) from to) (db_entries d)))) (\<lambda>rows.
          seq (each (reverse_entry (source_ref_of source)) rows) (\<lambda>_.
          seq (reads (\<lambda>d. count_rows (live_entry_in (so_id source) from to) (db_entries d))) (\<lambda>entries.
          seq (writes (\<lambda>d. d\<lparr>db_entries := update_rows (live_entry_in (so_id source) from to)
                 (\<lambda>r. r\<lparr>le_orphaned := True\<rparr>) (db_entries d)\<rparr>)) (\<lambda>_.
          seq (reads (\<lambda>d. count_rows (live_event_in (so_id source) from to) (db_events d))) (\<lambda>events.
          seq (writes (\<lambda>d. d\<lparr>db_events := update_rows (live_event_in (so_id source) from to)
                 (\<lambda>r. r\<lparr>ev_orphaned := True\<rparr>) (db_events d)\<rparr>)) (\<lambda>_.
            ret \<lparr>os_events_orphaned = events, os_ledger_entries_orphaned = entries\<rparr>))))))))))"

section \<open>Log metadata\<close>

record metadata_update =
  mu_events_updated :: nat
  mu_ledger_entries_updated :: nat

definition event_of_log :: "source_row \<Rightarrow> string \<Rightarrow> int \<Rightarrow> event_row \<Rightarrow> bool" where
  "event_of_log source hash index r \<longleftrightarrow>
     ev_source_id r = so_id source \<and> ev_chain_id r = so_chain_id source
     \<and> ev_transaction_hash r = hash \<and> ev_log_index r = index"

definition entry_of_log :: "source_row \<Rightarrow> string \<Rightarrow> int \<Rightarrow> ledger_row \<Rightarrow> bool" where
  "entry_of_log source hash index r \<longleftrightarrow>
     le_source_id r = so_id source \<and> le_chain_id r = so_chain_id source
     \<and> le_transaction_hash r = hash \<and> le_log_index r = index"

definition update_checked_events :: "(event_row \<Rightarrow> bool) \<Rightarrow> (event_row \<Rightarrow> event_row) \<Rightarrow> nat db_prog" where
  "update_checked_events P f = (\<lambda>d.
     if list_all (\<lambda>r. P r \<longrightarrow> event_check (f r)) (db_events d)
     then (Ok (count_rows P (db_events d)), d\<lparr>db_events := update_rows P f (db_events d)\<rparr>)
     else (Err (CheckViolation ''events''), d))"

definition update_checked_entries :: "(ledger_row \<Rightarrow> bool) \<Rightarrow> (ledger_row \<Rightarrow> ledger_row) \<Rightarrow> nat db_prog" where
  "update_checked_entries P f = (\<lambda>d.
     if list_all (\<lambda>r. P r \<longrightarrow> entry_check (f r)) (db_entries d)
     then (Ok (count_rows P (db_entries d)), d\<lparr>db_entries := update_rows P f (db_entries d)\<rparr>)
     else (Err (CheckViolation ''ledger_entries''), d))"

definition event_metadata :: "rpc_log \<Rightarrow> int \<Rightarrow> int option \<Rightarrow> event_row \<Rightarrow> event_row" where
  "event_metadata log block tx_index r =
     r\<lparr>ev_block_number := block, ev_block_timestamp := log_block_timestamp log,
       ev_block_hash := to_ascii_lowercase (log_block_hash log), ev_transaction_index := tx_index,
       ev_contract_address := to_ascii_lowercase (log_address log),
       ev_topics := normalized_topics log, ev_data := to_ascii_lowercase (log_data log)\<rparr>"

definition entry_metadata :: "rpc_log \<Rightarrow> int \<Rightarrow> int option \<Rightarrow> ledger_row \<Rightarrow> ledger_row" where
  "entry_metadata log block tx_index r =
     r\<lparr>le_block_number := block, le_block_timestamp := log_block_timestamp log,
       le_block_hash := to_ascii_lowercase (log_block_hash log), le_transaction_index := tx_index\<rparr>"

definition update_log_metadata :: "source_row \<Rightarrow> rpc_log \<Rightarrow> metadata_update db_prog" where
  "update_log_metadata source log =
     seq connection (\<lambda>_. pg_transaction (
       let hash = to_ascii_lowercase (log_transaction_hash log) in
       seq (lift (parse_hex_u64 (log_log_index log))) (\<lambda>index.
       seq (lift (parse_hex_u64 (log_block_number log))) (\<lambda>block.
       seq (lift (parse_optional_hex_i32 (log_transaction_index log))) (\<lambda>tx_index.
       seq (update_checked_events (event_of_log source hash (u64_as_i32 index))
              (event_metadata log (u64_as_i64 block) tx_index)) (\<lambda>events.
       seq (update_checked_entries (entry_of_log source hash (u64_as_i32 index))
              (entry_metadata log (u64_as_i64 block) tx_index)) (\<lambda>entries.
         ret \<lparr>mu_events_updated = events, mu_ledger_entries_updated = entries\<rparr>)))))))"

definition event_missing_metadata :: "event_row \<Rightarrow> bool" where
  "event_missing_metadata r \<longleftrightarrow>
     ev_block_timestamp r = None \<or> ev_transaction_index r = None \<or> ev_topics r = JArray []"

definition event_blocks_missing_metadata :: "uuid \<Rightarrow> int \<Rightarrow> int list db_prog" where
  "event_blocks_missing_metadata sid limit =
     seq connection (\<lambda>_. reads (\<lambda>d. take (nat (clamp_int limit 1 10000))
       (btree_set (map ev_block_number (filter (\<lambda>r. ev_source_id r = sid \<and> event_missing_metadata r) (db_events d))))))"

section \<open>Reorg records\<close>

definition record_reorg_event :: "reorg_event_insert \<Rightarrow> reorg_row db_prog" where
  "record_reorg_event e =
     seq connection (\<lambda>_.
     seq new_uuid (\<lambda>i.
     seq utc_now (\<lambda>now d.
       let row = \<lparr>re_id = i, re_source_id = ri_source_id e, re_chain_id = ri_chain_id e,
                  re_from_block = ri_from_block e, re_to_block = ri_to_block e,
                  re_expected_block_hash = map_option to_ascii_lowercase (ri_expected_block_hash e),
                  re_actual_block_hash = map_option to_ascii_lowercase (ri_actual_block_hash e),
                  re_detected_at = now, re_replay_job_id = ri_replay_job_id e, re_mismatches = ri_mismatches e\<rparr>
       in if \<not> reorg_check row then (Err (CheckViolation ''reorg_events''), d)
          else if i \<in> re_id ` set (db_reorgs d) then (Err (UniqueViolation ''reorg_events''), d)
          else if \<not> has_source d (re_source_id row)
               \<or> (case re_replay_job_id row of None \<Rightarrow> False | Some j \<Rightarrow> j \<notin> jr_id ` set (db_jobs d))
          then (Err (ForeignKeyViolation ''reorg_events''), d)
          else (Ok row, d\<lparr>db_reorgs := db_reorgs d @ [row]\<rparr>))))"

definition reorg_events_for_source :: "uuid \<Rightarrow> reorg_row list db_prog" where
  "reorg_events_for_source sid =
     seq connection (\<lambda>_. reads (\<lambda>d.
       sort_by (\<lambda>a b. re_from_block a < re_from_block b
                \<or> re_from_block a = re_from_block b \<and> re_detected_at a \<le> re_detected_at b)
         (filter (\<lambda>r. re_source_id r = sid) (db_reorgs d))))"

definition link_reorg_events_to_replay_job :: "uuid \<Rightarrow> int \<Rightarrow> int \<Rightarrow> uuid \<Rightarrow> nat db_prog" where
  "link_reorg_events_to_replay_job sid from to job =
     seq connection (\<lambda>_ d.
       let P = (\<lambda>r. re_source_id r = sid \<and> from \<le> re_from_block r \<and> re_to_block r \<le> to
                    \<and> re_replay_job_id r = None)
       in if list_ex P (db_reorgs d) \<and> job \<notin> jr_id ` set (db_jobs d)
          then (Err (ForeignKeyViolation ''reorg_events''), d)
          else (Ok (count_rows P (db_reorgs d)),
                d\<lparr>db_reorgs := update_rows P (\<lambda>r. r\<lparr>re_replay_job_id := Some job\<rparr>) (db_reorgs d)\<rparr>))"

definition indexed_block_hashes :: "uuid \<Rightarrow> int \<Rightarrow> int \<Rightarrow> indexed_block_hash list db_prog" where
  "indexed_block_hashes sid from to =
     seq connection (\<lambda>_. reads (\<lambda>d. btree_set (map (\<lambda>r. IndexedBlockHash (ev_block_number r) (ev_block_hash r))
       (filter (live_event_in sid from to) (db_events d)))))"

definition postgres_reorg_repository :: "db reorg_repository" where
  "postgres_reorg_repository =
     \<lparr>ro_indexed_block_hashes = indexed_block_hashes, ro_checkpoint_for_source = checkpoint_for_source,
      ro_record_reorg_event = (\<lambda>e. seq (record_reorg_event e) (\<lambda>_. ret ()))\<rparr>"

end
