(* ===== verification/Job_Laws.thy ===== *)
theory Job_Laws
  imports Job_Queue
begin

text \<open>
  The laws of the job queue: the invariant every operation keeps, what a lease picks and writes,
  and the step relation by which every interleaving of the operations is reached.
\<close>

section \<open>Steps of the environment\<close>

definition env_step :: "db \<Rightarrow> db \<Rightarrow> bool" where
  "env_step d t \<longleftrightarrow> (\<exists>n m. t = d\<lparr>db_env := (db_env d)\<lparr>uuids_used := n, clock_reads := m\<rparr>\<rparr>)"

lemma env_step_refl [simp]: "env_step d d"
  unfolding env_step_def
  by (rule exI [of _ "uuids_used (db_env d)"], rule exI [of _ "clock_reads (db_env d)"]) simp

lemma utc_now_Ok:
  "utc_now d = (r, t) \<longleftrightarrow> r = Ok (clock (db_env d) (clock_reads (db_env d)))
     \<and> t = d\<lparr>db_env := (db_env d)\<lparr>clock_reads := clock_reads (db_env d) + 1\<rparr>\<rparr>"
  by (auto simp: utc_now_def)

lemma new_uuid_Ok:
  "new_uuid d = (r, t) \<longleftrightarrow> r = Ok (uuid_supply (db_env d) (uuids_used (db_env d)))
     \<and> t = d\<lparr>db_env := (db_env d)\<lparr>uuids_used := uuids_used (db_env d) + 1\<rparr>\<rparr>"
  by (auto simp: new_uuid_def)

lemma seq_utc_now [simp]:
  "seq utc_now f d = f (clock (db_env d) (clock_reads (db_env d)))
     (d\<lparr>db_env := (db_env d)\<lparr>clock_reads := clock_reads (db_env d) + 1\<rparr>\<rparr>)"
  by (simp add: seq_apply utc_now_def)

lemma seq_new_uuid [simp]:
  "seq new_uuid f d = f (uuid_supply (db_env d) (uuids_used (db_env d)))
     (d\<lparr>db_env := (db_env d)\<lparr>uuids_used := uuids_used (db_env d) + 1\<rparr>\<rparr>)"
  by (simp add: seq_apply new_uuid_def)

section \<open>The invariant\<close>

definition attempts_of :: "db \<Rightarrow> uuid \<Rightarrow> attempt_row list" where
  "attempts_of d i = filter (\<lambda>a. at_job_id a = i) (db_attempts d)"

definition closed_attempt :: "attempt_row \<Rightarrow> bool" where
  "closed_attempt a \<longleftrightarrow> (at_status a = ''failed'' \<or> at_status a = ''cancelled'') \<and> at_finished_at a \<noteq> None"

definition status_matches :: "string \<Rightarrow> attempt_row \<Rightarrow> bool" where
  "status_matches s a \<longleftrightarrow>
     (if s = ''queued'' then closed_attempt a
      else at_status a = s \<and> (at_finished_at a = None \<longleftrightarrow> s = ''leased'' \<or> s = ''running''))"

definition audit_ok :: "job_row \<Rightarrow> attempt_row list \<Rightarrow> bool" where
  "audit_ok r as \<longleftrightarrow>
     map at_attempt_number as = [1..jr_attempts r]
     \<and> (\<forall>a \<in> set as. if at_attempt_number a = jr_attempts r then status_matches (jr_status r) a
                     else closed_attempt a)"

definition range_unique :: "job_row list \<Rightarrow> bool" where
  "range_unique rows \<longleftrightarrow> distinct (filter (\<lambda>k. k \<noteq> None) (map job_range_key rows))"

definition queue_inv :: "db \<Rightarrow> bool" where
  "queue_inv d \<longleftrightarrow>
     mono (clock (db_env d))
     \<and> unique_key jr_id (db_jobs d) \<and> unique_key jr_idempotency_key (db_jobs d)
     \<and> range_unique (db_jobs d)
     \<and> (\<forall>r \<in> set (db_jobs d). job_check r \<and> in_i32 (jr_attempts r) \<and> audit_ok r (attempts_of d (jr_id r)))
     \<and> (\<forall>a \<in> set (db_attempts d). attempt_check a \<and> at_job_id a \<in> jr_id ` set (db_jobs d))
     \<and> unique_key at_id (db_attempts d)"

lemma queue_inv_env [simp]:
  "mono (clock e) \<Longrightarrow> mono (clock (db_env d)) \<Longrightarrow> queue_inv (d\<lparr>db_env := e\<rparr>) = queue_inv d"
  by (simp add: queue_inv_def attempts_of_def)

lemma queue_inv_clock: "queue_inv d \<Longrightarrow> mono (clock (db_env d))"
  by (simp add: queue_inv_def)

lemma queue_inv_tables:
  "tables t = tables d \<Longrightarrow> clock (db_env t) = clock (db_env d) \<Longrightarrow> queue_inv d \<Longrightarrow> queue_inv t"
  by (simp add: queue_inv_def attempts_of_def tables_eq_iff)

lemma update_job_Ok:
  "update_job i f d = (Ok r, t) \<longleftrightarrow>
     (\<exists>q. List.find (\<lambda>r. jr_id r = i) (db_jobs d) = Some q \<and> job_check (f q) \<and> r = f q
        \<and> t = d\<lparr>db_jobs := update_rows (\<lambda>r. jr_id r = i) f (db_jobs d)\<rparr>)"
  by (auto simp: update_job_def split: option.splits)

definition close_attempt ::
  "job_status \<Rightarrow> int option \<Rightarrow> string option \<Rightarrow> string option \<Rightarrow> attempt_row \<Rightarrow> attempt_row"
where
  "close_attempt status fin cls msg a =
     a\<lparr>at_status := job_status_as_str status, at_finished_at := fin, at_error_class := cls, at_error_message := msg\<rparr>"

definition set_attempt ::
  "uuid \<Rightarrow> int \<Rightarrow> job_status \<Rightarrow> int option \<Rightarrow> string option \<Rightarrow> string option \<Rightarrow> attempt_row list \<Rightarrow> attempt_row list"
where
  "set_attempt i n status fin cls msg rows =
     update_rows (\<lambda>a. at_job_id a = i \<and> at_attempt_number a = n) (close_attempt status fin cls msg) rows"

lemma close_attempt_simps [simp]:
  "at_id (close_attempt st fin cls msg a) = at_id a"
  "at_job_id (close_attempt st fin cls msg a) = at_job_id a"
  "at_attempt_number (close_attempt st fin cls msg a) = at_attempt_number a"
  "at_status (close_attempt st fin cls msg a) = job_status_as_str st"
  "at_finished_at (close_attempt st fin cls msg a) = fin"
  by (simp_all add: close_attempt_def)

lemma env_last: "d\<lparr>db_env := e, db_attempts := x\<rparr> = d\<lparr>db_attempts := x, db_env := e\<rparr>"
  by simp

lemma update_attempt_run:
  "\<exists>c fin e. update_attempt_status i n status cls msg d
       = (Ok c, d\<lparr>db_attempts := set_attempt i n status fin cls msg (db_attempts d), db_env := e\<rparr>)
     \<and> (fin = None \<longleftrightarrow> \<not> status_is_terminal status) \<and> tick d e"
proof (cases "status_is_terminal status")
  case True
  let ?e = "(db_env d)\<lparr>clock_reads := clock_reads (db_env d) + 1\<rparr>"
  have "update_attempt_status i n status cls msg d
      = (Ok (count_rows (\<lambda>a. at_job_id a = i \<and> at_attempt_number a = n) (db_attempts d)),
         d\<lparr>db_attempts := set_attempt i n status (Some (clock (db_env d) (clock_reads (db_env d)))) cls msg (db_attempts d),
           db_env := ?e\<rparr>)"
    using True by (simp add: update_attempt_status_def seq_assoc set_attempt_def close_attempt_def [abs_def] env_last)
  moreover have "tick d ?e" by (simp add: tick_def)
  ultimately show ?thesis using True by blast
next
  case False
  have "update_attempt_status i n status cls msg d
      = (Ok (count_rows (\<lambda>a. at_job_id a = i \<and> at_attempt_number a = n) (db_attempts d)),
         d\<lparr>db_attempts := set_attempt i n status None cls msg (db_attempts d), db_env := db_env d\<rparr>)"
    using False by (simp add: update_attempt_status_def set_attempt_def close_attempt_def [abs_def])
  moreover have "tick d (db_env d)" by (simp add: tick_def)
  ultimately show ?thesis using False by blast
qed

lemma update_attempt_elim:
  assumes "update_attempt_status i n status cls msg d = (Ok c, t)"
  obtains fin e where "fin = None \<longleftrightarrow> \<not> status_is_terminal status" and "tick d e"
    and "t = d\<lparr>db_attempts := set_attempt i n status fin cls msg (db_attempts d), db_env := e\<rparr>"
  using update_attempt_run [of i n status cls msg d] assms by auto

lemma set_attempt_of:
  "filter (\<lambda>a. at_job_id a = j) (set_attempt i n st fin cls msg rows) =
     (if j = i then update_rows (\<lambda>a. at_attempt_number a = n) (close_attempt st fin cls msg)
                      (filter (\<lambda>a. at_job_id a = i) rows)
      else filter (\<lambda>a. at_job_id a = j) rows)"
  by (induction rows) (auto simp: set_attempt_def)

lemma set_attempt_keys [simp]:
  "map at_attempt_number (set_attempt i n st fin cls msg rows) = map at_attempt_number rows"
  "unique_key at_id (set_attempt i n st fin cls msg rows) = unique_key at_id rows"
  by (auto simp: set_attempt_def map_update_rows unique_key_update)

lemma set_attempt_ids [simp]: "at_id ` set (set_attempt i n st fin cls msg rows) = at_id ` set rows"
proof -
  have "map at_id (set_attempt i n st fin cls msg rows) = map at_id rows"
    by (simp add: set_attempt_def map_update_rows)
  then have "set (map at_id (set_attempt i n st fin cls msg rows)) = set (map at_id rows)"
    by (rule arg_cong)
  then show ?thesis by simp
qed

lemma set_attempt_check:
  assumes "a \<in> set (set_attempt i n st fin cls msg rows)" and "st \<noteq> Queued"
    and "\<And>b. b \<in> set rows \<Longrightarrow> attempt_check b \<and> at_job_id b \<in> ids"
  shows "attempt_check a \<and> at_job_id a \<in> ids"
proof -
  from assms(1) obtain b where b: "b \<in> set rows"
    and a: "a = b \<or> a = close_attempt st fin cls msg b"
    by (auto simp: set_attempt_def in_update_rows split: if_splits)
  with assms(3) [OF b] assms(2) show ?thesis
    by (cases st) (auto simp: attempt_check_def)
qed

lemma find_id:
  assumes "List.find (\<lambda>r. jr_id r = i) rows = Some q" and "unique_key jr_id rows"
  shows "q \<in> set rows" and "jr_id q = i" and "r \<in> set rows \<Longrightarrow> jr_id r = i \<longleftrightarrow> r = q"
  using find_Some_set [OF assms(1)] unique_key_eq [OF assms(2), of r q] by auto

definition same_identity :: "job_row \<Rightarrow> job_row \<Rightarrow> bool" where
  "same_identity r q \<longleftrightarrow> jr_id r = jr_id q \<and> jr_idempotency_key r = jr_idempotency_key q
     \<and> job_range_key r = job_range_key q"

lemma update_jobs_keys:
  assumes "\<And>r. same_identity (f r) r"
  shows "unique_key jr_id (update_rows P f rows) = unique_key jr_id rows"
    and "unique_key jr_idempotency_key (update_rows P f rows) = unique_key jr_idempotency_key rows"
    and "range_unique (update_rows P f rows) = range_unique rows"
    and "jr_id ` set (update_rows P f rows) = jr_id ` set rows"
proof -
  have ids: "map jr_id (update_rows P f rows) = map jr_id rows"
    and "map jr_idempotency_key (update_rows P f rows) = map jr_idempotency_key rows"
    and "map job_range_key (update_rows P f rows) = map job_range_key rows"
    using assms by (auto intro!: map_update_rows simp: same_identity_def)
  then show "unique_key jr_id (update_rows P f rows) = unique_key jr_id rows"
    and "unique_key jr_idempotency_key (update_rows P f rows) = unique_key jr_idempotency_key rows"
    and "range_unique (update_rows P f rows) = range_unique rows"
    by (simp_all only: unique_key_def range_unique_def)
  show "jr_id ` set (update_rows P f rows) = jr_id ` set rows"
    using arg_cong [OF ids, of set] by simp
qed

text \<open>An outcome writes the job and the attempt it belongs to.\<close>

lemma outcome_inv:
  assumes inv: "queue_inv d" and q: "List.find (\<lambda>r. jr_id r = i) (db_jobs d) = Some q"
    and ident: "\<And>r. same_identity (f r) r" and n: "\<And>r. jr_attempts (f r) = jr_attempts r"
    and chk: "job_check (f q)" and st: "st \<noteq> Queued"
    and match: "\<And>a. status_matches (jr_status (f q)) (close_attempt st fin cls msg a)"
    and e: "tick d e"
  shows "queue_inv (d\<lparr>db_jobs := update_rows (\<lambda>r. jr_id r = i) f (db_jobs d),
           db_attempts := set_attempt i (jr_attempts q) st fin cls msg (db_attempts d), db_env := e\<rparr>)"
proof -
  let ?d = "d\<lparr>db_jobs := update_rows (\<lambda>r. jr_id r = i) f (db_jobs d),
           db_attempts := set_attempt i (jr_attempts q) st fin cls msg (db_attempts d), db_env := e\<rparr>"
  note inv' = inv [unfolded queue_inv_def]
  note idq = find_id [OF q inv' [THEN conjunct2, THEN conjunct1]]
  note keys = update_jobs_keys [of f "\<lambda>r. jr_id r = i" "db_jobs d", OF ident]
  have rows: "job_check r \<and> in_i32 (jr_attempts r) \<and> audit_ok r (attempts_of ?d (jr_id r))"
    if "r \<in> set (update_rows (\<lambda>r. jr_id r = i) f (db_jobs d))" for r
  proof -
    from that obtain p where p: "p \<in> set (db_jobs d)" and r: "r = (if jr_id p = i then f p else p)"
      by (auto simp: in_update_rows)
    have old: "job_check p" "in_i32 (jr_attempts p)" "audit_ok p (attempts_of d (jr_id p))"
      using inv' p by auto
    show ?thesis
    proof (cases "jr_id p = i")
      case False
      with r old show ?thesis by (simp add: attempts_of_def set_attempt_of)
    next
      case True
      with idq(3) p have "p = q" by simp
      with r True have rq: "r = f q" and idr: "jr_id r = i"
        using ident [of q] by (simp_all add: same_identity_def)
      have "audit_ok r (attempts_of ?d i)"
        using old(3) match unfolding rq \<open>p = q\<close> idq(2)
        by (auto simp: audit_ok_def attempts_of_def set_attempt_of n map_update_rows in_update_rows split: if_splits)
          metis
      with rq idr old(2) chk n \<open>p = q\<close> show ?thesis by simp
    qed
  qed
  show ?thesis
    unfolding queue_inv_def
  proof (intro conjI)
    show "\<forall>r \<in> set (db_jobs ?d). job_check r \<and> in_i32 (jr_attempts r) \<and> audit_ok r (attempts_of ?d (jr_id r))"
      using rows by simp
    show "\<forall>a \<in> set (db_attempts ?d). attempt_check a \<and> at_job_id a \<in> jr_id ` set (db_jobs ?d)"
      using inv' keys(4) set_attempt_check [OF _ st, of _ i "jr_attempts q" fin cls msg "db_attempts d"
          "jr_id ` set (db_jobs d)"] by auto
  qed (use inv' keys e in \<open>simp_all add: tick_def\<close>)
qed

section \<open>The outcomes keep the invariant\<close>

lemma same_identity_rows [simp]:
  "same_identity (running_row now r) r"
  "same_identity (succeeded_row now r) r"
  "same_identity (failed_row st cls msg now r) r"
  "same_identity (interrupted_row msg now r) r"
  "same_identity (lease_row c w l now r) r"
  by (simp_all add: same_identity_def running_row_def succeeded_row_def failed_row_def interrupted_row_def
      lease_row_def job_range_key_def split: option.splits)

lemma outcome_attempts [simp]:
  "jr_attempts (running_row now r) = jr_attempts r"
  "jr_attempts (succeeded_row now r) = jr_attempts r"
  "jr_attempts (failed_row st cls msg now r) = jr_attempts r"
  "jr_attempts (interrupted_row msg now r) = jr_attempts r"
  by (simp_all add: running_row_def succeeded_row_def failed_row_def interrupted_row_def)

lemma outcome_status [simp]:
  "jr_status (running_row now r) = ''running''"
  "jr_status (succeeded_row now r) = ''succeeded''"
  "jr_status (failed_row st cls msg now r) = job_status_as_str st"
  "jr_status (interrupted_row msg now r) = ''queued''"
  "jr_status (lease_row c w l now r) = ''leased''"
  by (simp_all add: running_row_def succeeded_row_def failed_row_def interrupted_row_def lease_row_def)

text \<open>The common shape of the outcomes: a job update and the status of its attempt.\<close>

definition outcome :: "uuid \<Rightarrow> (job_row \<Rightarrow> job_row) \<Rightarrow> job_status \<Rightarrow> string option \<Rightarrow> string option \<Rightarrow> job_row db_prog" where
  "outcome i f st cls msg =
     seq (update_job i f) (\<lambda>row.
     seq (update_attempt_status (jr_id row) (jr_attempts row) st cls msg) (\<lambda>_. ret row))"

lemma outcome_run:
  assumes "outcome i f st cls msg d = (Ok r, t)" and "\<And>r. same_identity (f r) r"
    and "\<And>r. jr_attempts (f r) = jr_attempts r"
  obtains q fin e where "List.find (\<lambda>r. jr_id r = i) (db_jobs d) = Some q" and "job_check (f q)" and "r = f q"
    and "fin = None \<longleftrightarrow> \<not> status_is_terminal st" and "tick d e"
    and "t = d\<lparr>db_jobs := update_rows (\<lambda>r. jr_id r = i) f (db_jobs d),
               db_attempts := set_attempt i (jr_attempts q) st fin cls msg (db_attempts d), db_env := e\<rparr>"
proof -
  from assms(1) obtain q d1 c where q: "List.find (\<lambda>r. jr_id r = i) (db_jobs d) = Some q" and "job_check (f q)"
    and r: "r = f q" and d1: "d1 = d\<lparr>db_jobs := update_rows (\<lambda>r. jr_id r = i) f (db_jobs d)\<rparr>"
    and u: "update_attempt_status (jr_id r) (jr_attempts r) st cls msg d1 = (Ok c, t)"
    by (auto simp: outcome_def seq_Ok_iff update_job_Ok)
  have "jr_id r = i" and "jr_attempts r = jr_attempts q"
    using find_Some_set [OF q] assms(2) [of q] assms(3) [of q] r by (auto simp: same_identity_def)
  with u have u: "update_attempt_status i (jr_attempts q) st cls msg d1 = (Ok c, t)" by simp
  obtain fin e where "fin = None \<longleftrightarrow> \<not> status_is_terminal st" and "tick d1 e"
    and "t = d1\<lparr>db_attempts := set_attempt i (jr_attempts q) st fin cls msg (db_attempts d1), db_env := e\<rparr>"
    by (rule update_attempt_elim [OF u])
  with q \<open>job_check (f q)\<close> r d1 show thesis
    by (intro that [of q fin e]) (auto simp: tick_def)
qed

lemma outcome_keeps:
  assumes "outcome i f st cls msg d = (Ok r, t)" and "queue_inv d"
    and "\<And>r. same_identity (f r) r" and "\<And>r. jr_attempts (f r) = jr_attempts r" and "st \<noteq> Queued"
    and "\<And>q fin a. (fin = None \<longleftrightarrow> \<not> status_is_terminal st) \<Longrightarrow>
           status_matches (jr_status (f q)) (close_attempt st fin cls msg a)"
  shows "queue_inv t"
proof -
  obtain q fin e where
    q: "List.find (\<lambda>r. jr_id r = i) (db_jobs d) = Some q" and chk: "job_check (f q)"
    and fin: "fin = None \<longleftrightarrow> \<not> status_is_terminal st" and e: "tick d e"
    and t: "t = d\<lparr>db_jobs := update_rows (\<lambda>r. jr_id r = i) f (db_jobs d),
               db_attempts := set_attempt i (jr_attempts q) st fin cls msg (db_attempts d), db_env := e\<rparr>"
    by (rule outcome_run [OF assms(1,3,4)])
  show ?thesis
    unfolding t by (rule outcome_inv [OF assms(2) q assms(3,4) chk assms(5) assms(6) [OF fin] e])
qed

lemma status_matches_simps:
  "status_matches ''running'' (close_attempt Running None cls msg a)"
  "status_matches ''succeeded'' (close_attempt Succeeded (Some x) cls msg a)"
  "status_matches ''dead_lettered'' (close_attempt DeadLettered (Some x) cls msg a)"
  "status_matches ''queued'' (close_attempt Failed (Some x) cls msg a)"
  "status_matches ''queued'' (close_attempt Cancelled (Some x) cls msg a)"
  by (simp_all add: status_matches_def closed_attempt_def)

lemma mark_running_eq:
  "mark_running i = seq connection (\<lambda>_. pg_transaction (seq utc_now (\<lambda>now. outcome i (running_row now) Running None None)))"
  by (simp add: mark_running_def outcome_def)

lemma mark_succeeded_eq:
  "mark_succeeded i =
     seq connection (\<lambda>_. pg_transaction (seq utc_now (\<lambda>now. outcome i (succeeded_row now) Succeeded None None)))"
  by (simp add: mark_succeeded_def outcome_def)

lemma mark_failed_eq:
  "mark_failed i cls msg =
     seq connection (\<lambda>_. pg_transaction (seq (get_job_for_update i) (\<lambda>row. seq utc_now (\<lambda>now.
       outcome (jr_id row) (failed_row (next_status row) cls msg now)
         (if next_status row = DeadLettered then DeadLettered else Failed) (Some cls) (Some msg)))))"
  by (simp add: mark_failed_def outcome_def Let_def)

lemma mark_interrupted_eq:
  "mark_interrupted_for_retry i msg =
     seq connection (\<lambda>_. pg_transaction (seq (get_job_for_update i) (\<lambda>row.
       if \<not> (jr_status row = ''leased'' \<or> jr_status row = ''running'') then ret row
       else seq utc_now (\<lambda>now. outcome (jr_id row) (interrupted_row msg now) Cancelled
              (Some worker_interrupted_class) (Some msg)))))"
  by (simp add: mark_interrupted_for_retry_def outcome_def cong: if_cong)

lemma get_job_for_update_Ok:
  "get_job_for_update i d = (Ok r, t) \<longleftrightarrow> List.find (\<lambda>r. jr_id r = i) (db_jobs d) = Some r \<and> t = d"
  by (auto simp: get_job_for_update_def)

lemma outcomes_keep:
  "mark_running i d = (Ok r, t) \<Longrightarrow> queue_inv d \<Longrightarrow> queue_inv t"
  "mark_succeeded i d = (Ok r, t) \<Longrightarrow> queue_inv d \<Longrightarrow> queue_inv t"
  "mark_failed i cls msg d = (Ok r, t) \<Longrightarrow> queue_inv d \<Longrightarrow> queue_inv t"
  "mark_interrupted_for_retry i msg d = (Ok r, t) \<Longrightarrow> queue_inv d \<Longrightarrow> queue_inv t"
  unfolding mark_running_eq mark_succeeded_eq mark_failed_eq mark_interrupted_eq
  by (auto simp: seq_Ok_iff [of "get_job_for_update i"] get_job_for_update_Ok status_is_terminal_def
      next_status_def queue_inv_clock status_matches_simps split: if_splits elim!: outcome_keeps)

section \<open>Leasing keeps the invariant\<close>

lemma oldest_job_Some:
  "oldest_job rows = Some q \<Longrightarrow> q \<in> set rows \<and> (\<forall>p \<in> set rows. jr_created_at q \<le> jr_created_at p)"
  by (auto simp: oldest_job_def list_all_iff dest: find_Some_set)

lemma oldest_job_None: "oldest_job rows = None \<longleftrightarrow> rows = []"
proof
  assume none: "oldest_job rows = None"
  show "rows = []"
  proof (rule ccontr)
    assume "rows \<noteq> []"
    then have "Min (jr_created_at ` set rows) \<in> jr_created_at ` set rows" by simp
    then obtain q where "q \<in> set rows" and "jr_created_at q = Min (jr_created_at ` set rows)" by auto
    then have "\<forall>p \<in> set rows. jr_created_at q \<le> jr_created_at p" by simp
    with \<open>q \<in> set rows\<close> none show False
      by (auto simp: oldest_job_def find_None_set list_all_iff)
  qed
qed (simp add: oldest_job_def)

definition lease_pool :: "(uuid \<Rightarrow> bool) \<Rightarrow> job_type option \<Rightarrow> int option \<Rightarrow> int \<Rightarrow> db \<Rightarrow> job_row list" where
  "lease_pool locked jt ch now d = filter (\<lambda>r. \<not> locked (jr_id r) \<and> lease_eligible jt ch now r) (db_jobs d)"

definition lease_expired :: "int \<Rightarrow> job_row \<Rightarrow> bool" where
  "lease_expired now r \<longleftrightarrow> (jr_status r = ''leased'' \<or> jr_status r = ''running'')
     \<and> (case jr_lease_expires_at r of None \<Rightarrow> False | Some e \<Rightarrow> e < now)"

lemma insert_attempt_elim:
  assumes "insert_attempt i n w d = (Ok u, t)"
  obtains a e where "tick d e" and "t = d\<lparr>db_attempts := db_attempts d @ [a], db_env := e\<rparr>"
    and "at_job_id a = i" and "at_attempt_number a = n" and "at_status a = ''leased''"
    and "at_finished_at a = None" and "at_worker_id a = w" and "attempt_check a"
    and "at_id a \<notin> at_id ` set (db_attempts d)"
proof -
  let ?i = "uuid_supply (db_env d) (uuids_used (db_env d))"
  let ?e = "(db_env d)\<lparr>uuids_used := uuids_used (db_env d) + 1, clock_reads := clock_reads (db_env d) + 1\<rparr>"
  let ?a = "\<lparr>at_id = ?i, at_job_id = i, at_attempt_number = n, at_worker_id = w,
    at_started_at = clock (db_env d) (clock_reads (db_env d)), at_finished_at = None,
    at_status = ''leased'', at_error_class = None, at_error_message = None\<rparr>"
  from assms have "attempt_check ?a" and "?i \<notin> at_id ` set (db_attempts d)"
    and "t = d\<lparr>db_env := ?e, db_attempts := db_attempts d @ [?a]\<rparr>"
    by (auto simp: insert_attempt_def Let_def seq_Ok_iff [of "lift _"] ensure_def split: if_splits)
  then show thesis
    by (intro that [of ?e ?a]) (simp_all add: tick_def env_last)
qed

lemma cancel_expired_elim:
  assumes "cancel_expired_attempt q now d = (Ok u, t)"
  obtains fin cls msg e where "tick d e" and "fin \<noteq> None"
    and "t = d\<lparr>db_attempts := (if lease_expired now q then set_attempt (jr_id q) (jr_attempts q) Cancelled fin cls msg (db_attempts d)
                              else db_attempts d), db_env := e\<rparr>"
proof (cases "lease_expired now q")
  case False
  with assms have "t = d" by (auto simp: cancel_expired_attempt_def lease_expired_def run_if_def split: if_splits)
  with False show thesis by (intro that [of "db_env d" "Some 0" None None]) (simp_all add: tick_def)
next
  case True
  with assms obtain c where "update_attempt_status (jr_id q) (jr_attempts q) Cancelled (Some lease_expired_class)
      (Some ''job lease expired before worker completed'') d = (Ok c, t)"
    by (auto simp: cancel_expired_attempt_def lease_expired_def seq_Ok_iff)
  then show thesis
    by (rule update_attempt_elim) (rule that, auto simp: True status_is_terminal_def)
qed

lemma lease_run:
  assumes "lease_next_candidate locked w l jt ch d = (Ok (Some r), t)" and "unique_key jr_id (db_jobs d)"
  obtains q now1 now2 fin cls msg a e where
    "now1 = clock (db_env d) (clock_reads (db_env d))" and "now2 = clock (db_env d) (clock_reads (db_env d) + 1)"
    and "oldest_job (lease_pool locked jt ch now1 d) = Some q" and "q \<in> set (db_jobs d)"
    and "r = lease_row q w l now2 q" and "job_check r" and "fin \<noteq> None" and "tick d e"
    and "at_job_id a = jr_id q" and "at_attempt_number a = jr_attempts r" and "at_status a = ''leased''"
    and "at_finished_at a = None" and "at_worker_id a = w" and "attempt_check a"
    and "at_id a \<notin> at_id ` set (db_attempts d)"
    and "t = d\<lparr>db_jobs := update_rows (\<lambda>p. jr_id p = jr_id q) (lease_row q w l now2) (db_jobs d),
               db_attempts := (if lease_expired now2 q then set_attempt (jr_id q) (jr_attempts q) Cancelled fin cls msg (db_attempts d)
                               else db_attempts d) @ [a],
               db_env := e\<rparr>"
proof -
  let ?now1 = "clock (db_env d) (clock_reads (db_env d))"
  let ?now2 = "clock (db_env d) (clock_reads (db_env d) + 1)"
  let ?d1 = "d\<lparr>db_env := (db_env d)\<lparr>clock_reads := clock_reads (db_env d) + 2\<rparr>\<rparr>"
  from assms(1) obtain q d2 d3 u1 u2 where q: "oldest_job (lease_pool locked jt ch ?now1 d) = Some q"
    and c: "cancel_expired_attempt q ?now2 ?d1 = (Ok u1, d2)"
    and j: "update_job (jr_id q) (lease_row q w l ?now2) d2 = (Ok r, d3)"
    and a: "insert_attempt (jr_id r) (jr_attempts r) w d3 = (Ok u2, t)"
    by (auto simp: lease_next_candidate_def lock_next_candidate_def seq_assoc lease_pool_def seq_Ok_iff
        split: option.splits)
  have qs: "q \<in> set (db_jobs d)"
    using oldest_job_Some [OF q] by (simp add: lease_pool_def)
  obtain fin cls msg e1 where e1: "tick ?d1 e1" and fin: "fin \<noteq> None"
    and d2: "d2 = ?d1\<lparr>db_attempts := (if lease_expired ?now2 q then set_attempt (jr_id q) (jr_attempts q) Cancelled fin cls msg (db_attempts ?d1)
                              else db_attempts ?d1), db_env := e1\<rparr>"
    by (rule cancel_expired_elim [OF c])
  have "List.find (\<lambda>p. jr_id p = jr_id q) (db_jobs d2) = Some q"
    using find_unique_key [OF assms(2) qs] by (simp add: d2)
  with j have r: "r = lease_row q w l ?now2 q" and chk: "job_check r"
    and d3: "d3 = d2\<lparr>db_jobs := update_rows (\<lambda>p. jr_id p = jr_id q) (lease_row q w l ?now2) (db_jobs d2)\<rparr>"
    by (auto simp: update_job_Ok)
  have idr: "jr_id r = jr_id q" by (simp add: r lease_row_def)
  obtain ar e2 where e2: "tick d3 e2" and t: "t = d3\<lparr>db_attempts := db_attempts d3 @ [ar], db_env := e2\<rparr>"
    and ar: "at_job_id ar = jr_id q" "at_attempt_number ar = jr_attempts r" "at_status ar = ''leased''"
      "at_finished_at ar = None" "at_worker_id ar = w" "attempt_check ar" "at_id ar \<notin> at_id ` set (db_attempts d3)"
    by (rule insert_attempt_elim [OF a [unfolded idr]])
  have "at_id ar \<notin> at_id ` set (db_attempts d)"
    using ar(7) by (simp add: d3 d2 split: if_splits)
  note fresh = this
  have te: "tick d e2" using e1 e2 by (simp add: tick_def d3 d2)
  show thesis
    by (rule that [where cls = cls and msg = msg, OF refl refl q qs r chk fin te ar(1-6) fresh])
      (simp add: t d3 d2)
qed

lemma lease_audit:
  assumes audit: "audit_ok q as" and chk: "job_check q" "job_check r" and i32: "in_i32 (jr_attempts q)"
    and r: "jr_attempts r = i32_wrapping_add (jr_attempts q) 1" "jr_status r = ''leased''"
    and a: "at_attempt_number a = jr_attempts r" "at_status a = ''leased''" "at_finished_at a = None"
    and now: "lease_eligible jt ch now1 q" "now1 \<le> now2"
    and as': "as' = (if lease_expired now2 q
        then update_rows (\<lambda>a. at_attempt_number a = jr_attempts q) (close_attempt Cancelled fin cls msg) as else as)"
    and fin: "fin \<noteq> None"
  shows "audit_ok r (as' @ [a]) \<and> in_i32 (jr_attempts r)"
proof -
  have n0: "0 \<le> jr_attempts q" "0 \<le> jr_attempts r"
    using chk by (simp_all add: job_check_def)
  then have n: "jr_attempts r = jr_attempts q + 1" and "in_i32 (jr_attempts r)"
    using i32_wrapping_succ [of "jr_attempts q"] i32 by (simp_all add: r)
  have nums: "map at_attempt_number as' = [1..jr_attempts q]"
    using audit by (auto simp: as' audit_ok_def map_update_rows)
  have closed: "closed_attempt b" if "b \<in> set as'" for b
  proof (cases "lease_expired now2 q")
    case True
    with that obtain c where "c \<in> set as"
      and "b = (if at_attempt_number c = jr_attempts q then close_attempt Cancelled fin cls msg c else c)"
      by (auto simp: as' in_update_rows)
    with audit fin show ?thesis
      by (auto simp: audit_ok_def closed_attempt_def split: if_splits)
  next
    case False
    with now have "jr_status q = ''queued''"
      by (auto simp: lease_eligible_def lease_expired_def split: option.splits)
    with that audit False show ?thesis
      by (auto simp: as' audit_ok_def status_matches_def split: if_splits)
  qed
  have small: "at_attempt_number b \<noteq> jr_attempts r" if "b \<in> set as'" for b
  proof -
    have "at_attempt_number b \<in> set (map at_attempt_number as')"
      using that by simp
    then show ?thesis unfolding nums using n by auto
  qed
  have "[1..jr_attempts r] = [1..jr_attempts q] @ [jr_attempts r]"
    using n n0 upto_rec2 [of 1 "jr_attempts r"] by simp
  then show ?thesis
    using nums closed small a r \<open>in_i32 (jr_attempts r)\<close>
    by (auto simp: audit_ok_def status_matches_def)
qed

lemma lease_keeps:
  assumes run: "lease_next_candidate locked w l jt ch d = (Ok (Some r), t)" and inv: "queue_inv d"
  shows "queue_inv t"
proof -
  note inv' = inv [unfolded queue_inv_def]
  obtain q now1 now2 fin cls msg a e where
    now1: "now1 = clock (db_env d) (clock_reads (db_env d))" and now2: "now2 = clock (db_env d) (clock_reads (db_env d) + 1)"
    and q: "oldest_job (lease_pool locked jt ch now1 d) = Some q" and qs: "q \<in> set (db_jobs d)"
    and r: "r = lease_row q w l now2 q" and chk: "job_check r" and fin: "fin \<noteq> None" and e: "tick d e"
    and a: "at_job_id a = jr_id q" "at_attempt_number a = jr_attempts r" "at_status a = ''leased''"
      "at_finished_at a = None" "at_worker_id a = w" "attempt_check a" "at_id a \<notin> at_id ` set (db_attempts d)"
    and t: "t = d\<lparr>db_jobs := update_rows (\<lambda>p. jr_id p = jr_id q) (lease_row q w l now2) (db_jobs d),
               db_attempts := (if lease_expired now2 q then set_attempt (jr_id q) (jr_attempts q) Cancelled fin cls msg (db_attempts d)
                               else db_attempts d) @ [a],
               db_env := e\<rparr>"
    by (rule lease_run [OF run inv' [THEN conjunct2, THEN conjunct1]])
  let ?as = "if lease_expired now2 q then set_attempt (jr_id q) (jr_attempts q) Cancelled fin cls msg (db_attempts d)
             else db_attempts d"
  have elig: "lease_eligible jt ch now1 q"
    using oldest_job_Some [OF q] by (simp add: lease_pool_def)
  have le: "now1 \<le> now2"
    using inv' by (simp add: now1 now2 mono_def)
  note keys = update_jobs_keys [of "lease_row q w l now2" "\<lambda>p. jr_id p = jr_id q" "db_jobs d"]
  have idq: "p = q" if "p \<in> set (db_jobs d)" "jr_id p = jr_id q" for p
    using unique_key_eq [of jr_id "db_jobs d" p q] inv' that qs by simp
  have audit: "audit_ok r (attempts_of t (jr_id q)) \<and> in_i32 (jr_attempts r)"
  proof -
    have "attempts_of t (jr_id q) = (if lease_expired now2 q
        then update_rows (\<lambda>a. at_attempt_number a = jr_attempts q) (close_attempt Cancelled fin cls msg) (attempts_of d (jr_id q))
        else attempts_of d (jr_id q)) @ [a]"
      using a by (simp add: attempts_of_def t set_attempt_of)
    with lease_audit [of q "attempts_of d (jr_id q)" r a jt ch now1 now2 _ fin cls msg] inv' qs chk elig le fin a r
    show ?thesis by (simp add: lease_row_def)
  qed
  have other: "attempts_of t i = attempts_of d i" if "i \<noteq> jr_id q" for i
    using that a by (simp add: attempts_of_def t set_attempt_of)
  show ?thesis
    unfolding queue_inv_def
  proof (intro conjI)
    show "mono (clock (db_env t))" using inv' e by (simp add: t tick_def)
    show "unique_key jr_id (db_jobs t)" "unique_key jr_idempotency_key (db_jobs t)" "range_unique (db_jobs t)"
      using inv' keys by (simp_all add: t)
    show "\<forall>p \<in> set (db_jobs t). job_check p \<and> in_i32 (jr_attempts p) \<and> audit_ok p (attempts_of t (jr_id p))"
    proof
      fix p assume "p \<in> set (db_jobs t)"
      then obtain p0 where p0: "p0 \<in> set (db_jobs d)" and p: "p = (if jr_id p0 = jr_id q then lease_row q w l now2 p0 else p0)"
        by (auto simp: t in_update_rows)
      show "job_check p \<and> in_i32 (jr_attempts p) \<and> audit_ok p (attempts_of t (jr_id p))"
      proof (cases "jr_id p0 = jr_id q")
        case True
        with idq [OF p0 True] p r have "p = r" by simp
        moreover have "jr_id r = jr_id q" by (simp add: r lease_row_def)
        ultimately show ?thesis using audit chk by simp
      next
        case False
        with p p0 inv' other [OF False] show ?thesis by simp
      qed
    qed
    show "\<forall>b \<in> set (db_attempts t). attempt_check b \<and> at_job_id b \<in> jr_id ` set (db_jobs t)"
    proof
      fix b assume "b \<in> set (db_attempts t)"
      then consider "b = a" | "b \<in> set (db_attempts d)"
        | "b \<in> set (set_attempt (jr_id q) (jr_attempts q) Cancelled fin cls msg (db_attempts d))"
        by (auto simp: t split: if_splits)
      then have "attempt_check b \<and> at_job_id b \<in> jr_id ` set (db_jobs d)"
      proof cases
        case 1
        with a qs show ?thesis by simp
      next
        case 2
        with inv' show ?thesis by simp
      next
        case 3
        show ?thesis by (rule set_attempt_check [OF 3]) (use inv' in auto)
      qed
      with keys(4) show "attempt_check b \<and> at_job_id b \<in> jr_id ` set (db_jobs t)" by (simp add: t)
    qed
    from inv' a(7) show "unique_key at_id (db_attempts t)"
      by (simp add: t)
  qed
qed

section \<open>Enqueueing keeps the invariant\<close>

lemma enqueue_cases:
  assumes "enqueue j d = (Ok x, t)"
  obtains (inserted) row e where "x = EnqInserted row" and "row = new_job_row j (clock (db_env d) (clock_reads (db_env d)))"
      and "job_check row" and "\<not> job_conflict (db_jobs d) row" and "tick d e"
      and "t = d\<lparr>db_jobs := db_jobs d @ [row], db_env := e\<rparr>"
      and "nw_source_id j = None \<or> (\<exists>sid. nw_source_id j = Some sid \<and> has_source d sid)"
    | (existing) row r e where "x = EnqExisting r" and "row = new_job_row j (clock (db_env d) (clock_reads (db_env d)))"
      and "job_conflict (db_jobs d) row" and "r \<in> set (db_jobs d)"
      and "jr_idempotency_key r = nw_idempotency_key j \<or> same_range r row" and "tick d e" and "t = d\<lparr>db_env := e\<rparr>"
proof -
  let ?row = "new_job_row j (clock (db_env d) (clock_reads (db_env d)))"
  let ?e = "(db_env d)\<lparr>clock_reads := clock_reads (db_env d) + 1\<rparr>"
  have e: "tick d ?e" by (simp add: tick_def)
  from assms have chk: "job_check ?row"
    by (auto simp: enqueue_def Let_def seq_Ok_iff [of "lift _"])
  show thesis
  proof (cases "job_conflict (db_jobs d) ?row")
    case False
    with assms chk have "x = EnqInserted ?row" and "t = d\<lparr>db_env := ?e, db_jobs := db_jobs d @ [?row]\<rparr>"
      and "nw_source_id j = None \<or> (\<exists>sid. nw_source_id j = Some sid \<and> has_source d sid)"
      by (auto simp: enqueue_def Let_def seq_Ok_iff insert_job_def new_job_row_def has_source_def
          split: if_splits option.splits)
    with chk False e show thesis by (intro inserted [of ?row ?e]) simp_all
  next
    case True
    with assms chk obtain r where x: "x = EnqExisting r" and t: "t = d\<lparr>db_env := ?e\<rparr>"
      and r: "existing_enqueue_conflict ?row (d\<lparr>db_env := ?e\<rparr>) = (Ok r, t)"
      by (auto simp: enqueue_def Let_def seq_Ok_iff existing_enqueue_conflict_def)
    have "r \<in> set (db_jobs d) \<and> (jr_idempotency_key r = nw_idempotency_key j \<or> same_range r ?row)"
      using r
      by (auto simp: existing_enqueue_conflict_def new_job_row_def same_range_def job_range_key_def
          dest!: find_Some_set split: option.splits)
    with x t True e show thesis by (intro existing [of r ?row ?e]) simp_all
  qed
qed

lemma no_conflict:
  "\<not> job_conflict rows row \<longleftrightarrow>
     jr_id row \<notin> jr_id ` set rows \<and> jr_idempotency_key row \<notin> jr_idempotency_key ` set rows
     \<and> (job_range_key row = None \<or> job_range_key row \<notin> job_range_key ` set rows)"
  by (auto simp: job_conflict_def list_ex_iff same_range_def image_iff)

lemma range_unique_snoc:
  "range_unique (rows @ [row]) \<longleftrightarrow>
     range_unique rows \<and> (job_range_key row = None \<or> job_range_key row \<notin> job_range_key ` set rows)"
  by (auto simp: range_unique_def)

lemma queue_inv_tick: "tick d e \<Longrightarrow> queue_inv d \<Longrightarrow> queue_inv (d\<lparr>db_env := e\<rparr>)"
  by (simp add: tick_def queue_inv_def attempts_of_def)

lemma enqueue_keeps_inv:
  assumes "enqueue j d = (Ok x, t)" and inv: "queue_inv d"
  shows "queue_inv t"
  using assms(1)
proof (cases rule: enqueue_cases)
  case (existing row r e)
  with queue_inv_tick [OF _ inv] show ?thesis by simp
next
  case (inserted row e)
  note inv' = inv [unfolded queue_inv_def]
  have fresh: "jr_id row \<notin> jr_id ` set (db_jobs d)"
    using inserted no_conflict [of "db_jobs d" row] by simp
  have "at_job_id a \<noteq> jr_id row" if "a \<in> set (db_attempts d)" for a
    using inv' fresh that by metis
  then have "filter (\<lambda>a. at_job_id a = jr_id row) (db_attempts d) = []"
    by (simp add: filter_empty_conv)
  moreover have "jr_attempts row = 0"
    using inserted by (simp add: new_job_row_def)
  ultimately have "audit_ok row (attempts_of t (jr_id row)) \<and> in_i32 (jr_attempts row)"
    using inserted by (simp add: attempts_of_def audit_ok_def int_range_defs)
  moreover have "attempts_of t i = attempts_of d i" for i
    using inserted by (simp add: attempts_of_def)
  ultimately show ?thesis
    using inv' inserted no_conflict [of "db_jobs d" row]
    by (auto simp: queue_inv_def range_unique_snoc tick_def)
qed

text \<open>An operation that fails leaves the tables as they were.\<close>

lemma connection_Err: "seq connection f d = (Err e, t) \<Longrightarrow> \<not> pool_available (db_env d) \<and> t = d \<or> f () d = (Err e, t)"
  by (cases "pool_available (db_env d)") auto

lemma failed_tables:
  "seq connection (\<lambda>_. pg_transaction m) d = (Err e, t) \<Longrightarrow> tables t = tables d"
  by (auto dest!: connection_Err pg_transaction_Err)

lemma steady_queue_parts [steady_intros]:
  "steady (update_job i f)" "steady (insert_job row)"
  "steady (get_job_for_update i)" "steady (existing_enqueue_conflict row)"
  by (auto simp: steady_def update_job_def insert_job_def get_job_for_update_def existing_enqueue_conflict_def
      tick_def split: option.splits if_splits)

lemma steady_queue_writes [steady_intros]:
  "steady (update_attempt_status i n st cls msg)" "steady (insert_attempt k n w)"
  "steady (lock_next_candidate locked jt ch)" "steady (outcome l f st cls msg)"
  "steady (cancel_expired_attempt q now)"
  unfolding update_attempt_status_def insert_attempt_def lock_next_candidate_def outcome_def
    cancel_expired_attempt_def Let_def
  by (intro steady_intros; simp)+

lemma steady_queue [steady_intros]:
  "steady (enqueue j)" "steady (lease_next_candidate locked w l jt ch)" "steady (mark_running i)"
  "steady (mark_succeeded i)" "steady (mark_failed i cls msg)" "steady (mark_interrupted_for_retry i msg)"
  unfolding enqueue_def lease_next_candidate_def mark_running_eq mark_succeeded_eq mark_failed_eq
    mark_interrupted_eq Let_def
  by (intro steady_intros; simp)+

lemma safe_enqueue: "safe (enqueue j)"
proof -
  have "silent (existing_enqueue_conflict row)" for row
    unfolding existing_enqueue_conflict_def by (rule silent_pure)
  moreover have "safe (insert_job row)" for row
    by (auto simp: safe_def insert_job_def split: if_splits)
  ultimately show ?thesis
    unfolding enqueue_def Let_def
    by (intro safe_seq safe_if safe_seq_ret silent_intros) (auto intro: safe_silent)
qed

lemma enqueue_failed: "enqueue j d = (Err e, t) \<Longrightarrow> tables t = tables d"
  by (rule safeD [OF safe_enqueue])

section \<open>The queue as a transition system\<close>

inductive queue_step :: "db \<Rightarrow> db \<Rightarrow> bool" where
  step_enqueue: "enqueue j d = (x, t) \<Longrightarrow> queue_step d t"
| step_lease: "lease_next_candidate locked w l jt ch d = (y, t) \<Longrightarrow> queue_step d t"
| step_running: "mark_running i d = (r, t) \<Longrightarrow> queue_step d t"
| step_succeeded: "mark_succeeded i d = (r, t) \<Longrightarrow> queue_step d t"
| step_failed: "mark_failed i cls msg d = (r, t) \<Longrightarrow> queue_step d t"
| step_interrupted: "mark_interrupted_for_retry i msg d = (r, t) \<Longrightarrow> queue_step d t"

inductive queue_reachable :: "db \<Rightarrow> bool" where
  reach_start: "db_jobs d = [] \<Longrightarrow> db_attempts d = [] \<Longrightarrow> mono (clock (db_env d)) \<Longrightarrow> queue_reachable d"
| reach_step: "queue_reachable d \<Longrightarrow> queue_step d t \<Longrightarrow> queue_reachable t"

lemma failed_keeps:
  assumes "tables t = tables d" and "steady m" and "m d = (r, t)" and "queue_inv d"
  shows "queue_inv t"
  using assms(1,4) steadyD [OF assms(2,3)] by (auto intro: queue_inv_tables simp: tick_def)

lemma transaction_step_keeps:
  assumes "m = seq connection (\<lambda>_. pg_transaction n)" and "steady m" and "m d = (r, t)" and "queue_inv d"
    and "\<And>x. m d = (Ok x, t) \<Longrightarrow> queue_inv t"
  shows "queue_inv t"
proof (cases r)
  case (Inr x)
  with assms(3,5) show ?thesis by simp
next
  case (Inl e)
  with assms(1,3) have "tables t = tables d" by (auto dest: failed_tables)
  with assms show ?thesis by (auto intro: failed_keeps)
qed

lemma queue_step_keeps:
  assumes "queue_step d t" and inv: "queue_inv d"
  shows "queue_inv t"
  using assms(1)
proof cases
  case (step_enqueue j x)
  show ?thesis
  proof (cases x)
    case (Inr y)
    with step_enqueue enqueue_keeps_inv inv show ?thesis by simp
  next
    case (Inl e)
    with step_enqueue enqueue_failed have "tables t = tables d" by simp
    from failed_keeps [OF this steady_queue(1) step_enqueue inv] show ?thesis .
  qed
next
  case (step_lease locked w l jt ch y)
  have lease: "queue_inv t" if "lease_next_candidate locked w l jt ch d = (Ok z, t)" for z
  proof (cases z)
    case (Some r)
    with that lease_keeps inv show ?thesis by simp
  next
    case None
    with that have "tables t = tables d"
      by (auto simp: lease_next_candidate_def lock_next_candidate_def seq_assoc seq_Ok_iff split: option.splits)
    from failed_keeps [OF this steady_queue(2) step_lease inv] show ?thesis .
  qed
  show ?thesis
    by (rule transaction_step_keeps [OF lease_next_candidate_def steady_queue(2) step_lease inv]) (rule lease)
next
  case (step_running i r)
  show ?thesis
    by (rule transaction_step_keeps [OF mark_running_eq steady_queue(3) step_running inv]) (rule outcomes_keep(1) [OF _ inv])
next
  case (step_succeeded i r)
  show ?thesis
    by (rule transaction_step_keeps [OF mark_succeeded_eq steady_queue(4) step_succeeded inv]) (rule outcomes_keep(2) [OF _ inv])
next
  case (step_failed i cls msg r)
  show ?thesis
    by (rule transaction_step_keeps [OF mark_failed_eq steady_queue(5) step_failed inv]) (rule outcomes_keep(3) [OF _ inv])
next
  case (step_interrupted i msg r)
  show ?thesis
    by (rule transaction_step_keeps [OF mark_interrupted_eq steady_queue(6) step_interrupted inv]) (rule outcomes_keep(4) [OF _ inv])
qed

lemma queue_reachable_inv: "queue_reachable d \<Longrightarrow> queue_inv d"
proof (induction rule: queue_reachable.induct)
  case (reach_start d)
  then show ?case by (simp add: queue_inv_def range_unique_def)
next
  case (reach_step d t)
  then show ?case by (blast intro: queue_step_keeps)
qed

section \<open>A sample queue\<close>

definition sample_env :: environment where
  "sample_env = \<lparr>pool_available = True, uuid_supply = (\<lambda>n. of_nat (n + 1)), uuids_used = 0,
     clock = int, clock_reads = 0, chain_serial = 1\<rparr>"

definition empty_db :: db where
  "empty_db = \<lparr>db_chains = [], db_sources = [], db_checkpoints = [], db_events = [], db_entries = [],
     db_balances = [], db_receipts = [], db_jobs = [], db_attempts = [], db_reorgs = [], db_env = sample_env\<rparr>"

definition sample_new_job :: new_job where
  "sample_new_job = \<lparr>nw_id = 7, nw_job_type = IngestRange, nw_source_id = None, nw_chain_id = 1,
     nw_from_block = Some 10, nw_to_block = Some 19, nw_idempotency_key = ''k'', nw_max_attempts = 1\<rparr>"

definition queued_db :: db where
  "queued_db = snd (enqueue sample_new_job empty_db)"

definition leased_db :: db where
  "leased_db = snd (lease_next_candidate (\<lambda>_. False) ''w'' 5 None None queued_db)"

lemma empty_reachable: "queue_reachable empty_db"
  by (rule reach_start) (simp_all add: empty_db_def sample_env_def mono_def)

lemma queued_reachable: "queue_reachable queued_db"
  unfolding queued_db_def
  by (rule reach_step [OF empty_reachable step_enqueue]) (simp add: prod_eq_iff)

lemma leased_reachable: "queue_reachable leased_db"
  unfolding leased_db_def
  by (rule reach_step [OF queued_reachable step_lease]) (simp add: prod_eq_iff)

end
