(* ===== verification/Queue_Spec.thy ===== *)
theory Queue_Spec
  imports Job_Laws
begin

text \<open>
  What the job queue promises: its properties over the operations of \<open>Job_Queue\<close>, and the
  planner's interface interpreted on the PostgreSQL repository.
\<close>

section \<open>Every reachable queue\<close>


text \<open>C28 at a queue with one leased job.\<close>

lemma leased_db_jobs:
  "map jr_status (db_jobs leased_db) = [''leased'']" "map at_status (db_attempts leased_db) = [''leased'']"
  by code_simp+


section \<open>Enqueueing\<close>

lemma conflict_existing:
  assumes "job_check (new_job_row j (clock (db_env d) (clock_reads (db_env d))))" and "pool_available (db_env d)"
    and "p \<in> set (db_jobs d)"
    and "jr_idempotency_key p = nw_idempotency_key j \<or> same_range p (new_job_row j (clock (db_env d) (clock_reads (db_env d))))"
  shows "\<exists>r e. enqueue j d = (Ok (EnqExisting r), d\<lparr>db_env := e\<rparr>)"
proof -
  let ?row = "new_job_row j (clock (db_env d) (clock_reads (db_env d)))"
  let ?d = "d\<lparr>db_env := (db_env d)\<lparr>clock_reads := clock_reads (db_env d) + 1\<rparr>\<rparr>"
  have conflict: "job_conflict (db_jobs d) ?row"
    using assms(3,4) by (auto simp: job_conflict_def list_ex_iff new_job_row_def)
  have "\<exists>r. existing_enqueue_conflict ?row ?d = (Ok r, ?d)"
  proof (cases "List.find (\<lambda>r. jr_idempotency_key r = jr_idempotency_key ?row) (db_jobs d)")
    case (Some r)
    then show ?thesis by (simp add: existing_enqueue_conflict_def)
  next
    case None
    with assms(3,4) have "same_range p ?row"
      by (auto simp: find_None_set new_job_row_def)
    then obtain sid f u where key: "jr_source_id ?row = Some sid" "jr_from_block ?row = Some f" "jr_to_block ?row = Some u"
      "jr_source_id p = Some sid" "jr_job_type p = jr_job_type ?row" "jr_from_block p = Some f" "jr_to_block p = Some u"
      by (auto simp: same_range_def job_range_key_def split: option.splits)
    with find_exists [OF assms(3), of "\<lambda>r. jr_source_id r = Some sid \<and> jr_job_type r = jr_job_type ?row
        \<and> jr_from_block r = Some f \<and> jr_to_block r = Some u"] None
    show ?thesis by (auto simp: existing_enqueue_conflict_def)
  qed
  then obtain r where "existing_enqueue_conflict ?row ?d = (Ok r, ?d)" by blast
  with assms(1,2) conflict have "enqueue j d = (Ok (EnqExisting r), ?d)"
    by (simp add: enqueue_def Let_def seq_apply [of "existing_enqueue_conflict ?row"] ret_def)
  then show ?thesis by blast
qed

text \<open>C31: A successful enqueue either appends one queued job without attempts, and then no stored job had its
  key or its source, type and range, or it reports a stored job with the same key or range and
  changes no table; enqueueing the same job again, with any identifier, reports an existing job and
  changes no table.\<close>

theorem enqueue_idempotent:
  assumes "enqueue j d = (Ok x, t)"
  shows "(case x of
      EnqInserted r \<Rightarrow> db_jobs t = db_jobs d @ [r] \<and> jr_status r = ''queued'' \<and> jr_attempts r = 0
        \<and> jr_idempotency_key r = nw_idempotency_key j \<and> jr_id r = nw_id j
        \<and> (\<forall>q \<in> set (db_jobs d). jr_idempotency_key q \<noteq> jr_idempotency_key r \<and> \<not> same_range q r)
    | EnqExisting r \<Rightarrow> tables t = tables d \<and> r \<in> set (db_jobs d)
        \<and> (jr_idempotency_key r = nw_idempotency_key j \<or> same_range r (new_job_row j 0)))
    \<and> (\<exists>r u. enqueue (j\<lparr>nw_id := i\<rparr>) t = (Ok (EnqExisting r), u) \<and> tables u = tables t)"
proof -
  have key: "job_range_key (new_job_row (j\<lparr>nw_id := k\<rparr>) m) = job_range_key (new_job_row j n)"
    "job_range_key (new_job_row j m) = job_range_key (new_job_row j n)" for k m n
    by (simp_all add: job_range_key_def new_job_row_def split: option.split)
  have row: "same_range q (new_job_row (j\<lparr>nw_id := k\<rparr>) m) = same_range q (new_job_row j n)"
    "same_range q (new_job_row j m) = same_range q (new_job_row j 0)"
    "job_check (new_job_row (j\<lparr>nw_id := k\<rparr>) m) = job_check (new_job_row j n)" for q k m n
    using key(1) [of k m n] key(2) [of m 0]
    by (simp_all add: same_range_def) (simp add: new_job_row_def job_check_def)
  have pool: "pool_available (db_env d)"
    using assms by (simp add: enqueue_def)
  have again: "\<exists>r u. enqueue (j\<lparr>nw_id := i\<rparr>) t = (Ok (EnqExisting r), u) \<and> tables u = tables t"
    if "p \<in> set (db_jobs t)" "jr_idempotency_key p = nw_idempotency_key j \<or> same_range p (new_job_row j 0)"
      "job_check (new_job_row j n)" "tick d (db_env t)" for p n
    using conflict_existing [of "j\<lparr>nw_id := i\<rparr>" t p] that pool row(1) [of _ _ _ 0] row(3) [of _ _ n]
    by (fastforce simp: tick_def)
  show ?thesis
    using assms
  proof (cases rule: enqueue_cases)
    case (inserted row e)
    then have "jr_idempotency_key row = nw_idempotency_key j" by (simp add: new_job_row_def)
    with inserted again [of row "clock (db_env d) (clock_reads (db_env d))"]
    have "\<exists>r u. enqueue (j\<lparr>nw_id := i\<rparr>) t = (Ok (EnqExisting r), u) \<and> tables u = tables t"
      by (simp add: tick_def)
    with inserted show ?thesis
      by (auto simp: new_job_row_def job_conflict_def list_ex_iff)
  next
    case (existing row r e)
    have "job_check row" using assms existing by (auto simp: enqueue_def Let_def seq_Ok_iff [of "lift _"])
    with existing again [of r "clock (db_env d) (clock_reads (db_env d))"] row(2)
    have "\<exists>r u. enqueue (j\<lparr>nw_id := i\<rparr>) t = (Ok (EnqExisting r), u) \<and> tables u = tables t"
      by (auto simp: tick_def)
    with existing row(2) show ?thesis by auto
  qed
qed

text \<open>C31 on the sample job.\<close>

theorem enqueue_idempotent_witness:
  "\<exists>r u. enqueue (sample_new_job\<lparr>nw_id := 9\<rparr>) queued_db = (Ok (EnqExisting r), u) \<and> tables u = tables queued_db"
proof -
  have "is_ok (fst (enqueue sample_new_job empty_db))" by code_simp
  then obtain x where "enqueue sample_new_job empty_db = (Ok x, queued_db)"
    unfolding queued_db_def
    by (cases "enqueue sample_new_job empty_db"; cases "fst (enqueue sample_new_job empty_db)") auto
  from enqueue_idempotent [OF this] show ?thesis by blast
qed

section \<open>Leasing\<close>

lemma lease_none:
  assumes "lease_next_candidate locked w l jt ch d = (Ok None, t)"
  shows "lease_pool locked jt ch (clock (db_env d) (clock_reads (db_env d))) d = [] \<and> tables t = tables d"
  using assms
  by (auto simp: lease_next_candidate_def lock_next_candidate_def seq_assoc seq_Ok_iff lease_pool_def
      oldest_job_None split: option.splits)



section \<open>Failure and retry\<close>

lemma outcome_jobs:
  assumes "outcome i f st cls msg d = (Ok r, t)" and "unique_key jr_id (db_jobs d)"
    and "\<And>r. same_identity (f r) r" and "\<And>r. jr_attempts (f r) = jr_attempts r"
  shows "\<exists>q \<in> set (db_jobs d). jr_id q = i \<and> r = f q \<and> db_jobs t = update_rows (\<lambda>p. p = q) (\<lambda>_. r) (db_jobs d)
    \<and> (\<forall>a \<in> set (attempts_of t i). at_attempt_number a = jr_attempts q \<longrightarrow>
          at_status a = job_status_as_str st \<and> (at_finished_at a = None \<longleftrightarrow> \<not> status_is_terminal st))"
proof -
  obtain q fin e where q: "List.find (\<lambda>r. jr_id r = i) (db_jobs d) = Some q" and r: "r = f q"
    and fin: "fin = None \<longleftrightarrow> \<not> status_is_terminal st"
    and t: "t = d\<lparr>db_jobs := update_rows (\<lambda>r. jr_id r = i) f (db_jobs d),
               db_attempts := set_attempt i (jr_attempts q) st fin cls msg (db_attempts d), db_env := e\<rparr>"
    by (rule outcome_run [OF assms(1,3,4)])
  note idq = find_id [OF q assms(2)]
  have "db_jobs t = update_rows (\<lambda>p. p = q) (\<lambda>_. r) (db_jobs d)"
    unfolding t update_rows_def using idq(3) by (auto simp: r)
  moreover have "at_status a = job_status_as_str st \<and> (at_finished_at a = None \<longleftrightarrow> \<not> status_is_terminal st)"
    if "a \<in> set (attempts_of t i)" "at_attempt_number a = jr_attempts q" for a
  proof -
    have "attempts_of t i = update_rows (\<lambda>a. at_attempt_number a = jr_attempts q) (close_attempt st fin cls msg) (attempts_of d i)"
      by (simp add: t attempts_of_def set_attempt_of)
    with that(1) obtain b where b: "a = (if at_attempt_number b = jr_attempts q then close_attempt st fin cls msg b else b)"
      by (auto simp: in_update_rows)
    with that(2) have "a = close_attempt st fin cls msg b" by (auto split: if_splits)
    then have "at_status a = job_status_as_str st" and "at_finished_at a = fin"
      by (metis close_attempt_simps(4), metis close_attempt_simps(5))
    with fin show ?thesis by simp
  qed
  ultimately show ?thesis using idq(1,2) r by blast
qed

text \<open>C30: A failed job whose attempts have reached its maximum is dead-lettered, any other is queued again;
  in both cases the lease is cleared, the error is stored, every other job is left alone, and the
  attempt the job is at is finished as dead-lettered or failed.\<close>

theorem mark_failed_retries_until_max:
  assumes "queue_inv d" and "mark_failed i cls msg d = (Ok r, t)"
  shows "\<exists>q \<in> set (db_jobs d). \<exists>now. jr_id q = i
    \<and> r = q\<lparr>jr_status := (if jr_attempts q \<ge> jr_max_attempts q then ''dead_lettered'' else ''queued''),
            jr_leased_by := None, jr_lease_expires_at := None, jr_error_class := Some cls,
            jr_error_message := Some msg, jr_updated_at := now\<rparr>
    \<and> db_jobs t = update_rows (\<lambda>p. p = q) (\<lambda>_. r) (db_jobs d)
    \<and> (\<forall>a \<in> set (attempts_of t i). at_attempt_number a = jr_attempts q \<longrightarrow>
          at_status a = (if jr_attempts q \<ge> jr_max_attempts q then ''dead_lettered'' else ''failed'')
          \<and> at_finished_at a \<noteq> None)"
proof -
  note inv = assms(1) [unfolded queue_inv_def]
  let ?now = "clock (db_env d) (clock_reads (db_env d))"
  let ?d = "d\<lparr>db_env := (db_env d)\<lparr>clock_reads := clock_reads (db_env d) + 1\<rparr>\<rparr>"
  from assms(2) obtain p where p: "List.find (\<lambda>r. jr_id r = i) (db_jobs d) = Some p"
    and run: "outcome (jr_id p) (failed_row (next_status p) cls msg ?now)
        (if next_status p = DeadLettered then DeadLettered else Failed) (Some cls) (Some msg) ?d = (Ok r, t)"
    by (auto simp: mark_failed_eq seq_Ok_iff [of "get_job_for_update i"] get_job_for_update_Ok)
  note idp = find_id [OF p inv [THEN conjunct2, THEN conjunct1]]
  have terminal: "status_is_terminal (if next_status p = DeadLettered then DeadLettered else Failed)"
    by (simp add: status_is_terminal_def)
  have uniq: "unique_key jr_id (db_jobs ?d)" using inv by simp
  obtain q where q: "q \<in> set (db_jobs d)" "jr_id q = i"
    and r: "r = failed_row (next_status p) cls msg ?now q"
    and jobs: "db_jobs t = update_rows (\<lambda>p. p = q) (\<lambda>_. r) (db_jobs d)"
    and att: "\<forall>a \<in> set (attempts_of t i). at_attempt_number a = jr_attempts q \<longrightarrow>
          at_status a = job_status_as_str (if next_status p = DeadLettered then DeadLettered else Failed)
          \<and> at_finished_at a \<noteq> None"
    using outcome_jobs [OF run uniq same_identity_rows(3) outcome_attempts(3)] terminal idp(2) by auto
  have "q = p" using idp(3) [OF q(1)] q(2) by simp
  with r have "r = q\<lparr>jr_status := (if jr_attempts q \<ge> jr_max_attempts q then ''dead_lettered'' else ''queued''),
            jr_leased_by := None, jr_lease_expires_at := None, jr_error_class := Some cls,
            jr_error_message := Some msg, jr_updated_at := ?now\<rparr>"
    by (simp add: failed_row_def next_status_def)
  with q jobs att \<open>q = p\<close> show ?thesis
    by (intro bexI [of _ q] exI [of _ ?now]) (auto simp: next_status_def)
qed

text \<open>C30 on the leased sample, whose only attempt is its last.\<close>

definition failed_db :: db where "failed_db = snd (mark_failed 7 ''E'' ''m'' leased_db)"

theorem mark_failed_retries_until_max_witness:
  "\<exists>r. fst (mark_failed 7 ''E'' ''m'' leased_db) = Ok r \<and> jr_id r = 7 \<and> jr_error_class r = Some ''E''
     \<and> (jr_status r = ''dead_lettered'' \<or> jr_status r = ''queued'')"
proof -
  have "is_ok (fst (mark_failed 7 ''E'' ''m'' leased_db))" by code_simp
  then obtain r where r: "mark_failed 7 ''E'' ''m'' leased_db = (Ok r, failed_db)"
    unfolding failed_db_def
    by (cases "mark_failed 7 ''E'' ''m'' leased_db"; cases "fst (mark_failed 7 ''E'' ''m'' leased_db)") auto
  from mark_failed_retries_until_max [OF queue_reachable_inv [OF leased_reachable] r]
  obtain q now where "jr_id q = 7" and "r = q\<lparr>jr_status := (if jr_attempts q \<ge> jr_max_attempts q then ''dead_lettered'' else ''queued''),
      jr_leased_by := None, jr_lease_expires_at := None, jr_error_class := Some ''E'',
      jr_error_message := Some ''m'', jr_updated_at := now\<rparr>"
    by blast
  with r show ?thesis by simp
qed

text \<open>Completing a job does not look at its lease: whatever the status of the job, whoever holds it and
  even when it was never leased, a worker that reports success makes it succeeded and clears the
  lease, so a worker whose lease has expired completes a job that another worker is running.\<close>

theorem mark_succeeded_ignores_lease:
  assumes "queue_inv d" and "pool_available (db_env d)" and "q \<in> set (db_jobs d)"
  shows "\<exists>t now. mark_succeeded (jr_id q) d
      = (Ok (q\<lparr>jr_status := ''succeeded'', jr_leased_by := None, jr_lease_expires_at := None,
               jr_updated_at := now\<rparr>), t)"
proof -
  note inv = assms(1) [unfolded queue_inv_def]
  let ?now = "clock (db_env d) (clock_reads (db_env d))"
  let ?d = "d\<lparr>db_env := (db_env d)\<lparr>clock_reads := clock_reads (db_env d) + 1\<rparr>\<rparr>"
  have find: "List.find (\<lambda>r. jr_id r = jr_id q) (db_jobs d) = Some q"
    by (rule find_unique_key [OF inv [THEN conjunct2, THEN conjunct1] assms(3)])
  have chk: "job_check (succeeded_row ?now q)"
    using inv assms(3) by (auto simp: job_check_def succeeded_row_def)
  have upd: "update_job (jr_id q) (succeeded_row ?now) ?d = (Ok (succeeded_row ?now q),
      ?d\<lparr>db_jobs := update_rows (\<lambda>r. jr_id r = jr_id q) (succeeded_row ?now) (db_jobs d)\<rparr>)"
    using find chk by (simp add: update_job_def)
  obtain c u where "update_attempt_status (jr_id q) (jr_attempts q) Succeeded None None
      (?d\<lparr>db_jobs := update_rows (\<lambda>r. jr_id r = jr_id q) (succeeded_row ?now) (db_jobs d)\<rparr>) = (Ok c, u)"
    using update_attempt_run by blast
  with upd assms(2) have "mark_succeeded (jr_id q) d = (Ok (succeeded_row ?now q), u)"
    by (simp add: mark_succeeded_def pg_transaction_def transaction_def seq_apply [of "update_job _ _"]
        seq_apply [of "update_attempt_status _ _ _ _ _"] succeeded_row_def ret_def)
  then show ?thesis by (auto simp: succeeded_row_def)
qed

text \<open>On the job that waits in the queue and was never leased.\<close>

theorem mark_succeeded_ignores_lease_witness:
  "\<exists>r t. mark_succeeded (jr_id (hd (db_jobs queued_db))) queued_db = (Ok r, t) \<and> jr_status r = ''succeeded''"
proof -
  have "pool_available (db_env queued_db)" and "db_jobs queued_db \<noteq> []" by code_simp+
  then show ?thesis
    using mark_succeeded_ignores_lease [OF queue_reachable_inv [OF queued_reachable], of "hd (db_jobs queued_db)"]
    by fastforce
qed

section \<open>The planner on the PostgreSQL repository\<close>

definition range_key_of :: "new_range_job \<Rightarrow> uuid \<times> string \<times> int \<times> int" where
  "range_key_of j = (nj_source_id j, job_type_as_str (nj_job_type j), nj_from_block j, nj_to_block j)"

definition job_stored :: "db \<Rightarrow> new_range_job \<Rightarrow> bool" where
  "job_stored d j \<longleftrightarrow> (\<exists>r \<in> set (db_jobs d).
     jr_idempotency_key r = nj_idempotency_key j \<or> job_range_key r = Some (range_key_of j))"

definition job_accepted :: "db \<Rightarrow> new_range_job \<Rightarrow> bool" where
  "job_accepted d j \<longleftrightarrow> pool_available (db_env d)
     \<and> 0 \<le> nj_from_block j \<and> nj_from_block j \<le> nj_to_block j \<and> 0 < nj_max_attempts j"

definition range_new_job :: "new_range_job \<Rightarrow> uuid \<Rightarrow> new_job" where
  "range_new_job j i = \<lparr>nw_id = i, nw_job_type = nj_job_type j, nw_source_id = Some (nj_source_id j),
     nw_chain_id = nj_chain_id j, nw_from_block = Some (nj_from_block j), nw_to_block = Some (nj_to_block j),
     nw_idempotency_key = nj_idempotency_key j, nw_max_attempts = nj_max_attempts j\<rparr>"

lemma enqueue_range_eq:
  "enqueue_range_job j = seq new_uuid (\<lambda>i. seq (enqueue (range_new_job j i)) (\<lambda>result.
     ret (case result of EnqInserted _ \<Rightarrow> Inserted | EnqExisting _ \<Rightarrow> Existing)))"
  by (simp add: enqueue_range_job_def new_job_new_def seq_assoc with_max_attempts_def with_range_def
      with_source_def range_new_job_def fun_eq_iff)

lemma range_job_type: "job_type_as_str t \<in> {''INGEST_RANGE'', ''REPLAY_RANGE'', ''VERIFY_REORG'', ''REPAIR_CHECKPOINT''}"
  by (cases t) simp_all

lemma range_row:
  "job_range_key (new_job_row (range_new_job j i) m) = Some (range_key_of j)"
  "jr_idempotency_key (new_job_row (range_new_job j i) m) = nj_idempotency_key j"
  "job_check (new_job_row (range_new_job j i) m) \<longleftrightarrow>
     0 \<le> nj_from_block j \<and> nj_from_block j \<le> nj_to_block j \<and> 0 < nj_max_attempts j"
  using range_job_type [of "nj_job_type j"]
  by (auto simp: job_range_key_def new_job_row_def range_new_job_def range_key_of_def job_check_def opt_nonneg_def)

lemma enqueue_range_cases:
  assumes "enqueue_range_job j d = (Ok x, t)"
  obtains (inserted) row where "x = Inserted" and "job_accepted d j" and "\<not> job_stored d j"
      and "db_jobs t = db_jobs d @ [row]" and "jr_idempotency_key row = nj_idempotency_key j"
      and "job_range_key row = Some (range_key_of j)" and "db_checkpoints t = db_checkpoints d" and "tick d (db_env t)"
    | (existing) "x = Existing" and "job_accepted d j" and "job_stored d j" and "tables t = tables d" and "tick d (db_env t)"
proof -
  let ?i = "uuid_supply (db_env d) (uuids_used (db_env d))"
  let ?d = "d\<lparr>db_env := (db_env d)\<lparr>uuids_used := uuids_used (db_env d) + 1\<rparr>\<rparr>"
  let ?row = "new_job_row (range_new_job j ?i) (clock (db_env d) (clock_reads (db_env d)))"
  from assms obtain y where run: "enqueue (range_new_job j ?i) ?d = (Ok y, t)"
    and x: "x = (case y of EnqInserted _ \<Rightarrow> Inserted | EnqExisting _ \<Rightarrow> Existing)"
    by (auto simp: enqueue_range_eq seq_Ok_iff)
  have acc: "job_accepted d j"
    using run range_row(3) by (auto simp: job_accepted_def enqueue_def Let_def seq_Ok_iff [of "lift _"])
  have t: "tick d (db_env t)"
    using steadyD [OF steady_queue(1) run] by (simp add: tick_def)
  show thesis
    using run
  proof (cases rule: enqueue_cases)
    case (inserted row e)
    then have "\<not> job_stored d j"
      using range_row(1,2) by (auto simp: no_conflict job_stored_def image_iff)
    with inserted acc t x that(1) show thesis using range_row(1,2) by simp
  next
    case (existing row r e)
    then have "job_stored d j"
      using range_row(1) by (auto simp: job_stored_def same_range_def range_new_job_def)
    with existing acc t x that(2) show thesis by simp
  qed
qed

lemma enqueue_range_again:
  assumes "job_accepted d j" and "job_stored d j"
  shows "\<exists>t. enqueue_range_job j d = (Ok Existing, t)"
proof -
  let ?i = "uuid_supply (db_env d) (uuids_used (db_env d))"
  let ?d = "d\<lparr>db_env := (db_env d)\<lparr>uuids_used := uuids_used (db_env d) + 1\<rparr>\<rparr>"
  let ?row = "new_job_row (range_new_job j ?i) (clock (db_env ?d) (clock_reads (db_env ?d)))"
  from assms(2) obtain p where p: "p \<in> set (db_jobs ?d)"
    and k: "jr_idempotency_key p = nj_idempotency_key j \<or> job_range_key p = Some (range_key_of j)"
    by (auto simp: job_stored_def)
  have "nw_idempotency_key (range_new_job j ?i) = nj_idempotency_key j"
    by (simp add: range_new_job_def)
  with k have "jr_idempotency_key p = nw_idempotency_key (range_new_job j ?i) \<or> same_range p ?row"
    using range_row(1) [of j ?i] by (cases "job_range_key p") (simp_all add: same_range_def)
  with p obtain r e where "enqueue (range_new_job j ?i) ?d = (Ok (EnqExisting r), ?d\<lparr>db_env := e\<rparr>)"
    using conflict_existing [of "range_new_job j ?i" ?d p] assms(1) range_row(3)
    by (auto simp: job_accepted_def)
  then show ?thesis
    by (simp add: enqueue_range_eq seq_apply [of "enqueue _"] ret_def)
qed

lemma checkpoint_for_source_reads: "checkpoint_for_source sid d = (r, t) \<Longrightarrow> t = d"
  by (cases "pool_available (db_env d)")
    (auto simp: checkpoint_for_source_def checkpoint_row_for_source_def seq_assoc)

lemma checkpoint_same:
  "tick d (db_env t) \<Longrightarrow> db_checkpoints t = db_checkpoints d \<Longrightarrow>
     fst (checkpoint_for_source sid t) = fst (checkpoint_for_source sid d)"
  by (cases "pool_available (db_env d)")
    (simp_all add: checkpoint_for_source_def checkpoint_row_for_source_def seq_assoc tick_def ret_def)

interpretation pq: backfill_store checkpoint_for_source enqueue_range_job job_stored job_accepted tables
proof
  fix sid j i s r t e
  show "checkpoint_for_source sid s = (r, t) \<Longrightarrow> t = s"
    by (rule checkpoint_for_source_reads)
  show "enqueue_range_job j s = (Ok Inserted, t) \<Longrightarrow> \<not> job_stored s j \<and> job_stored t j"
    by (erule enqueue_range_cases) (auto simp: job_stored_def)
  show "enqueue_range_job j s = (Ok Existing, t) \<Longrightarrow> tables t = tables s \<and> job_stored s j"
    by (erule enqueue_range_cases) auto
  show "enqueue_range_job j s = (Ok e, t) \<Longrightarrow> job_stored s i \<Longrightarrow> job_stored t i"
    by (erule enqueue_range_cases) (auto simp: job_stored_def tables_eq_iff)
  show "enqueue_range_job j s = (Ok e, t) \<Longrightarrow> job_accepted s j \<and> (job_accepted t i \<longleftrightarrow> job_accepted s i)"
    by (erule enqueue_range_cases) (auto simp: job_accepted_def tick_def)
  show "enqueue_range_job j s = (Ok e, t) \<Longrightarrow>
      fst (checkpoint_for_source sid t) = fst (checkpoint_for_source sid s)"
    by (erule enqueue_range_cases) (auto intro!: checkpoint_same simp: tables_eq_iff)
  show "job_accepted s j \<Longrightarrow> job_stored s j \<Longrightarrow> \<exists>t. enqueue_range_job j s = (Ok Existing, t)"
    by (rule enqueue_range_again)
qed

lemma pq_repo: "pq.repo = postgres_backfill_repository"
  by (simp add: pq.repo_def postgres_backfill_repository_def)


text \<open>Planning the same backfill again after it succeeded succeeds with the same chunks, inserts no job
  and changes no table.\<close>

theorem plan_backfill_idempotent:
  assumes "plan_backfill_jobs postgres_backfill_repository c source from to width n d = (Ok p, t)"
  shows "\<exists>u. plan_backfill_jobs postgres_backfill_repository c source from to width n t
      = (Ok (p\<lparr>bp_inserted_jobs := 0, bp_existing_jobs := length (bp_ranges p)\<rparr>), u) \<and> tables u = tables t"
  by (rule pq.plan_again [unfolded pq_repo, OF assms])

section \<open>A sample plan\<close>

definition sample_source :: source_ref where
  "sample_source = \<lparr>sr_id = 5, sr_chain_id = 1, sr_contract_address = ''0xc'', sr_token_standard = ''erc20''\<rparr>"

definition source_db :: db where
  "source_db = empty_db\<lparr>db_sources := [\<lparr>so_id = 5, so_chain_id = 1, so_name = ''s'',
     so_contract_address = ''0xc'', so_token_standard = ''erc20'', so_start_block = 0, so_enabled = True,
     so_created_at = 0\<rparr>]\<rparr>"

definition planned_db :: db where
  "planned_db = snd (plan_backfill_jobs postgres_backfill_repository sample_crates sample_source 10 14 3 2 source_db)"

lemma planned_ok: "is_ok (fst (plan_backfill_jobs postgres_backfill_repository sample_crates sample_source 10 14 3 2 source_db))"
  by code_simp

lemma sample_plan:
  obtains p where "plan_backfill_jobs postgres_backfill_repository sample_crates sample_source 10 14 3 2 source_db = (Ok p, planned_db)"
  using planned_ok unfolding planned_db_def
  by (cases "plan_backfill_jobs postgres_backfill_repository sample_crates sample_source 10 14 3 2 source_db";
      cases "fst (plan_backfill_jobs postgres_backfill_repository sample_crates sample_source 10 14 3 2 source_db)") auto


text \<open>On the sample plan.\<close>

theorem plan_backfill_idempotent_witness:
  "\<exists>p u. plan_backfill_jobs postgres_backfill_repository sample_crates sample_source 10 14 3 2 planned_db = (Ok p, u)
     \<and> bp_inserted_jobs p = 0 \<and> tables u = tables planned_db"
proof -
  obtain p where p: "plan_backfill_jobs postgres_backfill_repository sample_crates sample_source 10 14 3 2 source_db
      = (Ok p, planned_db)"
    by (rule sample_plan)
  from plan_backfill_idempotent [OF p] show ?thesis by fastforce
qed

end
