(* ===== verification/Checkpoints.thy ===== *)
theory Checkpoints
  imports Ledger_Write Queue_Spec
begin

text \<open>
  Checkpoints (src/infra/postgres/ledger_repository.rs): advancing a checkpoint, the target the
  contiguous finished ranges allow, and what both promise.
\<close>

section \<open>Operations\<close>

definition insert_checkpoint :: "checkpoint_row \<Rightarrow> checkpoint_row db_prog" where
  "insert_checkpoint row = (\<lambda>d.
     if \<not> checkpoint_check row then (Err (CheckViolation ''checkpoints''), d)
     else if ck_id row \<in> ck_id ` set (db_checkpoints d) then (Err (UniqueViolation ''checkpoints''), d)
     else if \<not> has_source d (ck_source_id row) then (Err (ForeignKeyViolation ''checkpoints''), d)
     else (Ok row, d\<lparr>db_checkpoints := db_checkpoints d @ [row]\<rparr>))"

definition update_checkpoint :: "checkpoint_row \<Rightarrow> (checkpoint_row \<Rightarrow> checkpoint_row) \<Rightarrow> checkpoint_row db_prog" where
  "update_checkpoint existing f = (\<lambda>d.
     if \<not> checkpoint_check (f existing) then (Err (CheckViolation ''checkpoints''), d)
     else (Ok (f existing), d\<lparr>db_checkpoints := update_rows (\<lambda>r. ck_id r = ck_id existing) f (db_checkpoints d)\<rparr>))"

definition advance_checkpoint :: "uuid \<Rightarrow> int \<Rightarrow> string \<Rightarrow> int \<Rightarrow> checkpoint_row db_prog" where
  "advance_checkpoint sid processed hash finalized =
     (if processed < 0 then throw (CannotBeNegative ''processed block'')
      else if finalized < 0 then throw (CannotBeNegative ''finalized block'')
      else if processed > finalized then throw (CheckpointAhead processed finalized)
      else
        seq connection (\<lambda>_. pg_transaction (
          seq (reads (\<lambda>d. List.find (\<lambda>r. ck_source_id r = sid) (db_checkpoints d))) (\<lambda>existing.
          case existing of
            None \<Rightarrow>
              seq new_uuid (\<lambda>i.
              seq utc_now (\<lambda>now.
                insert_checkpoint \<lparr>ck_id = i, ck_source_id = sid, ck_processed_block = processed,
                  ck_processed_block_hash = to_ascii_lowercase hash, ck_finalized_block = finalized,
                  ck_updated_at = now\<rparr>))
          | Some existing \<Rightarrow>
              let hash = to_ascii_lowercase hash in
              if processed = ck_processed_block existing \<and> hash \<noteq> ck_processed_block_hash existing
              then throw (CheckpointHashMismatch processed (ck_processed_block_hash existing) hash)
              else if processed < ck_processed_block existing \<and> finalized \<le> ck_finalized_block existing
              then ret existing
              else
                seq utc_now (\<lambda>now.
                  update_checkpoint existing (\<lambda>r.
                    r\<lparr>ck_processed_block := max (ck_processed_block existing) processed,
                      ck_processed_block_hash :=
                        (if processed > ck_processed_block existing then hash else ck_processed_block_hash existing),
                      ck_finalized_block := max (ck_finalized_block existing) finalized,
                      ck_updated_at := now\<rparr>))))))"

fun extend_target :: "int \<Rightarrow> (int \<times> int) list \<Rightarrow> int" where
  "extend_target target [] = target"
| "extend_target target ((from, to) # ranges) =
     (if from \<le> i64_saturating_add target 1 \<and> to > target then extend_target to ranges
      else extend_target target ranges)"

definition succeeded_ranges :: "uuid \<Rightarrow> int \<Rightarrow> job_row list \<Rightarrow> (int \<times> int) list" where
  "succeeded_ranges sid frontier jobs =
     concat (map (\<lambda>r. case (jr_from_block r, jr_to_block r) of (Some f, Some t) \<Rightarrow> [(f, t)] | _ \<Rightarrow> [])
       (filter (\<lambda>r. jr_source_id r = Some sid \<and> jr_job_type r = job_type_as_str IngestRange
           \<and> jr_status r = job_status_as_str Succeeded
           \<and> (case jr_to_block r of None \<Rightarrow> False | Some t \<Rightarrow> t > frontier)) jobs))"

definition range_le :: "int \<times> int \<Rightarrow> int \<times> int \<Rightarrow> bool" where
  "range_le a b \<longleftrightarrow> fst a < fst b \<or> fst a = fst b \<and> snd a \<le> snd b"

definition next_contiguous_checkpoint_target ::
  "source_row \<Rightarrow> (int \<times> int) option \<Rightarrow> int option db_prog"
where
  "next_contiguous_checkpoint_target source completed =
     seq (lift (case completed of
         None \<Rightarrow> Ok ()
       | Some (from, to) \<Rightarrow>
           if from < 0 \<or> to < 0 then Err (CannotBeNegative ''completed range'')
           else if from > to then Err (InvertedSignedRange from to) else Ok ())) (\<lambda>_.
     seq connection (\<lambda>_. pg_transaction (
       seq (reads (\<lambda>d. List.find (\<lambda>r. ck_source_id r = so_id source) (db_checkpoints d))) (\<lambda>checkpoint.
       let frontier = (case checkpoint of Some r \<Rightarrow> ck_processed_block r | None \<Rightarrow> so_start_block source - 1) in
       seq (reads (\<lambda>d. succeeded_ranges (so_id source) frontier (db_jobs d))) (\<lambda>ranges.
       let ranges = sort_by range_le (ranges @ (case completed of None \<Rightarrow> [] | Some r \<Rightarrow> [r]));
           target = extend_target frontier ranges
       in ret (if target > frontier then Some target else None))))))"

section \<open>The target is the end of the contiguous blocks\<close>

definition covered :: "(int \<times> int) list \<Rightarrow> int \<Rightarrow> bool" where
  "covered ranges b \<longleftrightarrow> (\<exists>(f, t) \<in> set ranges. f \<le> b \<and> b \<le> t)"

lemma covered_simps [simp]:
  "covered [] b \<longleftrightarrow> False"
  "covered ((f, t) # rs) b \<longleftrightarrow> f \<le> b \<and> b \<le> t \<or> covered rs b"
  "covered (rs @ qs) b \<longleftrightarrow> covered rs b \<or> covered qs b"
  by (auto simp: covered_def)

definition ranges_ok :: "(int \<times> int) list \<Rightarrow> bool" where
  "ranges_ok ranges \<longleftrightarrow> (\<forall>(f, t) \<in> set ranges. f \<le> t \<and> t \<le> i64_max)"

lemma saturating_succ: "i64_min \<le> a \<Longrightarrow> a < i64_max \<Longrightarrow> i64_saturating_add a 1 = a + 1"
  by (simp add: i64_saturating_add_def i64_saturate_def int_range_defs)

lemma extend_target_ge: "target \<le> extend_target target ranges"
  by (induction target ranges rule: extend_target.induct) auto

lemma extend_target_max: "target \<le> i64_max \<Longrightarrow> ranges_ok ranges \<Longrightarrow> extend_target target ranges \<le> i64_max"
  by (induction target ranges rule: extend_target.induct) (auto simp: ranges_ok_def)

lemma extend_target_sound:
  assumes "ranges_ok ranges" and "i64_min \<le> target" and "target \<le> i64_max"
  shows "target < b \<Longrightarrow> b \<le> extend_target target ranges \<Longrightarrow> covered ranges b"
  using assms
proof (induction target ranges rule: extend_target.induct)
  case (1 target)
  then show ?case by simp
next
  case (2 target f t ranges)
  have rest: "ranges_ok ranges" and t: "t \<le> i64_max"
    using "2.prems"(3) by (auto simp: ranges_ok_def)
  show ?case
  proof (cases "f \<le> i64_saturating_add target 1 \<and> t > target")
    case False
    then have "extend_target target ((f, t) # ranges) = extend_target target ranges" by auto
    with "2.IH"(2) [OF False] "2.prems" rest show ?thesis by simp
  next
    case True
    then have "target < i64_max" using t by simp
    then have f: "f \<le> target + 1"
      using True saturating_succ "2.prems"(4) by simp
    show ?thesis
    proof (cases "b \<le> t")
      case True
      with f "2.prems"(1) show ?thesis by simp
    next
      case False
      with True "2.IH"(1) [OF True] "2.prems" rest t show ?thesis by simp
    qed
  qed
qed

text \<open>With the ranges in order, nothing contiguous is missed.\<close>

lemma extend_target_maximal:
  assumes "sorted_wrt range_le ranges" and "ranges_ok ranges" and "i64_min \<le> target" and "target < i64_max"
    and "extend_target target ranges < i64_max"
  shows "\<not> covered ranges (extend_target target ranges + 1)"
  using assms
proof (induction target ranges rule: extend_target.induct)
  case (1 target)
  then show ?case by simp
next
  case (2 target f t ranges)
  have sorted: "sorted_wrt range_le ranges" and rest: "ranges_ok ranges" and ft: "f \<le> t" "t \<le> i64_max"
    using "2.prems"(1,2) by (auto simp: ranges_ok_def)
  have later: "f \<le> f'" if "(f', t') \<in> set ranges" for f' t'
    using "2.prems"(1) that by (force simp: range_le_def)
  show ?case
  proof (cases "f \<le> i64_saturating_add target 1 \<and> t > target")
    case True
    then have step: "extend_target target ((f, t) # ranges) = extend_target t ranges" by simp
    have "t \<le> extend_target t ranges" by (rule extend_target_ge)
    then have "t < i64_max" using "2.prems"(5) step by simp
    moreover have "i64_min \<le> t" using True "2.prems"(3) by simp
    ultimately have "\<not> covered ranges (extend_target t ranges + 1)"
      using "2.IH"(1) [OF True sorted rest] "2.prems"(5) step by simp
    with step extend_target_ge [of t ranges] show ?thesis by simp
  next
    case False
    then have step: "extend_target target ((f, t) # ranges) = extend_target target ranges" by auto
    with "2.IH"(2) [OF False sorted rest] "2.prems"(3-5)
    have none: "\<not> covered ranges (extend_target target ranges + 1)" by simp
    have "\<not> (f \<le> extend_target target ranges + 1 \<and> extend_target target ranges + 1 \<le> t)"
    proof (cases "f \<le> target + 1")
      case True
      then have "t \<le> target"
        using False saturating_succ [OF "2.prems"(3,4)] by simp
      with extend_target_ge [of target ranges] show ?thesis by simp
    next
      case gap: False
      have "extend_target target ranges = target"
      proof -
        have "extend_target target rs = target" if "\<And>f' t'. (f', t') \<in> set rs \<Longrightarrow> target + 1 < f'" for rs
          using that
        proof (induction rs)
          case Nil
          show ?case by simp
        next
          case (Cons p rs)
          then show ?case
            using saturating_succ [OF "2.prems"(3,4)] by (cases p) fastforce
        qed
        with later gap show ?thesis by fastforce
      qed
      with gap show ?thesis by simp
    qed
    with none step show ?thesis by simp
  qed
qed

definition finished :: "db \<Rightarrow> uuid \<Rightarrow> (int \<times> int) option \<Rightarrow> int \<Rightarrow> bool" where
  "finished d sid completed b \<longleftrightarrow>
     (\<exists>r \<in> set (db_jobs d). jr_source_id r = Some sid \<and> jr_job_type r = ''INGEST_RANGE'' \<and> jr_status r = ''succeeded''
        \<and> (\<exists>f t. jr_from_block r = Some f \<and> jr_to_block r = Some t \<and> f \<le> b \<and> b \<le> t))
     \<or> (\<exists>f t. completed = Some (f, t) \<and> f \<le> b \<and> b \<le> t)"

definition frontier_of :: "db \<Rightarrow> source_row \<Rightarrow> int" where
  "frontier_of d source =
     (case List.find (\<lambda>r. ck_source_id r = so_id source) (db_checkpoints d) of
        Some r \<Rightarrow> ck_processed_block r | None \<Rightarrow> so_start_block source - 1)"

definition bounded_jobs :: "db \<Rightarrow> bool" where
  "bounded_jobs d \<longleftrightarrow> (\<forall>r \<in> set (db_jobs d). job_check r \<and> (\<forall>t. jr_to_block r = Some t \<longrightarrow> t \<le> i64_max))"

lemma succeeded_ranges_iff:
  "(f, t) \<in> set (succeeded_ranges sid frontier jobs) \<longleftrightarrow>
     (\<exists>r \<in> set jobs. jr_source_id r = Some sid \<and> jr_job_type r = ''INGEST_RANGE'' \<and> jr_status r = ''succeeded''
        \<and> jr_from_block r = Some f \<and> jr_to_block r = Some t \<and> frontier < t)"
  by (force simp: succeeded_ranges_def split: option.splits)

lemma range_order:
  "range_le a b \<or> range_le b a"
  "range_le x y \<Longrightarrow> range_le y z \<Longrightarrow> range_le x z"
  by (auto simp: range_le_def)

text \<open>C20: The checkpoint target of a source is found without changing anything: it is absent exactly when the
  block after the frontier (the checkpoint, or the block before the start of the source) is not
  finished by a succeeded ingest job of the source or by the completed range, and otherwise every
  block after the frontier up to the target is finished and the block after the target is not.\<close>

theorem next_contiguous_checkpoint_target_exact:
  assumes "next_contiguous_checkpoint_target source completed d = (Ok x, t)"
    and "bounded_jobs d" and "i64_min \<le> frontier_of d source" and "frontier_of d source < i64_max"
    and "\<And>f u. completed = Some (f, u) \<Longrightarrow> u \<le> i64_max"
  shows "t = d \<and> (case x of
      None \<Rightarrow> \<not> finished d (so_id source) completed (frontier_of d source + 1)
    | Some b \<Rightarrow> frontier_of d source < b
        \<and> (\<forall>k. frontier_of d source < k \<and> k \<le> b \<longrightarrow> finished d (so_id source) completed k)
        \<and> (b < i64_max \<longrightarrow> \<not> finished d (so_id source) completed (b + 1)))"
proof -
  let ?F = "frontier_of d source"
  let ?rs = "succeeded_ranges (so_id source) ?F (db_jobs d) @ (case completed of None \<Rightarrow> [] | Some r \<Rightarrow> [r])"
  let ?rs' = "sort_by range_le ?rs"
  let ?T = "extend_target ?F ?rs'"
  from assms(1) have t: "t = d" and x: "x = (if ?T > ?F then Some ?T else None)"
    and ok: "\<forall>f u. completed = Some (f, u) \<longrightarrow> f \<le> u"
    by (auto simp: next_contiguous_checkpoint_target_def frontier_of_def Let_def seq_Ok_iff split: option.splits if_splits)
  have mem: "(f, u) \<in> set ?rs' \<longleftrightarrow> (f, u) \<in> set (succeeded_ranges (so_id source) ?F (db_jobs d)) \<or> completed = Some (f, u)" for f u
    by (auto split: option.splits)
  have rok: "ranges_ok ?rs'"
    unfolding ranges_ok_def
  proof (clarify)
    fix f u assume "(f, u) \<in> set ?rs'"
    then show "f \<le> u \<and> u \<le> i64_max"
      unfolding mem succeeded_ranges_iff using assms(2,5) ok by (fastforce simp: bounded_jobs_def job_check_def)
  qed
  have sorted: "sorted_wrt range_le ?rs'"
    by (rule sorted_sort_by) (rule range_order, rule range_order)
  have fin: "finished d (so_id source) completed k \<longleftrightarrow> covered ?rs' k" if "?F < k" for k
  proof -
    have "covered ?rs' k \<longleftrightarrow> (\<exists>f u. (f, u) \<in> set ?rs' \<and> f \<le> k \<and> k \<le> u)"
      by (auto simp: covered_def)
    then show ?thesis
      unfolding mem succeeded_ranges_iff finished_def using that by fastforce
  qed
  have max: "\<not> covered ?rs' (?T + 1)" if "?T < i64_max"
    by (rule extend_target_maximal [OF sorted rok assms(3,4) that])
  show ?thesis
  proof (cases "?T > ?F")
    case True
    have "finished d (so_id source) completed k" if "?F < k" "k \<le> ?T" for k
      using extend_target_sound [OF rok assms(3) _ that] assms(4) fin [OF that(1)] by simp
    with True t x max fin [of "?T + 1"] show ?thesis by auto
  next
    case False
    with extend_target_ge [of ?F ?rs'] have "?T = ?F" by simp
    with False t x max assms(4) fin [of "?F + 1"] show ?thesis by auto
  qed
qed

definition done_job :: job_row where
  "done_job = (new_job_row (sample_new_job\<lparr>nw_source_id := Some 5\<rparr>) 0)\<lparr>jr_status := ''succeeded''\<rparr>"

definition done_db :: db where "done_db = source_db\<lparr>db_jobs := [done_job]\<rparr>"

definition sample_source_row :: source_row where
  "sample_source_row = \<lparr>so_id = 5, so_chain_id = 1, so_name = ''s'', so_contract_address = ''0xc'',
     so_token_standard = ''erc20'', so_start_block = 10, so_enabled = True, so_created_at = 0\<rparr>"

text \<open>C20 at a source that starts at block 10 and has finished blocks 10 to 19 and 20 to 24.\<close>

theorem next_contiguous_checkpoint_target_exact_witness:
  "next_contiguous_checkpoint_target sample_source_row (Some (20, 24)) done_db = (Ok (Some 24), done_db)
     \<and> finished done_db 5 (Some (20, 24)) 13 \<and> \<not> finished done_db 5 (Some (20, 24)) 25"
proof -
  have run: "next_contiguous_checkpoint_target sample_source_row (Some (20, 24)) done_db = (Ok (Some 24), done_db)"
    by (simp add: next_contiguous_checkpoint_target_def done_db_def source_db_def empty_db_def sample_env_def
        sample_source_row_def succeeded_ranges_def done_job_def new_job_row_def sample_new_job_def Let_def
        sort_by_def range_le_def i64_saturating_add_def i64_saturate_def int_range_defs pg_transaction_def
        transaction_def ret_def)
  have f: "frontier_of done_db sample_source_row = 9"
    by (simp add: frontier_of_def done_db_def source_db_def empty_db_def sample_source_row_def)
  have "bounded_jobs done_db"
    by (simp add: bounded_jobs_def done_db_def done_job_def new_job_row_def sample_new_job_def job_check_def
        opt_nonneg_def int_range_defs)
  from next_contiguous_checkpoint_target_exact [OF run this] f
  have "\<forall>k. 9 < k \<and> k \<le> 24 \<longrightarrow> finished done_db 5 (Some (20, 24)) k" and "\<not> finished done_db 5 (Some (20, 24)) 25"
    by (auto simp: int_range_defs sample_source_row_def)
  with run show ?thesis by simp
qed

section \<open>Checkpoints only advance\<close>

definition checkpoints_inv :: "db \<Rightarrow> bool" where
  "checkpoints_inv d \<longleftrightarrow> unique_key ck_source_id (db_checkpoints d) \<and> unique_key ck_id (db_checkpoints d)
     \<and> (\<forall>r \<in> set (db_checkpoints d). checkpoint_check r)"

definition not_behind :: "checkpoint_row \<Rightarrow> checkpoint_row \<Rightarrow> bool" where
  "not_behind old new \<longleftrightarrow> ck_source_id new = ck_source_id old
     \<and> ck_processed_block old \<le> ck_processed_block new \<and> ck_finalized_block old \<le> ck_finalized_block new
     \<and> (ck_processed_block new = ck_processed_block old \<longrightarrow> ck_processed_block_hash new = ck_processed_block_hash old)"

lemma advance_cases:
  assumes "advance_checkpoint sid p h f d = (Ok r, t)"
  obtains (inserted) i now e where "List.find (\<lambda>r. ck_source_id r = sid) (db_checkpoints d) = None"
      and "r = \<lparr>ck_id = i, ck_source_id = sid, ck_processed_block = p, ck_processed_block_hash = to_ascii_lowercase h,
               ck_finalized_block = f, ck_updated_at = now\<rparr>"
      and "checkpoint_check r" and "i \<notin> ck_id ` set (db_checkpoints d)"
      and "t = d\<lparr>db_env := e, db_checkpoints := db_checkpoints d @ [r]\<rparr>"
    | (kept) "List.find (\<lambda>r. ck_source_id r = sid) (db_checkpoints d) = Some r" and "t = d"
      and "p < ck_processed_block r" and "f \<le> ck_finalized_block r"
    | (advanced) old now e where "List.find (\<lambda>r. ck_source_id r = sid) (db_checkpoints d) = Some old"
      and "r = old\<lparr>ck_processed_block := max (ck_processed_block old) p,
                  ck_processed_block_hash := (if p > ck_processed_block old then to_ascii_lowercase h else ck_processed_block_hash old),
                  ck_finalized_block := max (ck_finalized_block old) f, ck_updated_at := now\<rparr>"
      and "checkpoint_check r"
      and "t = d\<lparr>db_env := e, db_checkpoints := update_rows (\<lambda>r. ck_id r = ck_id old)
               (\<lambda>r. r\<lparr>ck_processed_block := max (ck_processed_block old) p,
                  ck_processed_block_hash := (if p > ck_processed_block old then to_ascii_lowercase h else ck_processed_block_hash old),
                  ck_finalized_block := max (ck_finalized_block old) f, ck_updated_at := now\<rparr>) (db_checkpoints d)\<rparr>"
      and "p \<noteq> ck_processed_block old \<or> to_ascii_lowercase h = ck_processed_block_hash old"
proof (cases "List.find (\<lambda>r. ck_source_id r = sid) (db_checkpoints d)")
  case None
  with assms show thesis
    by (intro inserted) (auto simp: advance_checkpoint_def insert_checkpoint_def split: if_splits)
next
  case (Some old)
  show thesis
  proof (cases "p < ck_processed_block old \<and> f \<le> ck_finalized_block old")
    case True
    with Some assms show thesis
      by (intro kept) (auto simp: advance_checkpoint_def Let_def split: if_splits)
  next
    case False
    with Some assms show thesis
      by (intro advanced) (auto simp: advance_checkpoint_def update_checkpoint_def Let_def split: if_splits)
  qed
qed

lemma find_source_None: "List.find (\<lambda>r. ck_source_id r = sid) cs = None \<longleftrightarrow> sid \<notin> ck_source_id ` set cs"
  by (auto simp: find_None_set)

lemma not_behind_refl [simp]: "not_behind r r"
  by (simp add: not_behind_def)

lemma not_behind_self: "r \<in> set rows \<Longrightarrow> \<exists>r' \<in> set rows. not_behind r r'"
  by (rule bexI [of _ r]) simp_all

lemma not_behind_update:
  assumes old: "old \<in> set rows" and ids: "unique_key ck_id rows" and ahead: "not_behind old (f old)"
  shows "\<forall>r \<in> set rows. \<exists>r' \<in> set (update_rows (\<lambda>r. ck_id r = ck_id old) f rows). not_behind r r'"
proof
  fix r assume r: "r \<in> set rows"
  show "\<exists>r' \<in> set (update_rows (\<lambda>r. ck_id r = ck_id old) f rows). not_behind r r'"
  proof (cases "ck_id r = ck_id old")
    case True
    then have "r = old" by (rule unique_key_eq [OF ids r old])
    with r ahead True show ?thesis
      by (intro bexI [of _ "f r"]) (auto simp: in_update_rows)
  next
    case False
    with r show ?thesis
      by (intro bexI [of _ r]) (auto simp: in_update_rows)
  qed
qed

lemma update_checkpoint_inv:
  assumes inv: "checkpoints_inv d" and old: "old \<in> set (db_checkpoints d)" and ok: "checkpoint_check (f old)"
    and f: "\<And>r. ck_id (f r) = ck_id r" "\<And>r. ck_source_id (f r) = ck_source_id r"
    and t: "db_checkpoints t = update_rows (\<lambda>r. ck_id r = ck_id old) f (db_checkpoints d)"
  shows "checkpoints_inv t"
  unfolding checkpoints_inv_def t
proof (intro conjI ballI)
  show "unique_key ck_source_id (update_rows (\<lambda>r. ck_id r = ck_id old) f (db_checkpoints d))"
    and "unique_key ck_id (update_rows (\<lambda>r. ck_id r = ck_id old) f (db_checkpoints d))"
    using inv f by (simp_all add: unique_key_update checkpoints_inv_def)
  fix r assume "r \<in> set (update_rows (\<lambda>r. ck_id r = ck_id old) f (db_checkpoints d))"
  then obtain q where q: "q \<in> set (db_checkpoints d)" "r = (if ck_id q = ck_id old then f q else q)"
    by (auto simp: in_update_rows)
  moreover have "q = old" if "ck_id q = ck_id old"
    using inv q(1) old that by (auto simp: checkpoints_inv_def intro: unique_key_eq)
  ultimately show "checkpoint_check r"
    using inv ok by (auto simp: checkpoints_inv_def)
qed

text \<open>C21: Advancing a checkpoint never moves any checkpoint backwards: afterwards every stored checkpoint is
  still there for its source, with a processed and a finalized block at least as high and, if the
  processed block is the same, the same hash; the checkpoints stay one per source and within their
  constraints, and the one returned is stored and has reached the finalized block asked for, or the
  call changed nothing because it was entirely behind. A failed advance changes no table.\<close>

theorem advance_checkpoint_monotone:
  assumes "checkpoints_inv d" and "advance_checkpoint sid p h f d = (x, t)"
  shows "checkpoints_inv t
    \<and> (\<forall>r \<in> set (db_checkpoints d). \<exists>r' \<in> set (db_checkpoints t). not_behind r r')
    \<and> (case x of
        Err _ \<Rightarrow> tables t = tables d
      | Ok r \<Rightarrow> r \<in> set (db_checkpoints t) \<and> ck_source_id r = sid
          \<and> p \<le> ck_processed_block r \<and> f \<le> ck_finalized_block r)"
proof (cases x)
  case (Inl e)
  have "safe (advance_checkpoint sid p h f)"
    unfolding advance_checkpoint_def
    by (intro safe_if safe_seq safe_transaction) (auto intro: safe_silent silent_intros)
  from safeD [OF this] assms(2) Inl have "tables t = tables d" by simp
  with assms(1) Inl show ?thesis
    by (auto simp: checkpoints_inv_def tables_eq_iff intro: not_behind_self)
next
  case (Inr r)
  with assms(2) have "advance_checkpoint sid p h f d = (Ok r, t)" by simp
  then show ?thesis
  proof (cases rule: advance_cases)
    case (inserted i now e)
    with assms(1) have "sid \<notin> ck_source_id ` set (db_checkpoints d)"
      by (simp add: find_source_None)
    with inserted assms(1) Inr show ?thesis
      by (auto simp: checkpoints_inv_def intro: not_behind_self)
  next
    case kept
    with assms(1) Inr show ?thesis
      by (auto dest!: find_Some_set intro: not_behind_self)
  next
    case (advanced old now e)
    from find_Some_set [OF advanced(1)] have old: "old \<in> set (db_checkpoints d)" and s: "ck_source_id old = sid" by auto
    have ids: "unique_key ck_id (db_checkpoints d)" using assms(1) by (simp add: checkpoints_inv_def)
    have inv: "checkpoints_inv t"
      by (rule update_checkpoint_inv [OF assms(1) old]) (use advanced in auto)
    have ahead: "not_behind old r"
      using advanced(2,5) by (auto simp: not_behind_def max_def)
    have all: "\<forall>q \<in> set (db_checkpoints d). \<exists>q' \<in> set (db_checkpoints t). not_behind q q'"
      unfolding advanced(4) using not_behind_update [OF old ids] ahead advanced(2) by simp
    have "r \<in> set (db_checkpoints t)"
      unfolding advanced(4) using old advanced(2) by (auto simp: in_update_rows intro!: bexI [of _ old])
    with inv all Inr advanced(2) s show ?thesis by auto
  qed
qed

definition checkpoint_db :: db where
  "checkpoint_db = source_db\<lparr>db_checkpoints := [\<lparr>ck_id = 40, ck_source_id = 5, ck_processed_block = 9,
     ck_processed_block_hash = ''0xaa'', ck_finalized_block = 12, ck_updated_at = 0\<rparr>]\<rparr>"

text \<open>C21 at a checkpoint of block 9 that a later range advances to block 15.\<close>

theorem advance_checkpoint_monotone_witness:
  "is_ok (fst (advance_checkpoint 5 15 ''0xBB'' 20 checkpoint_db))
     \<and> (\<exists>r \<in> set (db_checkpoints (snd (advance_checkpoint 5 15 ''0xBB'' 20 checkpoint_db))).
          ck_source_id r = 5 \<and> 15 \<le> ck_processed_block r \<and> 20 \<le> ck_finalized_block r)"
proof -
  obtain x t where run: "advance_checkpoint 5 15 ''0xBB'' 20 checkpoint_db = (x, t)"
    by (cases "advance_checkpoint 5 15 ''0xBB'' 20 checkpoint_db")
  have ok: "is_ok (fst (advance_checkpoint 5 15 ''0xBB'' 20 checkpoint_db))" by code_simp
  have "checkpoints_inv checkpoint_db"
    by (simp add: checkpoints_inv_def checkpoint_db_def checkpoint_check_def)
  from advance_checkpoint_monotone [OF this run] ok run show ?thesis
    by (auto split: sum.splits)
qed

end
