(* ===== verification/Ledger_Laws.thy ===== *)
theory Ledger_Laws
  imports Ledger_Write Job_Laws
begin

text \<open>
  Laws of the ledger's writes: what one balance change does, that the changes of an entry add up to
  the difference of its movements, and the invariant that every stored balance is the sum of the
  movements of the entries that are not orphaned.
\<close>

section \<open>Movements and stored balances\<close>

definition moved :: "uuid \<Rightarrow> string \<Rightarrow> string \<Rightarrow> ledger_row \<Rightarrow> int" where
  "moved sid holder token r =
     (if le_orphaned r \<or> le_source_id r \<noteq> sid \<or> le_token_id r \<noteq> token then 0
      else (if le_to_address r = Some holder then le_amount r else 0)
         - (if le_from_address r = Some holder then le_amount r else 0))"

definition net :: "ledger_row list \<Rightarrow> uuid \<Rightarrow> string \<Rightarrow> string \<Rightarrow> int" where
  "net entries sid holder token = sum_list (map (moved sid holder token) entries)"

definition stored :: "balance_row list \<Rightarrow> uuid \<Rightarrow> string \<Rightarrow> string \<Rightarrow> int" where
  "stored balances sid holder token =
     (case List.find (\<lambda>r. balance_key r = (sid, holder, token)) balances of None \<Rightarrow> 0 | Some r \<Rightarrow> ba_balance r)"

definition balances_ok :: "db \<Rightarrow> bool" where
  "balances_ok d \<longleftrightarrow> unique_key ba_id (db_balances d) \<and> unique_key balance_key (db_balances d)
     \<and> (\<forall>r \<in> set (db_balances d). balance_check r \<and> has_source d (ba_source_id r))"

definition entries_ok :: "db \<Rightarrow> bool" where
  "entries_ok d \<longleftrightarrow> unique_key le_id (db_entries d) \<and> unique_key entry_key (db_entries d)
     \<and> (\<forall>r \<in> set (db_entries d). entry_check r)"

definition events_ok :: "db \<Rightarrow> bool" where
  "events_ok d \<longleftrightarrow> unique_key ev_id (db_events d) \<and> unique_key event_key (db_events d)
     \<and> (\<forall>r \<in> set (db_events d). event_check r \<and> has_source d (ev_source_id r))"

definition entries_linked :: "db \<Rightarrow> bool" where
  "entries_linked d \<longleftrightarrow>
     (\<forall>r \<in> set (db_entries d). le_event_id r \<in> ev_id ` set (db_events d) \<and> has_source d (le_source_id r))"

definition balances_match :: "db \<Rightarrow> bool" where
  "balances_match d \<longleftrightarrow> (\<forall>sid h k. stored (db_balances d) sid h k = net (db_entries d) sid h k)"

definition ledger_inv :: "db \<Rightarrow> bool" where
  "ledger_inv d \<longleftrightarrow> balances_ok d \<and> entries_ok d \<and> events_ok d \<and> entries_linked d \<and> balances_match d"

lemma net_append [simp]: "net (xs @ ys) sid h k = net xs sid h k + net ys sid h k"
  by (simp add: net_def)

lemma net_simps [simp]: "net [] sid h k = 0" "net (r # rs) sid h k = moved sid h k r + net rs sid h k"
  by (simp_all add: net_def)

lemma sum_list_insert_by: "sum_list (map g (insert_by le x xs)) = (g x + sum_list (map g xs) :: int)"
  by (induction xs) auto

lemma sum_list_sort_by: "sum_list (map g (sort_by le xs)) = (sum_list (map g xs) :: int)"
  by (induction xs) (simp_all add: sort_by_def sum_list_insert_by)

lemma stored_nonneg: "balances_ok d \<Longrightarrow> 0 \<le> stored (db_balances d) sid h k"
  by (auto simp: stored_def balances_ok_def balance_check_def split: option.splits dest!: find_Some_set)

lemma stored_append:
  "balance_key r \<notin> balance_key ` set rows \<Longrightarrow>
   stored (rows @ [r]) sid h k = stored rows sid h k + (if balance_key r = (sid, h, k) then ba_balance r else 0)"
  by (auto simp: stored_def find_append find_None_set image_iff split: option.splits dest!: find_Some_set)

lemma update_rows_by_key:
  assumes "unique_key k rows" "unique_key j rows" "r \<in> set rows"
  shows "update_rows (\<lambda>q. k q = k r) f rows = update_rows (\<lambda>q. j q = j r) f rows"
  unfolding update_rows_def
proof (rule map_cong [OF refl])
  fix q assume "q \<in> set rows"
  then have "k q = k r \<longleftrightarrow> q = r" "j q = j r \<longleftrightarrow> q = r"
    using assms by (auto dest: unique_key_eq)
  then show "(if k q = k r then f q else q) = (if j q = j r then f q else q)" by simp
qed

lemma stored_update:
  assumes "unique_key ba_id rows" "unique_key balance_key rows" "r \<in> set rows"
    and f: "\<And>q. balance_key (f q) = balance_key q"
  shows "stored (update_rows (\<lambda>q. ba_id q = ba_id r) f rows) sid h k =
    (if balance_key r = (sid, h, k) then ba_balance (f r) else stored rows sid h k)"
proof -
  have rows: "update_rows (\<lambda>q. ba_id q = ba_id r) f rows = update_rows (\<lambda>q. balance_key q = balance_key r) f rows"
    by (rule update_rows_by_key) (use assms in auto)
  show ?thesis
  proof (cases "balance_key r = (sid, h, k)")
    case True
    then have "List.find (\<lambda>q. balance_key q = (sid, h, k)) rows = Some r"
      using find_unique_key [OF assms(2,3)] by simp
    with True rows f show ?thesis
      by (simp add: stored_def find_update_rows)
  next
    case False
    then have "List.find (\<lambda>q. balance_key q = (sid, h, k)) (update_rows (\<lambda>q. balance_key q = balance_key r) f rows)
        = List.find (\<lambda>q. balance_key q = (sid, h, k)) rows"
      by (intro find_update_rows_other) (simp add: f)
    with False rows show ?thesis
      by (simp add: stored_def)
  qed
qed

section \<open>One balance change\<close>

text \<open>\<open>books source h k n d t\<close>: the balance of the holder has changed by \<open>n\<close> and nothing else but
  the environment has.\<close>

definition books :: "(uuid \<Rightarrow> string \<Rightarrow> string \<Rightarrow> int) \<Rightarrow> db \<Rightarrow> db \<Rightarrow> bool" where
  "books change d t \<longleftrightarrow>
     t = d\<lparr>db_balances := db_balances t, db_env := db_env t\<rparr> \<and> balances_ok t
     \<and> (\<forall>sid h k. stored (db_balances t) sid h k = stored (db_balances d) sid h k + change sid h k)"

lemma booksI:
  "t = d\<lparr>db_env := e, db_balances := b\<rparr> \<Longrightarrow> balances_ok t \<Longrightarrow>
   (\<And>sid h k. stored b sid h k = stored (db_balances d) sid h k + change sid h k) \<Longrightarrow> books change d t"
  by (simp add: books_def)

lemma books_frame:
  assumes "books change d t"
  shows "db_entries t = db_entries d" "db_events t = db_events d" "db_sources t = db_sources d"
    "db_jobs t = db_jobs d" "db_checkpoints t = db_checkpoints d" "db_receipts t = db_receipts d"
    "db_chains t = db_chains d" "db_attempts t = db_attempts d" "db_reorgs t = db_reorgs d"
proof -
  from assms have t: "t = d\<lparr>db_balances := db_balances t, db_env := db_env t\<rparr>" by (simp add: books_def)
  show "db_entries t = db_entries d" using arg_cong [OF t, of db_entries] by simp
  show "db_events t = db_events d" using arg_cong [OF t, of db_events] by simp
  show "db_sources t = db_sources d" using arg_cong [OF t, of db_sources] by simp
  show "db_jobs t = db_jobs d" using arg_cong [OF t, of db_jobs] by simp
  show "db_checkpoints t = db_checkpoints d" using arg_cong [OF t, of db_checkpoints] by simp
  show "db_receipts t = db_receipts d" using arg_cong [OF t, of db_receipts] by simp
  show "db_chains t = db_chains d" using arg_cong [OF t, of db_chains] by simp
  show "db_attempts t = db_attempts d" using arg_cong [OF t, of db_attempts] by simp
  show "db_reorgs t = db_reorgs d" using arg_cong [OF t, of db_reorgs] by simp
qed

lemma books_refl: "balances_ok d \<Longrightarrow> books (\<lambda>_ _ _. 0) d d"
  by (simp add: books_def)

lemma books_trans:
  assumes "books f d s" "books g s t"
  shows "books (\<lambda>sid h k. f sid h k + g sid h k) d t"
proof (rule booksI [where b = "db_balances t" and e = "db_env t"])
  show "t = d\<lparr>db_env := db_env t, db_balances := db_balances t\<rparr>"
    using books_frame [OF assms(1)] books_frame [OF assms(2)] by (intro db.equality) simp_all
  show "balances_ok t" using assms(2) by (simp add: books_def)
  show "stored (db_balances t) sid h k = stored (db_balances d) sid h k + (f sid h k + g sid h k)" for sid h k
    using assms by (simp add: books_def)
qed

lemma apply_holder_books:
  assumes ok: "balances_ok d" and run: "apply_holder_balance_delta source holder token delta d = (Ok u, t)"
  shows "books (\<lambda>sid h k. if (sid, h, k) = (sr_id source, holder, token) then bd_amount delta else 0) d t"
proof (cases "List.find (\<lambda>r. balance_key r = (sr_id source, holder, token)) (db_balances d)")
  case None
  show ?thesis
  proof (cases "bd_amount delta = 0")
    case True
    with None run have "t = d" by (auto simp: apply_holder_balance_delta_def)
    with True books_refl [OF ok] show ?thesis by (simp add: if_distrib cong: if_cong)
  next
    case False
    let ?row = "\<lparr>ba_id = uuid_supply (db_env d) (uuids_used (db_env d)), ba_source_id = sr_id source,
      ba_chain_id = sr_chain_id source, ba_contract_address = sr_contract_address source,
      ba_token_standard = sr_token_standard source, ba_holder_address = holder, ba_token_id = token,
      ba_balance = bd_amount delta, ba_first_received_block = bd_first_received_block delta,
      ba_last_moved_block = bd_last_moved_block delta, ba_updated_at = clock (db_env d) (clock_reads (db_env d))\<rparr>"
    from False None run have t: "t = d\<lparr>db_env := (db_env d)\<lparr>uuids_used := uuids_used (db_env d) + 1,
        clock_reads := clock_reads (db_env d) + 1\<rparr>, db_balances := db_balances d @ [?row]\<rparr>"
      and row: "has_source d (sr_id source)" "balance_check ?row" "ba_id ?row \<notin> ba_id ` set (db_balances d)"
        "balance_key ?row \<notin> balance_key ` set (db_balances d)"
      by (auto simp: apply_holder_balance_delta_def insert_balance_def Let_def has_source_def split: if_splits)
    have key: "balance_key ?row = (sr_id source, holder, token)" by (simp add: balance_key_def)
    show ?thesis
      by (rule booksI [OF t]) (use row ok t key in \<open>auto simp: balances_ok_def stored_append has_source_def\<close>)
  qed
next
  case (Some r)
  from find_Some_set [OF this] have r: "r \<in> set (db_balances d)" "balance_key r = (sr_id source, holder, token)" by auto
  have here: "stored (db_balances d) (sr_id source) holder token = ba_balance r"
    using Some by (simp add: stored_def)
  from run Some obtain now e where
        t: "t = d\<lparr>db_env := e, db_balances := update_rows (\<lambda>q. ba_id q = ba_id r)
              (balance_update (ba_balance r + bd_amount delta) delta now) (db_balances d)\<rparr>"
    and checked: "list_all (\<lambda>q. ba_id q = ba_id r \<longrightarrow>
              balance_check (balance_update (ba_balance r + bd_amount delta) delta now q)) (db_balances d)"
    by (auto simp: apply_holder_balance_delta_def update_balance_def Let_def split: if_splits)
  let ?f = "balance_update (ba_balance r + bd_amount delta) delta now"
  have f: "balance_key (?f q) = balance_key q" "ba_id (?f q) = ba_id q" "ba_source_id (?f q) = ba_source_id q" for q
    by (simp_all add: balance_update_def balance_key_def)
  have amount: "ba_balance (?f r) = ba_balance r + bd_amount delta" by (simp add: balance_update_def)
  have "balances_ok t"
    using ok checked f by (auto simp: t balances_ok_def unique_key_update in_update_rows list_all_iff has_source_def)
  moreover have "stored (update_rows (\<lambda>q. ba_id q = ba_id r) ?f (db_balances d)) sid h k = stored (db_balances d) sid h k +
      (if (sid, h, k) = (sr_id source, holder, token) then bd_amount delta else 0)" for sid h k
    using stored_update [OF _ _ r(1) f(1), of sid h k] ok here r(2) amount
    by (auto simp: balances_ok_def)
  ultimately show ?thesis by (intro booksI [OF t])
qed

section \<open>The changes of an entry\<close>

definition total :: "deltas \<Rightarrow> string \<Rightarrow> string \<Rightarrow> int" where
  "total ds h k = sum_list (map (\<lambda>(q, b). if q = (h, k) then bd_amount b else 0) ds)"

lemma total_Nil [simp]: "total [] h k = 0"
  by (simp add: total_def)

lemma total_change:
  "(\<And>b. bd_amount (f b) = bd_amount b + c) \<Longrightarrow>
   total (change_delta q f ds) h k = total ds h k + (if q = (h, k) then c else 0)"
  by (induction q f ds rule: change_delta.induct) (auto simp: total_def default_delta_def)

lemma total_sort: "total (sort_by le ds) h k = total ds h k"
  by (simp add: total_def sum_list_sort_by)

lemma total_collect:
  "\<not> le_orphaned row \<Longrightarrow>
   total (collect_balance_delta ds row reversed) h k =
     total ds h k + (if reversed then - 1 else 1) * moved (le_source_id row) h k row"
  by (cases "le_from_address row"; cases "le_to_address row")
     (auto simp: collect_balance_delta_def Let_def moved_def total_change
       [where c = "- le_amount row"] total_change [where c = "le_amount row"])

lemma total_collect_deltas:
  assumes "le_source_id current = sid" and "\<And>p. previous = Some p \<Longrightarrow> le_source_id p = sid"
  shows "total (collect_deltas previous current) h k =
    moved sid h k current - (case previous of None \<Rightarrow> 0 | Some p \<Rightarrow> moved sid h k p)"
  using assms by (cases previous) (auto simp: collect_deltas_def Let_def total_collect moved_def)

lemma each_books:
  assumes "balances_ok d"
    and "each (\<lambda>((h, k), delta). apply_holder_balance_delta source h k delta) ds d = (Ok u, t)"
  shows "books (\<lambda>sid h k. if sid = sr_id source then total ds h k else 0) d t"
  using assms
proof (induction ds arbitrary: d)
  case Nil
  then show ?case using books_refl [of d] by (simp cong: if_cong)
next
  case (Cons x ds)
  obtain h' k' b where x: "x = ((h', k'), b)" by (cases x) auto
  from Cons.prems(2) obtain v s where
      1: "apply_holder_balance_delta source h' k' b d = (Ok v, s)" and
      2: "each (\<lambda>((h, k), delta). apply_holder_balance_delta source h k delta) ds s = (Ok u, t)"
    by (auto simp: x seq_Ok_iff)
  from apply_holder_books [OF Cons.prems(1) 1] have b1:
    "books (\<lambda>sid h k. if (sid, h, k) = (sr_id source, h', k') then bd_amount b else 0) d s" .
  then have "balances_ok s" by (simp add: books_def)
  from books_trans [OF b1 Cons.IH [OF this 2]] show ?case
    by (rule back_subst [of "\<lambda>f. books f d t"]) (auto simp: fun_eq_iff x total_def)
qed

lemma apply_balance_books:
  assumes "balances_ok d" and "apply_balance_delta source previous current d = (Ok u, t)"
    and "le_source_id current = sr_id source" and "\<And>p. previous = Some p \<Longrightarrow> le_source_id p = sr_id source"
  shows "books (\<lambda>sid h k. moved sid h k current - (case previous of None \<Rightarrow> 0 | Some p \<Rightarrow> moved sid h k p)) d t"
proof -
  have 1: "books (\<lambda>sid h k. if sid = sr_id source then total (collect_deltas previous current) h k else 0) d t"
    using each_books [OF assms(1) assms(2) [unfolded apply_balance_delta_def]] unfolding total_sort .
  have other: "moved sid h k current = 0" "previous = Some p \<Longrightarrow> moved sid h k p = 0"
    if "sid \<noteq> sr_id source" for sid h k p
    using that assms(3,4) by (auto simp: moved_def)
  from 1 show ?thesis
    by (rule back_subst [of "\<lambda>f. books f d t"])
       (use other in \<open>auto simp: fun_eq_iff total_collect_deltas [OF assms(3,4)] split: option.splits\<close>)
qed

section \<open>Booking an entry\<close>

text \<open>What an upsert does to the table of entries: a new key is appended, a known one takes the amount
  and the position data of the new row and, with restoration, becomes live again.\<close>

definition rebook :: "ledger_row \<Rightarrow> bool \<Rightarrow> ledger_row \<Rightarrow> ledger_row" where
  "rebook new restore r = (excluded_entry new r)\<lparr>le_orphaned := le_orphaned r \<and> \<not> restore\<rparr>"

definition record_entry :: "ledger_row \<Rightarrow> bool \<Rightarrow> ledger_row list \<Rightarrow> ledger_row list" where
  "record_entry new restore rows =
     (case List.find (\<lambda>r. entry_key r = entry_key new) rows of
        None \<Rightarrow> rows @ [new]
      | Some _ \<Rightarrow> update_rows (\<lambda>r. entry_key r = entry_key new) (rebook new restore) rows)"

lemma rebook_simps [simp]:
  "entry_key (rebook new restore r) = entry_key r" "le_id (rebook new restore r) = le_id r"
  "le_source_id (rebook new restore r) = le_source_id r" "le_amount (rebook new restore r) = le_amount new"
  "le_from_address (rebook new restore r) = le_from_address r" "le_to_address (rebook new restore r) = le_to_address r"
  "le_token_id (rebook new restore r) = le_token_id r" "le_block_number (rebook new restore r) = le_block_number r"
  "le_orphaned (rebook new restore r) = (le_orphaned r \<and> \<not> restore)" "le_event_id (rebook new restore r) = le_event_id r"
  by (simp_all add: rebook_def excluded_entry_def entry_key_def)

lemma rebook_check: "entry_check new \<Longrightarrow> entry_check r \<Longrightarrow> entry_check (rebook new restore r)"
  by (simp add: rebook_def excluded_entry_def entry_check_def)

lemma restore_rebook: "(rebook new False r)\<lparr>le_orphaned := False\<rparr> = rebook new True r"
  by (simp add: rebook_def)

lemma rebook_live: "\<not> le_orphaned r \<Longrightarrow> rebook new restore r = rebook new False r"
  by (simp add: rebook_def)

lemma excluded_rebook: "excluded_entry new r = rebook new False r"
  by (cases r) (simp add: rebook_def excluded_entry_def)

lemma update_rows_twice:
  assumes "\<And>r. r \<in> set rows \<Longrightarrow> P r \<longleftrightarrow> Q (if P r then f r else r)"
  shows "update_rows Q g (update_rows P f rows) = update_rows P (\<lambda>r. g (f r)) rows"
  using assms by (induction rows) auto

lemma new_row_fields:
  assumes "new_ledger_row c source log eid entry i now = Ok new"
  shows "le_id new = i" "le_source_id new = sr_id source" "le_orphaned new = False"
    "log_entry_key source log (de_batch_index entry) = Ok (entry_key new)"
    "bigdecimal_parse c (de_amount entry) = Some (le_amount new)"
    "le_from_address new = non_zero_address (de_from entry)"
    "le_to_address new = non_zero_address (de_to entry)" "le_token_id new = de_token_id entry"
  using assms by (auto simp: new_ledger_row_def log_entry_key_def entry_key_def)

lemma upsert_ledger_entry_Ok:
  assumes ok: "entries_ok d"
    and run: "upsert_ledger_entry c source log eid entry options d = (Ok current, t)"
  obtains new e where "new_ledger_row c source log eid entry (le_id new) (le_inserted_at new) = Ok new"
    and "entry_check new"
    and "t = d\<lparr>db_env := e, db_entries := record_entry new (restore_orphaned_conflicts options) (db_entries d)\<rparr>"
    and "case List.find (\<lambda>r. entry_key r = entry_key new) (db_entries d) of
           None \<Rightarrow> current = new \<and> le_id new \<notin> le_id ` set (db_entries d)
             \<and> has_source d (le_source_id new) \<and> le_event_id new \<in> ev_id ` set (db_events d)
         | Some p \<Rightarrow> current = rebook new (restore_orphaned_conflicts options) p"
proof -
  let ?i = "uuid_supply (db_env d) (uuids_used (db_env d))" and ?now = "clock (db_env d) (clock_reads (db_env d))"
  let ?e = "(db_env d)\<lparr>uuids_used := uuids_used (db_env d) + 1, clock_reads := clock_reads (db_env d) + 1\<rparr>"
  let ?restore = "restore_orphaned_conflicts options"
  from run obtain new row s where
        new: "new_ledger_row c source log eid entry ?i ?now = Ok new"
    and ins: "insert_entry_conflict new (d\<lparr>db_env := ?e\<rparr>) = (Ok row, s)"
    and fin: "(if ?restore \<and> le_orphaned row then restore_entry row else ret row) s = (Ok current, t)"
    by (auto simp: upsert_ledger_entry_def seq_Ok_iff)
  have ids: "le_id new = ?i" "le_inserted_at new = ?now" "le_orphaned new = False"
    using new by (auto simp: new_ledger_row_def)
  have check: "entry_check new" using ins by (auto simp: insert_entry_conflict_def split: if_splits)
  show thesis
  proof (cases "List.find (\<lambda>r. entry_key r = entry_key new) (db_entries d)")
    case None
    with ins ids have s: "row = new" "s = d\<lparr>db_env := ?e, db_entries := db_entries d @ [new]\<rparr>"
        "le_id new \<notin> le_id ` set (db_entries d)" "has_source d (le_source_id new)"
        "le_event_id new \<in> ev_id ` set (db_events d)"
      by (auto simp: insert_entry_conflict_def has_source_def split: if_splits)
    with fin ids have "current = new" "t = s" by simp_all
    with s new ids check None show thesis
      by (intro that [of new ?e]) (simp_all add: record_entry_def)
  next
    case (Some p)
    from find_Some_set [OF Some] have p: "p \<in> set (db_entries d)" "entry_key p = entry_key new" by auto
    from Some ins have s: "row = rebook new False p"
        "s = d\<lparr>db_env := ?e, db_entries := update_rows (\<lambda>r. entry_key r = entry_key new) (rebook new False) (db_entries d)\<rparr>"
      by (auto simp: insert_entry_conflict_def excluded_rebook [abs_def] split: if_splits)
    have same: "le_id r = le_id p \<longleftrightarrow> entry_key r = entry_key new" if "r \<in> set (db_entries d)" for r
      using that p ok by (auto simp: entries_ok_def dest: unique_key_eq)
    have "current = rebook new ?restore p
      \<and> t = d\<lparr>db_env := ?e, db_entries := update_rows (\<lambda>r. entry_key r = entry_key new) (rebook new ?restore) (db_entries d)\<rparr>"
    proof (cases "?restore \<and> le_orphaned p")
      case True
      with fin have "restore_entry row s = (Ok current, t)" by (simp add: s(1))
      then have "current = rebook new True p"
        and t: "t = d\<lparr>db_env := ?e, db_entries := update_rows (\<lambda>r. le_id r = le_id p) (\<lambda>r. r\<lparr>le_orphaned := False\<rparr>)
              (update_rows (\<lambda>r. entry_key r = entry_key new) (rebook new False) (db_entries d))\<rparr>"
        unfolding restore_entry_def s(1,2) by (simp_all add: restore_rebook)
      moreover have "update_rows (\<lambda>r. le_id r = le_id p) (\<lambda>r. r\<lparr>le_orphaned := False\<rparr>)
              (update_rows (\<lambda>r. entry_key r = entry_key new) (rebook new False) (db_entries d))
          = update_rows (\<lambda>r. entry_key r = entry_key new) (rebook new True) (db_entries d)"
        using same by (subst update_rows_twice) (auto simp: restore_rebook)
      ultimately show ?thesis using True by simp
    next
      case False
      then have live: "rebook new ?restore r = rebook new False r" if "r \<in> set (db_entries d)" "entry_key r = entry_key new" for r
      proof -
        have "unique_key entry_key (db_entries d)" using ok by (simp add: entries_ok_def)
        from unique_key_eq [OF this that(1) p(1)] have "r = p" using that(2) p(2) by simp
        with False show ?thesis using rebook_live [of r new True] by (cases ?restore) simp_all
      qed
      have "update_rows (\<lambda>r. entry_key r = entry_key new) (rebook new ?restore) (db_entries d)
          = update_rows (\<lambda>r. entry_key r = entry_key new) (rebook new False) (db_entries d)"
        unfolding update_rows_def by (rule map_cong [OF refl]) (simp add: live)
      with False fin s live [OF p] show ?thesis by (auto split: if_splits)
    qed
    with new ids check Some show thesis
      by (intro that [of new ?e]) (simp_all add: record_entry_def)
  qed
qed

lemma log_entry_key_det: "log_entry_key source log b = Ok k \<Longrightarrow> log_entry_key source log b = Ok k' \<Longrightarrow> k' = k"
  by simp

lemma record_entry_net:
  assumes "unique_key entry_key rows" and "le_orphaned new = False"
  shows "net (record_entry new restore rows) sid h k = net rows sid h k +
    (case List.find (\<lambda>r. entry_key r = entry_key new) rows of
       None \<Rightarrow> moved sid h k new
     | Some p \<Rightarrow> moved sid h k (rebook new restore p) - moved sid h k p)"
proof (cases "List.find (\<lambda>r. entry_key r = entry_key new) rows")
  case None
  then show ?thesis by (simp add: record_entry_def)
next
  case (Some p)
  from find_Some_set [OF Some] have "p \<in> set rows" "entry_key p = entry_key new" by auto
  with Some sum_list_update_unique [OF assms(1), of p "moved sid h k" "rebook new restore"] show ?thesis
    by (simp add: record_entry_def net_def)
qed

lemma record_entry_keys:
  "set (map entry_key (record_entry new restore rows)) = insert (entry_key new) (set (map entry_key rows))"
proof (cases "List.find (\<lambda>r. entry_key r = entry_key new) rows")
  case None
  then show ?thesis by (auto simp: record_entry_def)
next
  case (Some p)
  then have "map entry_key (record_entry new restore rows) = map entry_key rows"
    by (simp add: record_entry_def map_update_rows)
  moreover from find_Some_set [OF Some] have "entry_key new \<in> set (map entry_key rows)"
    by (metis image_eqI list.set_map)
  ultimately show ?thesis by (simp only: insert_absorb)
qed

lemma record_entry_ok:
  assumes "entries_ok d" and "entry_check new" and "db_entries t = record_entry new restore (db_entries d)"
    and "List.find (\<lambda>r. entry_key r = entry_key new) (db_entries d) = None \<Longrightarrow> le_id new \<notin> le_id ` set (db_entries d)"
  shows "entries_ok t"
proof (cases "List.find (\<lambda>r. entry_key r = entry_key new) (db_entries d)")
  case None
  with assms show ?thesis
    by (auto simp: entries_ok_def record_entry_def find_None_set)
next
  case (Some p)
  with assms show ?thesis
    by (auto simp: entries_ok_def record_entry_def unique_key_update in_update_rows rebook_check)
qed

lemma filter_update_rows:
  "(\<And>r. r \<in> set rows \<Longrightarrow> P r \<Longrightarrow> \<not> Q r \<and> \<not> Q (f r)) \<Longrightarrow> filter Q (update_rows P f rows) = filter Q rows"
  by (induction rows) auto

definition foreign :: "uuid \<Rightarrow> ledger_row list \<Rightarrow> ledger_row list" where
  "foreign sid rows = filter (\<lambda>r. le_source_id r \<noteq> sid) rows"

lemma record_entry_foreign:
  assumes "unique_key entry_key rows" and "le_source_id new = sid"
    and "\<And>p. List.find (\<lambda>r. entry_key r = entry_key new) rows = Some p \<Longrightarrow> le_source_id p = sid"
  shows "foreign sid (record_entry new restore rows) = foreign sid rows"
proof (cases "List.find (\<lambda>r. entry_key r = entry_key new) rows")
  case None
  with assms show ?thesis by (simp add: record_entry_def foreign_def)
next
  case (Some p)
  from find_Some_set [OF Some] have p: "p \<in> set rows" "entry_key p = entry_key new" by auto
  have "le_source_id r = sid" if r: "r \<in> set rows" "entry_key r = entry_key new" for r
    using unique_key_eq [OF assms(1) r(1) p(1)] r(2) p(2) assms(3) [OF Some] by simp
  then have "filter (\<lambda>r. le_source_id r \<noteq> sid) (update_rows (\<lambda>r. entry_key r = entry_key new) (rebook new restore) rows)
      = filter (\<lambda>r. le_source_id r \<noteq> sid) rows"
    by (intro filter_update_rows) simp
  with Some show ?thesis by (simp add: record_entry_def foreign_def)
qed

text \<open>The tables no write of a log touches.\<close>

definition ledger_frame :: "db \<Rightarrow> db \<Rightarrow> bool" where
  "ledger_frame d t \<longleftrightarrow> db_sources t = db_sources d \<and> db_chains t = db_chains d \<and> db_checkpoints t = db_checkpoints d
     \<and> db_receipts t = db_receipts d \<and> db_jobs t = db_jobs d \<and> db_attempts t = db_attempts d \<and> db_reorgs t = db_reorgs d"

lemma ledger_frame_refl [simp]: "ledger_frame d d"
  by (simp add: ledger_frame_def)

lemma ledger_frame_trans: "ledger_frame d s \<Longrightarrow> ledger_frame s t \<Longrightarrow> ledger_frame d t"
  by (simp add: ledger_frame_def)

lemma books_ledger_frame: "books f d t \<Longrightarrow> ledger_frame d t"
  by (simp add: ledger_frame_def books_frame)

lemma persist_entry_Ok:
  assumes inv: "ledger_inv d"
    and run: "persist_entry c source log eid options entry d = (Ok u, t)"
  obtains new where "new_ledger_row c source log eid entry (le_id new) (le_inserted_at new) = Ok new"
    and "db_entries t = record_entry new (restore_orphaned_conflicts options) (db_entries d)"
    and "db_events t = db_events d" and "ledger_frame d t" and "ledger_inv t"
    and "foreign (sr_id source) (db_entries t) = foreign (sr_id source) (db_entries d)"
    and "\<And>sid h k. sid \<noteq> sr_id source \<Longrightarrow> stored (db_balances t) sid h k = stored (db_balances d) sid h k"
proof -
  let ?restore = "restore_orphaned_conflicts options"
  from inv have ok: "entries_ok d" and bal: "balances_ok d" and uk: "unique_key entry_key (db_entries d)"
    by (simp_all add: ledger_inv_def entries_ok_def)
  from run obtain key where key: "log_entry_key source log (de_batch_index entry) = Ok key"
    by (auto simp: persist_entry_def lock_existing_ledger_entry_def seq_Ok_iff)
  define previous where previous: "previous = List.find (\<lambda>r. entry_key r = key) (db_entries d)"
  from run key obtain current s where
        cond: "\<not> (case previous of None \<Rightarrow> False | Some r \<Rightarrow> le_source_id r \<noteq> sr_id source)"
    and up: "upsert_ledger_entry c source log eid entry options d = (Ok current, s)"
    and ap: "apply_balance_delta source previous current s = (Ok u, t)"
    by (auto simp: persist_entry_def lock_existing_ledger_entry_def seq_Ok_iff previous split: if_splits)
  from cond have mine: "le_source_id p = sr_id source" if "previous = Some p" for p
    using that by simp
  from upsert_ledger_entry_Ok [OF ok up] obtain new e where
        new: "new_ledger_row c source log eid entry (le_id new) (le_inserted_at new) = Ok new" "entry_check new"
    and s: "s = d\<lparr>db_env := e, db_entries := record_entry new ?restore (db_entries d)\<rparr>"
    and cur: "case List.find (\<lambda>r. entry_key r = entry_key new) (db_entries d) of
           None \<Rightarrow> current = new \<and> le_id new \<notin> le_id ` set (db_entries d)
             \<and> has_source d (le_source_id new) \<and> le_event_id new \<in> ev_id ` set (db_events d)
         | Some p \<Rightarrow> current = rebook new ?restore p" .
  note fields = new_row_fields [OF new(1)]
  from fields(4) key have "key = entry_key new" by simp
  with previous have prev: "previous = List.find (\<lambda>r. entry_key r = entry_key new) (db_entries d)" by simp
  have src: "le_source_id current = sr_id source"
    using cur prev mine fields(2) by (auto split: option.splits)
  have bs: "balances_ok s" using bal by (simp add: s balances_ok_def has_source_def)
  from apply_balance_books [OF bs ap src mine]
  have b: "books (\<lambda>sid h k. moved sid h k current - (case previous of None \<Rightarrow> 0 | Some p \<Rightarrow> moved sid h k p)) s t" .
  note fr = books_frame [OF b]
  have net: "net (db_entries t) sid h k = net (db_entries d) sid h k +
      (moved sid h k current - (case previous of None \<Rightarrow> 0 | Some p \<Rightarrow> moved sid h k p))" for sid h k
    using record_entry_net [OF uk fields(3)] cur prev by (simp add: fr s split: option.splits)
  have match: "balances_match t"
    using b inv net by (simp add: books_def balances_match_def ledger_inv_def s)
  have eok: "entries_ok t"
    by (rule record_entry_ok [OF ok new(2)]) (use cur fr s in \<open>auto split: option.splits\<close>)
  have linked: "entries_linked t"
    using inv cur unfolding entries_linked_def ledger_inv_def
    by (auto simp: fr s has_source_def record_entry_def in_update_rows split: option.splits)
  have evs: "events_ok t"
    using inv by (simp add: ledger_inv_def events_ok_def fr s has_source_def)
  show thesis
  proof (rule that [OF new(1)])
    show "db_entries t = record_entry new ?restore (db_entries d)" "db_events t = db_events d"
      by (simp_all add: fr s)
    show "foreign (sr_id source) (db_entries t) = foreign (sr_id source) (db_entries d)"
      unfolding fr(1) s using record_entry_foreign [OF uk fields(2)] mine prev by simp
    show "ledger_frame d t"
      by (rule ledger_frame_trans [OF _ books_ledger_frame [OF b]]) (simp add: s ledger_frame_def)
    show "ledger_inv t"
      using b match eok linked evs by (simp add: ledger_inv_def books_def)
    show "stored (db_balances t) sid h k = stored (db_balances d) sid h k" if "sid \<noteq> sr_id source" for sid h k
      using b that src mine by (auto simp: books_def s moved_def split: option.splits)
  qed
qed

section \<open>Persisting a batch\<close>

lemma upsert_event_Ok:
  assumes ok: "events_ok d" and run: "upsert_event source log decoded options d = (Ok i, t)"
  obtains e evs where "t = d\<lparr>db_env := e, db_events := evs\<rparr>" and "events_ok t"
    and "ev_id ` set (db_events d) \<subseteq> ev_id ` set evs"
proof -
  let ?i = "uuid_supply (db_env d) (uuids_used (db_env d))" and ?now = "clock (db_env d) (clock_reads (db_env d))"
  let ?e = "(db_env d)\<lparr>uuids_used := uuids_used (db_env d) + 1, clock_reads := clock_reads (db_env d) + 1\<rparr>"
  from run obtain new row s where
        new: "new_event_row source log decoded ?i ?now = Ok new"
    and ins: "insert_event_conflict new (d\<lparr>db_env := ?e\<rparr>) = (Ok row, s)"
    and fin: "run_if (restore_orphaned_conflicts options \<and> ev_orphaned row) (restore_event (ev_id row)) s = (Ok (), t)"
    by (auto simp: upsert_event_def seq_Ok_iff)
  have check: "event_check new" using ins by (auto simp: insert_event_conflict_def split: if_splits)
  have s: "\<exists>evs. s = d\<lparr>db_env := ?e, db_events := evs\<rparr> \<and> events_ok s \<and> ev_id ` set (db_events d) \<subseteq> ev_id ` set evs"
  proof (cases "List.find (\<lambda>r. event_key r = event_key new) (db_events d)")
    case None
    then have fresh: "event_key new \<notin> event_key ` set (db_events d)" by (auto simp: find_None_set)
    from None ins have "ev_id new \<notin> ev_id ` set (db_events d)" "has_source d (ev_source_id new)"
        "s = d\<lparr>db_env := ?e, db_events := db_events d @ [new]\<rparr>"
      by (auto simp: insert_event_conflict_def has_source_def split: if_splits)
    with fresh ok check show ?thesis
      by (intro exI [of _ "db_events d @ [new]"]) (auto simp: events_ok_def has_source_def)
  next
    case (Some p)
    have keys: "event_key (excluded_event new r) = event_key r" "ev_id (excluded_event new r) = ev_id r"
        "ev_source_id (excluded_event new r) = ev_source_id r" for r
      by (simp_all add: excluded_event_def event_key_def)
    have kept: "event_check r \<Longrightarrow> event_check (excluded_event new r)" for r
      using check by (simp add: excluded_event_def event_check_def)
    let ?evs = "update_rows (\<lambda>r. event_key r = event_key new) (excluded_event new) (db_events d)"
    from Some ins have "s = d\<lparr>db_env := ?e, db_events := ?evs\<rparr>"
      by (auto simp: insert_event_conflict_def split: if_splits)
    moreover have "map ev_id ?evs = map ev_id (db_events d)"
      by (rule map_update_rows) (simp add: keys)
    then have "ev_id ` set ?evs = ev_id ` set (db_events d)"
      by (metis list.set_map)
    ultimately show ?thesis
      using ok by (intro exI [of _ ?evs])
        (auto simp: events_ok_def unique_key_update keys in_update_rows kept has_source_def)
  qed
  then obtain evs where s: "s = d\<lparr>db_env := ?e, db_events := evs\<rparr>" "events_ok s"
    "ev_id ` set (db_events d) \<subseteq> ev_id ` set evs" by blast
  show thesis
  proof (cases "restore_orphaned_conflicts options \<and> ev_orphaned row")
    case False
    with fin s show thesis by (intro that [of evs ?e]) auto
  next
    case True
    let ?evs = "update_rows (\<lambda>r. ev_id r = ev_id row) (\<lambda>r. r\<lparr>ev_orphaned := False\<rparr>) evs"
    from True fin s have t: "t = d\<lparr>db_env := ?e, db_events := ?evs\<rparr>" by (auto simp: restore_event_def)
    have "map ev_id ?evs = map ev_id evs" by (rule map_update_rows) simp
    then have "ev_id ` set ?evs = ev_id ` set evs" by (metis list.set_map)
    with t s show thesis
      by (intro that [of ?evs ?e])
        (auto simp: events_ok_def unique_key_update in_update_rows event_key_def event_check_def has_source_def)
  qed
qed

text \<open>\<open>recorded\<close> relates the states around a part of a batch by the rows it has recorded.\<close>

definition recorded :: "source_ref \<Rightarrow> bool \<Rightarrow> ledger_row list \<Rightarrow> db \<Rightarrow> db \<Rightarrow> bool" where
  "recorded source restore news d t \<longleftrightarrow>
     db_entries t = fold (\<lambda>new. record_entry new restore) news (db_entries d) \<and> ledger_frame d t \<and> ledger_inv t
     \<and> foreign (sr_id source) (db_entries t) = foreign (sr_id source) (db_entries d)
     \<and> (\<forall>sid h k. sid \<noteq> sr_id source \<longrightarrow> stored (db_balances t) sid h k = stored (db_balances d) sid h k)"

lemma recorded_refl: "ledger_inv d \<Longrightarrow> recorded source restore [] d d"
  by (simp add: recorded_def)

lemma recorded_trans:
  "recorded source restore xs d s \<Longrightarrow> recorded source restore ys s t \<Longrightarrow> recorded source restore (xs @ ys) d t"
  by (auto simp: recorded_def intro: ledger_frame_trans)

definition row_of :: "crates \<Rightarrow> source_ref \<Rightarrow> rpc_log \<times> decoded_entry \<Rightarrow> ledger_row \<Rightarrow> bool" where
  "row_of c source item new \<longleftrightarrow>
     (\<exists>eid i now. new_ledger_row c source (fst item) eid (snd item) i now = Ok new)"

definition log_items :: "(rpc_log \<times> decoded_log) list \<Rightarrow> (rpc_log \<times> decoded_entry) list" where
  "log_items logs = concat (map (\<lambda>(log, decoded). map (\<lambda>e. (log, e)) (dl_entries decoded)) logs)"

lemma persist_entries_Ok:
  assumes "ledger_inv d" and "each (persist_entry c source log eid options) entries d = (Ok u, t)"
  shows "\<exists>news. recorded source (restore_orphaned_conflicts options) news d t
    \<and> list_all2 (row_of c source) (map (\<lambda>e. (log, e)) entries) news"
  using assms
proof (induction entries arbitrary: d)
  case Nil
  then have "recorded source (restore_orphaned_conflicts options) [] d t" by (auto intro: recorded_refl)
  then show ?case by (intro exI [of _ "[]"]) simp
next
  case (Cons e entries)
  from Cons.prems(2) obtain v s where 1: "persist_entry c source log eid options e d = (Ok v, s)"
    and 2: "each (persist_entry c source log eid options) entries s = (Ok u, t)"
    by (auto simp: seq_Ok_iff)
  obtain new where new: "new_ledger_row c source log eid e (le_id new) (le_inserted_at new) = Ok new"
    and first: "recorded source (restore_orphaned_conflicts options) [new] d s"
    by (rule persist_entry_Ok [OF Cons.prems(1) 1]) (simp add: recorded_def)
  from new have row: "row_of c source (log, e) new" by (auto simp: row_of_def)
  from first have "ledger_inv s" by (simp add: recorded_def)
  from Cons.IH [OF this 2] obtain news where rest: "recorded source (restore_orphaned_conflicts options) news s t"
    "list_all2 (row_of c source) (map (\<lambda>e. (log, e)) entries) news" by blast
  from recorded_trans [OF first rest(1)] row rest(2) show ?case
    by (intro exI [of _ "new # news"]) simp
qed

lemma persist_logs_Ok:
  assumes "ledger_inv d" and "each (persist_log c source options) logs d = (Ok u, t)"
  shows "\<exists>news. recorded source (restore_orphaned_conflicts options) news d t
    \<and> list_all2 (row_of c source) (log_items logs) news"
  using assms
proof (induction logs arbitrary: d)
  case Nil
  then have "recorded source (restore_orphaned_conflicts options) [] d t" by (auto intro: recorded_refl)
  then show ?case by (intro exI [of _ "[]"]) (simp add: log_items_def)
next
  case (Cons ld logs)
  from Cons.prems(2) obtain s2 where 12: "persist_log c source options ld d = (Ok (), s2)"
    and 3: "each (persist_log c source options) logs s2 = (Ok u, t)"
    by (auto simp: seq_Ok_iff)
  from 12 obtain i s1 where 1: "upsert_event source (fst ld) (snd ld) options d = (Ok i, s1)"
    and 2: "each (persist_entry c source (fst ld) i options) (dl_entries (snd ld)) s1 = (Ok (), s2)"
    by (auto simp: seq_Ok_iff persist_log_def)
  have "events_ok d" using Cons.prems(1) by (simp add: ledger_inv_def)
  from upsert_event_Ok [OF this 1] obtain e evs where s1: "s1 = d\<lparr>db_env := e, db_events := evs\<rparr>" "events_ok s1"
    "ev_id ` set (db_events d) \<subseteq> ev_id ` set evs" .
  have "ledger_inv s1"
    using Cons.prems(1) s1(2,3) unfolding ledger_inv_def
    by (auto simp: s1(1) balances_ok_def entries_ok_def entries_linked_def balances_match_def has_source_def)
  then have r1: "recorded source (restore_orphaned_conflicts options) [] d s1"
    by (simp add: recorded_def s1(1) ledger_frame_def)
  from persist_entries_Ok [OF \<open>ledger_inv s1\<close> 2] obtain xs where
    xs: "recorded source (restore_orphaned_conflicts options) xs s1 s2"
      "list_all2 (row_of c source) (map (\<lambda>e. (fst ld, e)) (dl_entries (snd ld))) xs" by blast
  then have "ledger_inv s2" by (simp add: recorded_def)
  from Cons.IH [OF this 3] obtain ys where
    ys: "recorded source (restore_orphaned_conflicts options) ys s2 t" "list_all2 (row_of c source) (log_items logs) ys"
    by blast
  have "log_items (ld # logs) = map (\<lambda>e. (fst ld, e)) (dl_entries (snd ld)) @ log_items logs"
    by (cases ld) (simp add: log_items_def)
  with recorded_trans [OF recorded_trans [OF r1 xs(1)] ys(1)] xs(2) ys(2) show ?case
    by (intro exI [of _ "xs @ ys"]) (simp add: list_all2_appendI)
qed

lemma persist_Ok:
  assumes "ledger_inv d" and "persist_decoded_logs_with_options c source logs options d = (Ok s, t)"
  shows "\<exists>news. recorded source (restore_orphaned_conflicts options) news d t
    \<and> list_all2 (row_of c source) (log_items logs) news"
proof -
  from assms(2) have "each (persist_log c source options) logs d = (Ok (), t)"
    by (auto simp: persist_decoded_logs_with_options_def lock_source_for_write_conn_def holder_count_conn_def
        minter_count_conn_def top_holders_conn_def seq_Ok_iff)
  from persist_logs_Ok [OF assms(1) this] show ?thesis .
qed

lemma persist_safe: "safe (persist_decoded_logs_with_options c source logs options)"
  unfolding persist_decoded_logs_with_options_def
  by (intro safe_seq safe_transaction) (auto intro: silent_intros)

lemma ledger_inv_tables: "tables t = tables d \<Longrightarrow> ledger_inv d \<Longrightarrow> ledger_inv t"
  by (auto simp: tables_eq_iff ledger_inv_def balances_ok_def entries_ok_def events_ok_def entries_linked_def
      balances_match_def has_source_def)

section \<open>Orphaning a range\<close>

lemma moved_orphaned [simp]: "moved sid h k (r\<lparr>le_orphaned := True\<rparr>) = 0"
  by (simp add: moved_def)

lemma reverse_books:
  assumes "balances_ok d" and "\<And>r. r \<in> set rows \<Longrightarrow> le_source_id r = sr_id source"
    and "each (reverse_entry source) rows d = (Ok u, t)"
  shows "books (\<lambda>sid h k. - net rows sid h k) d t"
  using assms
proof (induction rows arbitrary: d)
  case Nil
  then show ?case using books_refl [of d] by simp
next
  case (Cons r rows)
  from Cons.prems(3) obtain v s where "reverse_entry source r d = (Ok v, s)"
    and 2: "each (reverse_entry source) rows s = (Ok u, t)"
    by (auto simp: seq_Ok_iff)
  then have 1: "apply_balance_delta source (Some r) (r\<lparr>le_orphaned := True\<rparr>) d = (Ok v, s)"
    by (simp add: reverse_entry_def)
  have src: "le_source_id r = sr_id source" using Cons.prems(2) by simp
  have "books (\<lambda>sid h k. moved sid h k (r\<lparr>le_orphaned := True\<rparr>)
      - (case Some r of None \<Rightarrow> 0 | Some p \<Rightarrow> moved sid h k p)) d s"
    by (rule apply_balance_books [OF Cons.prems(1) 1]) (use src in auto)
  then have b: "books (\<lambda>sid h k. - moved sid h k r) d s" by simp
  then have "balances_ok s" by (simp add: books_def)
  from Cons.IH [OF this _ 2] Cons.prems(2) have "books (\<lambda>sid h k. - net rows sid h k) s t" by simp
  from books_trans [OF b this] show ?case by simp
qed

lemma net_sort_by: "net (sort_by le rows) sid h k = net rows sid h k"
  by (simp add: net_def sum_list_sort_by)

lemma net_orphan_rows:
  "net (update_rows P (\<lambda>r. r\<lparr>le_orphaned := True\<rparr>) rows) sid h k = net rows sid h k - net (filter P rows) sid h k"
  by (induction rows) auto

lemma orphaned_row [simp]:
  "entry_check (r\<lparr>le_orphaned := x\<rparr>) = entry_check r" "entry_key (r\<lparr>le_orphaned := x\<rparr>) = entry_key r"
  "event_check (q\<lparr>ev_orphaned := x\<rparr>) = event_check q" "event_key (q\<lparr>ev_orphaned := x\<rparr>) = event_key q"
  by (simp_all add: entry_check_def entry_key_def event_check_def event_key_def)

lemma orphan_rows_ok:
  "entries_ok d \<Longrightarrow> entries_ok (d\<lparr>db_entries := update_rows P (\<lambda>r. r\<lparr>le_orphaned := x\<rparr>) (db_entries d)\<rparr>)"
  by (auto simp: entries_ok_def unique_key_update in_update_rows)

lemma orphan_events_ok:
  "events_ok d \<Longrightarrow> events_ok (d\<lparr>db_events := update_rows P (\<lambda>r. r\<lparr>ev_orphaned := x\<rparr>) (db_events d)\<rparr>)"
  by (auto simp: events_ok_def unique_key_update in_update_rows has_source_def)

lemma update_rows_ids: "(\<And>r. g (f r) = g r) \<Longrightarrow> g ` set (update_rows P f rows) = g ` set rows"
  by (metis list.set_map map_update_rows)

lemma orphan_Ok:
  assumes inv: "ledger_inv d" and run: "orphan_source_range source lo hi d = (Ok s, t)"
  shows "ledger_inv t"
    and "db_entries t = update_rows (live_entry_in (so_id source) lo hi) (\<lambda>r. r\<lparr>le_orphaned := True\<rparr>) (db_entries d)"
    and "db_events t = update_rows (live_event_in (so_id source) lo hi) (\<lambda>r. r\<lparr>ev_orphaned := True\<rparr>) (db_events d)"
    and "os_ledger_entries_orphaned s = count_rows (live_entry_in (so_id source) lo hi) (db_entries d)"
    and "os_events_orphaned s = count_rows (live_event_in (so_id source) lo hi) (db_events d)"
    and "ledger_frame d t" and "0 \<le> lo" and "lo \<le> hi"
proof -
  let ?P = "live_entry_in (so_id source) lo hi" and ?Q = "live_event_in (so_id source) lo hi"
  let ?src = "source_ref_of source"
  let ?rows = "sort_by (\<lambda>a b. position_le (entry_position a) (entry_position b)) (filter ?P (db_entries d))"
  from run obtain m where m: "each (reverse_entry ?src) ?rows d = (Ok (), m)"
    and s: "s = \<lparr>os_events_orphaned = count_rows ?Q (db_events m), os_ledger_entries_orphaned = count_rows ?P (db_entries m)\<rparr>"
    and t: "t = m\<lparr>db_entries := update_rows ?P (\<lambda>r. r\<lparr>le_orphaned := True\<rparr>) (db_entries m),
                 db_events := update_rows ?Q (\<lambda>r. r\<lparr>ev_orphaned := True\<rparr>) (db_events m)\<rparr>"
    and range: "0 \<le> lo" "lo \<le> hi"
    by (auto simp: orphan_source_range_def lock_source_for_write_conn_def seq_Ok_iff split: if_splits)
  have b: "books (\<lambda>sid h k. - net ?rows sid h k) d m"
    by (rule reverse_books [OF _ _ m]) (use inv in \<open>auto simp: ledger_inv_def live_entry_in_def source_ref_of_def\<close>)
  note fr = books_frame [OF b]
  have bal: "balances_match t"
    using b inv by (auto simp: balances_match_def books_def t net_orphan_rows net_sort_by ledger_inv_def fr)
  have ids: "ev_id ` set (update_rows ?Q (\<lambda>r. r\<lparr>ev_orphaned := True\<rparr>) (db_events d)) = ev_id ` set (db_events d)"
    by (rule update_rows_ids) simp
  have bok: "balances_ok t"
    using b by (simp add: books_def balances_ok_def t has_source_def)
  have eok: "entries_ok t"
    using inv orphan_rows_ok [of d ?P True] by (simp add: ledger_inv_def entries_ok_def t fr)
  have evok: "events_ok t"
    using inv orphan_events_ok [of d ?Q True] by (simp add: ledger_inv_def events_ok_def t fr has_source_def)
  have linked: "entries_linked t"
    using inv by (auto simp: ledger_inv_def entries_linked_def t fr ids has_source_def in_update_rows)
  show "ledger_inv t" using bal bok eok evok linked by (simp add: ledger_inv_def)
  show "db_entries t = update_rows ?P (\<lambda>r. r\<lparr>le_orphaned := True\<rparr>) (db_entries d)"
    "db_events t = update_rows ?Q (\<lambda>r. r\<lparr>ev_orphaned := True\<rparr>) (db_events d)"
    "os_ledger_entries_orphaned s = count_rows ?P (db_entries d)"
    "os_events_orphaned s = count_rows ?Q (db_events d)" "0 \<le> lo" "lo \<le> hi"
    using range by (simp_all add: t s fr)
  show "ledger_frame d t" using books_ledger_frame [OF b] by (simp add: t ledger_frame_def)
qed

lemma orphan_safe: "safe (orphan_source_range source lo hi)"
  unfolding orphan_source_range_def
  by (intro safe_if safe_seq safe_transaction) (auto intro: safe_silent silent_intros)

section \<open>Metadata and sources\<close>

lemma metadata_inv:
  assumes inv: "ledger_inv d" and run: "update_log_metadata source log d = (Ok u, t)"
  shows "ledger_inv t" and "ledger_frame d t"
proof -
  from run obtain hash index block tx where
        t: "t = d\<lparr>db_events := update_rows (event_of_log source hash index) (event_metadata log block tx) (db_events d),
                 db_entries := update_rows (entry_of_log source hash index) (entry_metadata log block tx) (db_entries d)\<rparr>"
    and checks: "\<forall>r \<in> set (db_events d). event_of_log source hash index r \<longrightarrow> event_check (event_metadata log block tx r)"
      "\<forall>r \<in> set (db_entries d). entry_of_log source hash index r \<longrightarrow> entry_check (entry_metadata log block tx r)"
    by (auto simp: update_log_metadata_def update_checked_events_def update_checked_entries_def seq_Ok_iff Let_def
        list_all_iff split: if_splits)
  have f: "ev_id (event_metadata log block tx r) = ev_id r" "event_key (event_metadata log block tx r) = event_key r"
      "ev_source_id (event_metadata log block tx r) = ev_source_id r" for r
    by (simp_all add: event_metadata_def event_key_def)
  have g: "le_id (entry_metadata log block tx r) = le_id r" "entry_key (entry_metadata log block tx r) = entry_key r"
      "le_source_id (entry_metadata log block tx r) = le_source_id r"
      "le_event_id (entry_metadata log block tx r) = le_event_id r"
      "moved sid h k (entry_metadata log block tx r) = moved sid h k r" for r sid h k
    by (simp_all add: entry_metadata_def entry_key_def moved_def)
  have net: "net (db_entries t) sid h k = net (db_entries d) sid h k" for sid h k
    unfolding net_def t by (simp add: map_update_rows [of _ "moved sid h k"] g)
  have ids: "ev_id ` set (db_events t) = ev_id ` set (db_events d)"
    unfolding t by (simp add: update_rows_ids f)
  show "ledger_inv t"
    unfolding ledger_inv_def
  proof (intro conjI)
    show "balances_ok t" "balances_match t"
      using inv net by (simp_all add: ledger_inv_def balances_ok_def balances_match_def has_source_def) (simp_all add: t)
    show "entries_ok t"
      using inv checks(2) by (auto simp: t ledger_inv_def entries_ok_def unique_key_update g in_update_rows)
    show "events_ok t"
      using inv checks(1) by (auto simp: t ledger_inv_def events_ok_def unique_key_update f in_update_rows has_source_def)
    show "entries_linked t"
      using inv ids by (auto simp: ledger_inv_def entries_linked_def has_source_def) (auto simp: t in_update_rows g has_source_def)
  qed
  show "ledger_frame d t" by (simp add: t ledger_frame_def)
qed

section \<open>Every outcome keeps the invariant\<close>

lemma safe_keeps_ledger:
  assumes "safe m" and "m d = (x, t)" and "ledger_inv d" and "\<And>a. m d = (Ok a, t) \<Longrightarrow> ledger_inv t"
  shows "ledger_inv t"
proof (cases x)
  case (Inl e)
  with safeD [OF assms(1), of d e t] assms(2) have "tables t = tables d" by simp
  from ledger_inv_tables [OF this assms(3)] show ?thesis .
next
  case (Inr a)
  with assms(2,4) show ?thesis by simp
qed

lemma metadata_safe: "safe (update_log_metadata row log)"
  unfolding update_log_metadata_def by (intro safe_seq safe_transaction) (auto intro: silent_intros)

lemma persist_keeps:
  assumes "ledger_inv d" and "persist_decoded_logs_with_options c source logs options d = (x, t)"
  shows "ledger_inv t"
proof (rule safe_keeps_ledger [OF persist_safe assms(2,1)])
  fix a assume "persist_decoded_logs_with_options c source logs options d = (Ok a, t)"
  from persist_Ok [OF assms(1) this] show "ledger_inv t" by (auto simp: recorded_def)
qed

lemma orphan_keeps: "ledger_inv d \<Longrightarrow> orphan_source_range row lo hi d = (x, t) \<Longrightarrow> ledger_inv t"
  by (rule safe_keeps_ledger [OF orphan_safe]) (assumption | rule orphan_Ok(1))+

lemma metadata_keeps: "ledger_inv d \<Longrightarrow> update_log_metadata row log d = (x, t) \<Longrightarrow> ledger_inv t"
  by (rule safe_keeps_ledger [OF metadata_safe]) (assumption | rule metadata_inv(1))+

end
