(* ===== verification/Ledger_Spec.thy ===== *)
theory Ledger_Spec
  imports Ledger_Laws Checkpoints
begin

text \<open>
  What the ledger promises: the invariant of every reachable database, the abstract ledger that
  persisting refines, its idempotence, the exact effect of orphaning, and the limits of both.
\<close>

section \<open>Reachable ledgers\<close>

inductive ledger_step :: "db \<Rightarrow> db \<Rightarrow> bool" where
  ls_persist: "persist_decoded_logs_with_options c source logs options d = (x, t) \<Longrightarrow> ledger_step d t"
| ls_orphan: "orphan_source_range row lo hi d = (y, t) \<Longrightarrow> ledger_step d t"
| ls_metadata: "update_log_metadata row log d = (z, t) \<Longrightarrow> ledger_step d t"
| ls_source: "ensure_source chain name contract std start d = (r, t) \<Longrightarrow> ledger_step d t"
| ls_elsewhere: "db_events t = db_events d \<Longrightarrow> db_entries t = db_entries d \<Longrightarrow> db_balances t = db_balances d
    \<Longrightarrow> db_sources t = db_sources d \<Longrightarrow> ledger_step d t"

inductive ledger_reachable :: "db \<Rightarrow> bool" where
  lr_start: "db_events d = [] \<Longrightarrow> db_entries d = [] \<Longrightarrow> db_balances d = [] \<Longrightarrow> ledger_reachable d"
| lr_step: "ledger_reachable d \<Longrightarrow> ledger_step d t \<Longrightarrow> ledger_reachable t"

lemma ledger_inv_same:
  assumes "ledger_inv d" and "db_events t = db_events d" "db_entries t = db_entries d" "db_balances t = db_balances d"
    and "so_id ` set (db_sources d) \<subseteq> so_id ` set (db_sources t)"
  shows "ledger_inv t"
  using assms
  by (auto simp: ledger_inv_def balances_ok_def entries_ok_def events_ok_def entries_linked_def balances_match_def
      has_source_def)

lemma ensure_source_frame:
  assumes "ensure_source chain name contract std start d = (r, t)"
  shows "db_events t = db_events d \<and> db_entries t = db_entries d \<and> db_balances t = db_balances d
    \<and> so_id ` set (db_sources d) \<subseteq> so_id ` set (db_sources t)"
proof (cases "standard_is_auto std \<or> \<not> pool_available (db_env d)")
  case True
  with assms show ?thesis by (auto simp: ensure_source_def split: if_splits)
next
  case False
  define row where "row = \<lparr>so_id = uuid_supply (db_env d) (uuids_used (db_env d)), so_chain_id = chain, so_name = name,
      so_contract_address = to_ascii_lowercase contract, so_token_standard = standard_as_str std,
      so_start_block = start, so_enabled = True, so_created_at = clock (db_env d) (clock_reads (db_env d))\<rparr>"
  have ids: "so_id ` set (update_rows P (\<lambda>r. r\<lparr>so_name := n, so_token_standard := s, so_start_block := b, so_enabled := e\<rparr>) rows)
      = so_id ` set rows" for P n s b e rows
    by (rule update_rows_ids) simp
  from False assms show ?thesis
    by (simp add: ensure_source_def Let_def row_def [symmetric] split: if_splits option.splits)
       (auto simp: ids)
qed
lemma ensure_source_keeps: "ledger_inv d \<Longrightarrow> ensure_source chain name contract std start d = (r, t) \<Longrightarrow> ledger_inv t"
  by (drule ensure_source_frame) (auto intro: ledger_inv_same)

lemma ledger_step_keeps: "ledger_step d t \<Longrightarrow> ledger_inv d \<Longrightarrow> ledger_inv t"
proof (induction rule: ledger_step.induct)
  case (ls_elsewhere t d)
  from ls_elsewhere(5) ls_elsewhere(1-3) show ?case
    by (rule ledger_inv_same) (simp add: ls_elsewhere(4))
qed (erule (1) persist_keeps orphan_keeps metadata_keeps ensure_source_keeps)+

lemma ledger_reachable_inv: "ledger_reachable d \<Longrightarrow> ledger_inv d"
proof (induction rule: ledger_reachable.induct)
  case (lr_start d)
  then show ?case
    by (simp add: ledger_inv_def balances_ok_def entries_ok_def events_ok_def entries_linked_def balances_match_def
        stored_def)
next
  case (lr_step d t)
  then show ?case by (blast intro: ledger_step_keeps)
qed

text \<open>C1: However batches of logs are persisted (with and without restoring orphaned rows), ranges
  orphaned, metadata repaired and sources registered, with failures in between, in every reachable
  database each holder's stored balance of each token of each source is the sum of the amounts of
  the live entries to the holder minus those from the holder, no balance is negative, there is one
  row per balance key, per entry key and per event key, and every entry refers to a stored event.\<close>

theorem reachable_balances_match_entries:
  assumes "ledger_reachable d"
  shows "stored (db_balances d) sid h k = net (db_entries d) sid h k
    \<and> 0 \<le> net (db_entries d) sid h k
    \<and> unique_key balance_key (db_balances d) \<and> unique_key entry_key (db_entries d) \<and> unique_key event_key (db_events d)
    \<and> (\<forall>r \<in> set (db_entries d). entry_check r \<and> le_event_id r \<in> ev_id ` set (db_events d))"
proof -
  have inv: "ledger_inv d" by (rule ledger_reachable_inv [OF assms])
  then have "stored (db_balances d) sid h k = net (db_entries d) sid h k"
    by (simp add: ledger_inv_def balances_match_def)
  with inv stored_nonneg [of d sid h k] show ?thesis
    by (auto simp: ledger_inv_def balances_ok_def entries_ok_def events_ok_def entries_linked_def)
qed

section \<open>A sample ledger\<close>

definition sample_ref :: source_ref where
  "sample_ref = source_ref_of sample_source_row"

definition move_log :: "string \<Rightarrow> string \<Rightarrow> rpc_log" where
  "move_log block index = \<lparr>log_address = ''0xc'', log_topics = [], log_data = ''0x'', log_block_number = block,
     log_transaction_hash = ''0x7'', log_transaction_index = None, log_log_index = index, log_block_hash = ''0xb1'',
     log_block_timestamp = None\<rparr>"

definition move_entry :: "string \<Rightarrow> string \<Rightarrow> string \<Rightarrow> decoded_entry" where
  "move_entry from to amount = \<lparr>de_event_name = ''Transfer'', de_standard = Erc20, de_operator = None, de_from = from,
     de_to = to, de_token_id = [], de_amount = amount, de_batch_index = 0\<rparr>"

definition move :: "string \<Rightarrow> string \<Rightarrow> string \<Rightarrow> string \<Rightarrow> string \<Rightarrow> rpc_log \<times> decoded_log" where
  "move block index from to amount =
     (move_log block index, \<lparr>dl_event_name = ''Transfer'', dl_entries = [move_entry from to amount]\<rparr>)"

definition mint_then_send :: "(rpc_log \<times> decoded_log) list" where
  "mint_then_send = [move ''0xa'' ''0x0'' zero_address ''0xaa'' ''7'', move ''0xb'' ''0x1'' ''0xaa'' ''0xbb'' ''5'']"

definition ledger_db :: db where
  "ledger_db = snd (persist_decoded_logs sample_crates sample_ref mint_then_send source_db)"


lemma ledger_db_ok: "is_ok (fst (persist_decoded_logs sample_crates sample_ref mint_then_send source_db))"
  by code_simp

lemma ledger_db_balances: "map (\<lambda>b. (ba_holder_address b, ba_balance b)) (db_balances ledger_db) = [(''0xaa'', 2), (''0xbb'', 5)]"
  by code_simp

lemma source_db_reachable: "ledger_reachable source_db"
  by (rule lr_start) (simp_all add: source_db_def empty_db_def)

lemma ledger_db_reachable: "ledger_reachable ledger_db"
  by (rule lr_step [OF source_db_reachable ls_persist [where t = ledger_db]])
     (auto simp: ledger_db_def persist_decoded_logs_def prod_eq_iff)

text \<open>C1 at a ledger of one mint and one transfer.\<close>

theorem reachable_balances_match_entries_witness:
  "net (db_entries ledger_db) 5 ''0xaa'' [] = 2 \<and> 0 \<le> net (db_entries ledger_db) 5 ''0xbb'' []"
proof -
  have "stored (db_balances ledger_db) 5 ''0xaa'' [] = 2" by code_simp
  with reachable_balances_match_entries [OF ledger_db_reachable, of 5 "''0xaa''" "[]"]
    reachable_balances_match_entries [OF ledger_db_reachable, of 5 "''0xbb''" "[]"]
  show ?thesis by simp
qed

section \<open>Supply\<close>

definition circulating :: "db \<Rightarrow> uuid \<Rightarrow> string \<Rightarrow> int" where
  "circulating d sid token =
     sum_list (map ba_balance (filter (\<lambda>r. ba_source_id r = sid \<and> ba_token_id r = token) (db_balances d)))"

definition issued_by :: "uuid \<Rightarrow> string \<Rightarrow> ledger_row \<Rightarrow> int" where
  "issued_by sid token r =
     (if le_orphaned r \<or> le_source_id r \<noteq> sid \<or> le_token_id r \<noteq> token then 0
      else (if le_to_address r \<noteq> None then le_amount r else 0) - (if le_from_address r \<noteq> None then le_amount r else 0))"

definition issued :: "db \<Rightarrow> uuid \<Rightarrow> string \<Rightarrow> int" where
  "issued d sid token = sum_list (map (issued_by sid token) (db_entries d))"

lemma stored_Cons:
  "balance_key r \<notin> balance_key ` set rows \<Longrightarrow>
   stored (r # rows) sid h k = (if balance_key r = (sid, h, k) then ba_balance r else 0) + stored rows sid h k"
  by (auto simp: stored_def image_iff split: option.splits dest!: find_Some_set)

lemma sum_stored:
  assumes "finite H" and "unique_key balance_key rows" and "ba_holder_address ` set rows \<subseteq> H"
  shows "(\<Sum>h \<in> H. stored rows sid h k)
    = sum_list (map ba_balance (filter (\<lambda>r. ba_source_id r = sid \<and> ba_token_id r = k) rows))"
  using assms(2,3)
proof (induction rows)
  case Nil
  show ?case by (simp add: stored_def)
next
  case (Cons r rows)
  have "(\<Sum>h \<in> H. if balance_key r = (sid, h, k) then ba_balance r else 0)
      = (if ba_source_id r = sid \<and> ba_token_id r = k then ba_balance r else 0)"
    using Cons.prems(2) assms(1) by (auto simp: balance_key_def sum.If_cases)
  with Cons show ?case by (simp add: stored_Cons sum.distrib)
qed

lemma sum_moved:
  assumes "finite H" and "set_option (le_to_address r) \<union> set_option (le_from_address r) \<subseteq> H"
  shows "(\<Sum>h \<in> H. moved sid h k r) = issued_by sid k r"
proof -
  have one: "(\<Sum>h \<in> H. if x = Some h then n else 0) = (if x \<noteq> None then n else 0)"
    if "set_option x \<subseteq> H" for x and n :: int
    using that assms(1) by (cases x) (auto simp: sum.delta)
  show ?thesis
    using assms(2) by (simp add: moved_def issued_by_def sum_subtractf one)
qed

lemma sum_net:
  assumes "finite H" and "\<And>r. r \<in> set rows \<Longrightarrow> set_option (le_to_address r) \<union> set_option (le_from_address r) \<subseteq> H"
  shows "(\<Sum>h \<in> H. net rows sid h k) = sum_list (map (issued_by sid k) rows)"
  using assms(2) by (induction rows) (simp_all add: sum.distrib sum_moved [OF assms(1)])

text \<open>C9: In every reachable database the stored balances of a token add up to what the live entries of
  the source minted less what they burned; transfers never change the supply.\<close>

theorem reachable_supply_is_issued:
  assumes "ledger_reachable d"
  shows "circulating d sid token = issued d sid token"
proof -
  let ?H = "ba_holder_address ` set (db_balances d)
    \<union> (\<Union>r \<in> set (db_entries d). set_option (le_to_address r) \<union> set_option (le_from_address r))"
  have H: "finite ?H" by auto
  have inv: "ledger_inv d" by (rule ledger_reachable_inv [OF assms])
  then have "circulating d sid token = (\<Sum>h \<in> ?H. stored (db_balances d) sid h token)"
    unfolding circulating_def
    by (subst sum_stored [OF H]) (auto simp: ledger_inv_def balances_ok_def)
  also have "\<dots> = (\<Sum>h \<in> ?H. net (db_entries d) sid h token)"
    using inv by (simp add: ledger_inv_def balances_match_def)
  also have "\<dots> = issued d sid token"
    unfolding issued_def by (rule sum_net [OF H]) blast
  finally show ?thesis .
qed

text \<open>C9 at a ledger of one mint of seven and one transfer of five.\<close>

theorem reachable_supply_is_issued_witness: "circulating ledger_db 5 [] = 7 \<and> issued ledger_db 5 [] = 7"
proof -
  have "circulating ledger_db 5 [] = 7" by code_simp
  with reachable_supply_is_issued [OF ledger_db_reachable, of 5 "[]"] show ?thesis by simp
qed

section \<open>Persisting refines the abstract ledger\<close>

record movement =
  mv_source :: uuid
  mv_from :: "string option"
  mv_to :: "string option"
  mv_token :: string
  mv_amount :: int
  mv_live :: bool

type_synonym entry_id = "int \<times> string \<times> int \<times> int"

definition movement_of :: "ledger_row \<Rightarrow> movement" where
  "movement_of r = \<lparr>mv_source = le_source_id r, mv_from = le_from_address r, mv_to = le_to_address r,
     mv_token = le_token_id r, mv_amount = le_amount r, mv_live = (\<not> le_orphaned r)\<rparr>"

definition ledger_of :: "ledger_row list \<Rightarrow> entry_id \<Rightarrow> movement option" where
  "ledger_of rows k = map_option movement_of (List.find (\<lambda>r. entry_key r = k) rows)"

text \<open>The specification: a new identity is entered, a known one gets the new amount and, when restoring,
  is live again.\<close>

definition book :: "bool \<Rightarrow> entry_id \<times> movement \<Rightarrow> (entry_id \<Rightarrow> movement option) \<Rightarrow> entry_id \<Rightarrow> movement option" where
  "book restore b m = m(fst b \<mapsto> (case m (fst b) of
       None \<Rightarrow> snd b
     | Some old \<Rightarrow> old\<lparr>mv_amount := mv_amount (snd b), mv_live := mv_live old \<or> restore\<rparr>))"

definition booking :: "crates \<Rightarrow> source_ref \<Rightarrow> rpc_log \<times> decoded_entry \<Rightarrow> (entry_id \<times> movement) option" where
  "booking c source item =
     (case (log_entry_key source (fst item) (de_batch_index (snd item)), bigdecimal_parse c (de_amount (snd item))) of
        (Ok k, Some amount) \<Rightarrow>
          Some (k, \<lparr>mv_source = sr_id source, mv_from = non_zero_address (de_from (snd item)),
                    mv_to = non_zero_address (de_to (snd item)), mv_token = de_token_id (snd item),
                    mv_amount = amount, mv_live = True\<rparr>)
      | _ \<Rightarrow> None)"

lemma row_booking:
  assumes "row_of c source item new"
  shows "booking c source item = Some (entry_key new, movement_of new)"
proof -
  from assms obtain eid i now where new: "new_ledger_row c source (fst item) eid (snd item) i now = Ok new"
    by (auto simp: row_of_def)
  from new_row_fields [OF this] show ?thesis
    by (simp add: booking_def movement_of_def)
qed

lemma record_entry_books:
  "ledger_of (record_entry new restore rows) = book restore (entry_key new, movement_of new) (ledger_of rows)"
proof (rule ext)
  fix k
  show "ledger_of (record_entry new restore rows) k = book restore (entry_key new, movement_of new) (ledger_of rows) k"
  proof (cases "List.find (\<lambda>r. entry_key r = entry_key new) rows")
    case None
    then show ?thesis
      by (auto simp: record_entry_def ledger_of_def book_def find_append split: option.splits)
  next
    case (Some p)
    have other: "List.find (\<lambda>r. entry_key r = k) (update_rows (\<lambda>r. entry_key r = entry_key new) (rebook new restore) rows)
        = List.find (\<lambda>r. entry_key r = k) rows" if "k \<noteq> entry_key new"
      by (rule find_update_rows_other) (use that in auto)
    have here: "List.find (\<lambda>r. entry_key r = entry_key new)
        (update_rows (\<lambda>r. entry_key r = entry_key new) (rebook new restore) rows) = Some (rebook new restore p)"
      using Some by (subst find_update_rows) simp_all
    show ?thesis
      using Some other here
      by (cases "k = entry_key new") (simp_all add: record_entry_def ledger_of_def book_def movement_of_def)
  qed
qed

lemma fold_record_books:
  "ledger_of (fold (\<lambda>new. record_entry new restore) news rows)
     = fold (book restore) (map (\<lambda>new. (entry_key new, movement_of new)) news) (ledger_of rows)"
  by (induction news arbitrary: rows) (simp_all add: record_entry_books)

lemma rows_bookings:
  "list_all2 (row_of c source) items news \<Longrightarrow>
   map (booking c source) items = map Some (map (\<lambda>new. (entry_key new, movement_of new)) news)"
  by (induction rule: list_all2_induct) (simp_all add: row_booking)

lemma persist_books:
  assumes "ledger_inv d" and "persist_decoded_logs_with_options c source logs options d = (Ok s, t)"
  obtains bs where "map (booking c source) (log_items logs) = map Some bs"
    and "ledger_of (db_entries t) = fold (book (restore_orphaned_conflicts options)) bs (ledger_of (db_entries d))"
    and "foreign (sr_id source) (db_entries t) = foreign (sr_id source) (db_entries d)"
proof -
  from persist_Ok [OF assms] obtain news where
        r: "recorded source (restore_orphaned_conflicts options) news d t"
    and rows: "list_all2 (row_of c source) (log_items logs) news" by blast
  from r [unfolded recorded_def] have
        ent: "db_entries t = fold (\<lambda>new. record_entry new (restore_orphaned_conflicts options)) news (db_entries d)"
    and frame: "foreign (sr_id source) (db_entries t) = foreign (sr_id source) (db_entries d)" by blast+
  show thesis
    by (rule that [OF rows_bookings [OF rows] _ frame]) (simp add: ent fold_record_books)
qed

text \<open>C2: Persisting a batch of decoded logs refines the abstract ledger: the batch is booked entry by
  entry, in the order of the logs and of their entries, every entry of another source is untouched,
  and the balances follow; a failed batch, whatever the error, changes no table.\<close>

theorem persist_refines_booking:
  assumes "ledger_inv d" and "persist_decoded_logs_with_options c source logs options d = (x, t)"
  shows "case x of
      Err _ \<Rightarrow> tables t = tables d
    | Ok s \<Rightarrow> (\<exists>bs. map (booking c source) (log_items logs) = map Some bs
        \<and> ledger_of (db_entries t) = fold (book (restore_orphaned_conflicts options)) bs (ledger_of (db_entries d)))
        \<and> foreign (sr_id source) (db_entries t) = foreign (sr_id source) (db_entries d)
        \<and> balances_match t \<and> ss_ledger_entries_persisted s = length (log_items logs)"
proof (cases x)
  case (Inl e)
  with assms(2) safeD [OF persist_safe] show ?thesis by simp
next
  case (Inr s)
  with assms(2) have run: "persist_decoded_logs_with_options c source logs options d = (Ok s, t)" by simp
  have "balances_match t" using persist_keeps [OF assms] by (simp add: ledger_inv_def)
  moreover have "length (log_items logs) = sum_list (map (\<lambda>ld. length (dl_entries (snd ld))) logs)"
    by (induction logs) (auto simp: log_items_def)
  then have "ss_ledger_entries_persisted s = length (log_items logs)"
    using run by (auto simp: persist_decoded_logs_with_options_def seq_Ok_iff lock_source_for_write_conn_def
        holder_count_conn_def minter_count_conn_def top_holders_conn_def)
  ultimately show ?thesis
    using Inr by (auto intro: persist_books [OF assms(1) run])
qed

text \<open>C2 at the batch of a mint and a transfer.\<close>

theorem persist_refines_booking_witness:
  "\<exists>bs. map (booking sample_crates sample_ref) (log_items mint_then_send) = map Some bs \<and> length bs = 2
     \<and> ledger_of (db_entries ledger_db) = fold (book False) bs (ledger_of (db_entries source_db))"
proof -
  obtain x where run: "persist_decoded_logs_with_options sample_crates sample_ref mint_then_send
      \<lparr>restore_orphaned_conflicts = False\<rparr> source_db = (x, ledger_db)"
    by (auto simp: ledger_db_def persist_decoded_logs_def prod_eq_iff)
  have "is_ok x" using ledger_db_ok run by (simp add: persist_decoded_logs_def)
  then obtain s where x: "x = Ok s" by (cases x) auto
  have inv: "ledger_inv source_db" by (rule ledger_reachable_inv [OF source_db_reachable])
  from persist_refines_booking [OF inv run] x obtain bs where
      bs: "map (booking sample_crates sample_ref) (log_items mint_then_send) = map Some bs"
    and led: "ledger_of (db_entries ledger_db) = fold (book False) bs (ledger_of (db_entries source_db))"
    by auto
  have "length (log_items mint_then_send) = 2" by code_simp
  then have "length bs = 2" using bs by (metis length_map)
  with bs led show ?thesis by blast
qed

section \<open>Persisting a batch again\<close>

lemma book_other: "k \<noteq> fst b \<Longrightarrow> book restore b m k = m k"
  by (simp add: book_def)

lemma fold_book_other: "k \<notin> fst ` set bs \<Longrightarrow> fold (book restore) bs m k = m k"
  by (induction bs arbitrary: m) (auto simp: book_other)

text \<open>What a batch leaves under a key it books: the identity of the first row under it, the last amount.\<close>

definition last_amount :: "entry_id \<Rightarrow> (entry_id \<times> movement) list \<Rightarrow> int \<Rightarrow> int" where
  "last_amount k bs a = fold (\<lambda>b a. if fst b = k then mv_amount (snd b) else a) bs a"

lemma last_amount_simps [simp]:
  "last_amount k [] a = a"
  "last_amount k (b # bs) a = last_amount k bs (if fst b = k then mv_amount (snd b) else a)"
  by (simp_all add: last_amount_def)

lemma last_amount_fixed: "k \<in> fst ` set bs \<Longrightarrow> last_amount k bs a = last_amount k bs a'"
  by (induction bs arbitrary: a a') auto

lemma fold_book_known:
  "m k = Some old \<Longrightarrow> fold (book restore) bs m k =
     Some (old\<lparr>mv_amount := last_amount k bs (mv_amount old), mv_live := mv_live old \<or> restore \<and> k \<in> fst ` set bs\<rparr>)"
proof (induction bs arbitrary: m old)
  case Nil
  then show ?case by simp
next
  case (Cons b bs)
  show ?case
  proof (cases "fst b = k")
    case False
    with Cons.prems have "book restore b m k = Some old" by (simp add: book_other)
    from Cons.IH [of "book restore b m", OF this] False show ?thesis by auto
  next
    case True
    with Cons.prems have "book restore b m k = Some (old\<lparr>mv_amount := mv_amount (snd b), mv_live := mv_live old \<or> restore\<rparr>)"
      by (simp add: book_def)
    from Cons.IH [of "book restore b m", OF this] True show ?thesis by (cases restore) auto
  qed
qed

lemma fold_book_defined: "k \<in> fst ` set bs \<Longrightarrow> fold (book restore) bs m k \<noteq> None"
proof (induction bs arbitrary: m)
  case Nil
  then show ?case by simp
next
  case (Cons b bs)
  show ?case
  proof (cases "fst b = k")
    case True
    then obtain mv where "book restore b m k = Some mv" by (auto simp: book_def)
    from fold_book_known [of "book restore b m", OF this] show ?thesis by simp
  next
    case False
    with Cons show ?thesis by simp
  qed
qed

lemma fold_book_amount:
  assumes "k \<in> fst ` set bs" and "fold (book restore) bs m k = Some mv"
  shows "mv_amount mv = last_amount k bs a \<and> (restore \<longrightarrow> (\<forall>b \<in> set bs. mv_live (snd b)) \<longrightarrow> mv_live mv)"
  using assms
proof (induction bs arbitrary: m a)
  case Nil
  then show ?case by simp
next
  case (Cons b bs)
  show ?case
  proof (cases "fst b = k")
    case True
    then obtain old where old: "book restore b m k = Some old" "mv_amount old = mv_amount (snd b)"
      "restore \<longrightarrow> mv_live (snd b) \<longrightarrow> mv_live old"
      by (auto simp: book_def split: option.splits)
    from fold_book_known [of "book restore b m", OF old(1)] Cons.prems(2) old True show ?thesis by auto
  next
    case False
    with Cons.IH [of "book restore b m" a] Cons.prems show ?thesis by auto
  qed
qed

lemma fold_book_idem:
  assumes "\<forall>b \<in> set bs. mv_live (snd b)"
  shows "fold (book restore) bs (fold (book restore) bs m) = fold (book restore) bs m"
proof (rule ext)
  fix k
  show "fold (book restore) bs (fold (book restore) bs m) k = fold (book restore) bs m k"
  proof (cases "k \<in> fst ` set bs")
    case False
    then show ?thesis by (simp add: fold_book_other)
  next
    case True
    with fold_book_defined obtain mv where mv: "fold (book restore) bs m k = Some mv" by fastforce
    from fold_book_known [of "fold (book restore) bs m", OF mv, of restore bs] mv fold_book_amount [OF True mv, of "mv_amount mv"] assms
    show ?thesis by (cases mv) auto
  qed
qed

lemma booking_live: "map (booking c source) items = map Some bs \<Longrightarrow> \<forall>b \<in> set bs. mv_live (snd b)"
proof (induction items arbitrary: bs)
  case Nil
  then show ?case by simp
next
  case (Cons i items)
  then show ?case by (cases bs) (auto simp: booking_def split: sum.splits option.splits)
qed

text \<open>The balances are determined by the abstract ledger.\<close>

definition mv_moved :: "uuid \<Rightarrow> string \<Rightarrow> string \<Rightarrow> movement \<Rightarrow> int" where
  "mv_moved sid holder token mv =
     (if \<not> mv_live mv \<or> mv_source mv \<noteq> sid \<or> mv_token mv \<noteq> token then 0
      else (if mv_to mv = Some holder then mv_amount mv else 0)
         - (if mv_from mv = Some holder then mv_amount mv else 0))"

lemma moved_movement: "moved sid h k r = mv_moved sid h k (movement_of r)"
  by (simp add: moved_def mv_moved_def movement_of_def)

lemma ledger_of_row: "unique_key entry_key rows \<Longrightarrow> r \<in> set rows \<Longrightarrow> ledger_of rows (entry_key r) = Some (movement_of r)"
  by (simp add: ledger_of_def find_unique_key)

lemma dom_ledger_of: "dom (ledger_of rows) = entry_key ` set rows"
proof (rule set_eqI)
  fix k
  have "ledger_of rows k = None \<longleftrightarrow> k \<notin> entry_key ` set rows"
    unfolding ledger_of_def option.map_disc_iff find_None_set by blast
  then show "k \<in> dom (ledger_of rows) \<longleftrightarrow> k \<in> entry_key ` set rows" by (simp add: domIff)
qed

lemma net_ledger:
  assumes "unique_key entry_key rows"
  shows "net rows sid h k = (\<Sum>e \<in> dom (ledger_of rows). mv_moved sid h k (the (ledger_of rows e)))"
proof -
  have inj: "inj_on entry_key (set rows)" and dist: "distinct rows"
    using assms by (auto simp: unique_key_def distinct_map)
  have "net rows sid h k = (\<Sum>r \<in> set rows. moved sid h k r)"
    by (simp add: net_def sum_list_distinct_conv_sum_set dist)
  also have "\<dots> = (\<Sum>r \<in> set rows. mv_moved sid h k (the (ledger_of rows (entry_key r))))"
    by (rule sum.cong) (simp_all add: ledger_of_row [OF assms] moved_movement)
  also have "\<dots> = (\<Sum>e \<in> entry_key ` set rows. mv_moved sid h k (the (ledger_of rows e)))"
    by (simp add: sum.reindex [OF inj])
  finally show ?thesis by (simp add: dom_ledger_of)
qed

lemma stored_ledger:
  assumes "ledger_inv d" and "ledger_inv t" and "ledger_of (db_entries t) = ledger_of (db_entries d)"
  shows "stored (db_balances t) sid h k = stored (db_balances d) sid h k"
  using assms net_ledger [of "db_entries d"] net_ledger [of "db_entries t"]
  by (simp add: ledger_inv_def balances_match_def entries_ok_def)

text \<open>C6: Persisting a batch that has been persisted already changes no entry and no balance, whether the
  second run succeeds or fails; also when the batch carries one log several times.\<close>

theorem persist_idempotent:
  assumes "ledger_inv d"
    and "persist_decoded_logs_with_options c source logs options d = (Ok s, t)"
    and "persist_decoded_logs_with_options c source logs options t = (x, u)"
  shows "ledger_of (db_entries u) = ledger_of (db_entries t)
    \<and> stored (db_balances u) sid h k = stored (db_balances t) sid h k"
proof -
  have inv: "ledger_inv t" "ledger_inv u"
    using persist_keeps [OF assms(1,2)] persist_keeps assms(3) by auto
  have same: "ledger_of (db_entries u) = ledger_of (db_entries t)"
  proof (cases x)
    case (Inl e)
    with assms(3) safeD [OF persist_safe] have "tables u = tables t" by blast
    then show ?thesis by (simp add: tables_eq_iff)
  next
    case (Inr s')
    with assms(3) have again: "persist_decoded_logs_with_options c source logs options t = (Ok s', u)" by simp
    obtain bs where bs: "map (booking c source) (log_items logs) = map Some bs"
        "ledger_of (db_entries t) = fold (book (restore_orphaned_conflicts options)) bs (ledger_of (db_entries d))"
      by (rule persist_books [OF assms(1,2)])
    obtain bs' where bs': "map (booking c source) (log_items logs) = map Some bs'"
        "ledger_of (db_entries u) = fold (book (restore_orphaned_conflicts options)) bs' (ledger_of (db_entries t))"
      by (rule persist_books [OF inv(1) again])
    have "bs' = bs" using bs(1) bs'(1) by (simp add: inj_map_eq_map)
    with bs(2) bs'(2) fold_book_idem [OF booking_live [OF bs(1)]] show ?thesis by simp
  qed
  with stored_ledger [OF inv same] show ?thesis by simp
qed

text \<open>C6 at the sample batch, persisted twice.\<close>

definition ledger_db2 :: db where
  "ledger_db2 = snd (persist_decoded_logs sample_crates sample_ref mint_then_send ledger_db)"

lemma ledger_db_run:
  obtains s where "persist_decoded_logs_with_options sample_crates sample_ref mint_then_send
    \<lparr>restore_orphaned_conflicts = False\<rparr> source_db = (Ok s, ledger_db)"
  using ledger_db_ok
  by (cases "persist_decoded_logs sample_crates sample_ref mint_then_send source_db")
     (auto simp: ledger_db_def persist_decoded_logs_def is_ok_def split: sum.splits)

theorem persist_idempotent_witness:
  "ledger_of (db_entries ledger_db2) = ledger_of (db_entries ledger_db)
     \<and> stored (db_balances ledger_db2) 5 ''0xaa'' [] = 2"
proof -
  obtain s where run: "persist_decoded_logs_with_options sample_crates sample_ref mint_then_send
      \<lparr>restore_orphaned_conflicts = False\<rparr> source_db = (Ok s, ledger_db)"
    by (rule ledger_db_run)
  obtain x where again: "persist_decoded_logs_with_options sample_crates sample_ref mint_then_send
      \<lparr>restore_orphaned_conflicts = False\<rparr> ledger_db = (x, ledger_db2)"
    by (auto simp: ledger_db2_def persist_decoded_logs_def prod_eq_iff)
  have "stored (db_balances ledger_db) 5 ''0xaa'' [] = 2" by code_simp
  with persist_idempotent [OF ledger_reachable_inv [OF source_db_reachable] run again, of 5 "''0xaa''" "[]"]
  show ?thesis by simp
qed

section \<open>Orphaning\<close>

text \<open>C8: Orphaning a range of a source marks exactly its live entries and events in the range, reports how
  many there were, takes exactly their movements out of the balances, and keeps the ledger
  consistent; a failed call changes no table.\<close>

theorem orphan_source_range_exact:
  assumes "ledger_inv d" and "orphan_source_range source lo hi d = (x, t)"
  shows "case x of
      Err _ \<Rightarrow> tables t = tables d
    | Ok s \<Rightarrow>
        db_entries t = update_rows (live_entry_in (so_id source) lo hi) (\<lambda>r. r\<lparr>le_orphaned := True\<rparr>) (db_entries d)
        \<and> db_events t = update_rows (live_event_in (so_id source) lo hi) (\<lambda>r. r\<lparr>ev_orphaned := True\<rparr>) (db_events d)
        \<and> os_ledger_entries_orphaned s = count_rows (live_entry_in (so_id source) lo hi) (db_entries d)
        \<and> os_events_orphaned s = count_rows (live_event_in (so_id source) lo hi) (db_events d)
        \<and> count_rows (live_entry_in (so_id source) lo hi) (db_entries t) = 0
        \<and> (\<forall>sid h k. stored (db_balances t) sid h k =
              stored (db_balances d) sid h k - net (filter (live_entry_in (so_id source) lo hi) (db_entries d)) sid h k)
        \<and> ledger_inv t \<and> ledger_frame d t"
proof (cases x)
  case (Inl e)
  with assms(2) safeD [OF orphan_safe] show ?thesis by simp
next
  case (Inr s)
  with assms(2) have run: "orphan_source_range source lo hi d = (Ok s, t)" by simp
  note ok = orphan_Ok [OF assms(1) run]
  have none: "count_rows (live_entry_in (so_id source) lo hi) (db_entries t) = 0"
    unfolding ok(2) by (auto simp: count_rows_def filter_empty_conv in_update_rows live_entry_in_def)
  have bal: "stored (db_balances t) sid h k =
      stored (db_balances d) sid h k - net (filter (live_entry_in (so_id source) lo hi) (db_entries d)) sid h k" for sid h k
    using assms(1) ok(1) net_orphan_rows by (simp add: ledger_inv_def balances_match_def ok(2))
  show ?thesis unfolding Inr using ok none bal by simp
qed

lemma net_orphaned: "list_all le_orphaned rows \<Longrightarrow> net rows sid h k = 0"
  by (induction rows) (auto simp: moved_def)

definition receive_only :: "(rpc_log \<times> decoded_log) list" where
  "receive_only = [move ''0xa'' ''0x0'' zero_address ''0xaa'' ''7'', move ''0xb'' ''0x1'' zero_address ''0xbb'' ''5'']"

definition mints_db :: db where
  "mints_db = snd (persist_decoded_logs sample_crates sample_ref receive_only source_db)"

lemma mints_db_reachable: "ledger_reachable mints_db"
  by (rule lr_step [OF source_db_reachable ls_persist [where t = mints_db]])
     (auto simp: mints_db_def persist_decoded_logs_def prod_eq_iff)

lemma mints_db_orphan:
  "is_ok (fst (orphan_source_range sample_source_row 11 20 mints_db))"
  "filter (live_entry_in 5 11 20) (db_entries mints_db) \<noteq> []"
  "stored (db_balances mints_db) 5 ''0xaa'' [] = 7" "stored (db_balances mints_db) 5 ''0xbb'' [] = 5"
  "net (filter (live_entry_in 5 11 20) (db_entries mints_db)) 5 ''0xbb'' [] = 5"
  by code_simp+

text \<open>C8 at a ledger of two mints whose second block is orphaned.\<close>

theorem orphan_source_range_exact_witness:
  "is_ok (fst (orphan_source_range sample_source_row 11 20 mints_db))
     \<and> stored (db_balances (snd (orphan_source_range sample_source_row 11 20 mints_db))) 5 ''0xbb'' [] = 0"
proof -
  obtain x t where run: "orphan_source_range sample_source_row 11 20 mints_db = (x, t)"
    by (cases "orphan_source_range sample_source_row 11 20 mints_db")
  with mints_db_orphan(1) obtain s where x: "x = Ok s" by (cases x) auto
  have "so_id sample_source_row = 5" by (simp add: sample_source_row_def)
  with orphan_source_range_exact [OF ledger_reachable_inv [OF mints_db_reachable] run] x mints_db_orphan run
  show ?thesis by simp
qed

text \<open>C22: Orphaning reverses the entries from the oldest to the newest. If the oldest live entry of the
  range credited a holder with more than the holder still has (the tokens moved on, even inside the
  same range), the call fails and changes no table, although taking the whole range out would leave
  every balance non-negative.\<close>

theorem orphan_forward_order_refuses:
  assumes "ledger_inv d"
    and "sort_by (\<lambda>a b. position_le (entry_position a) (entry_position b))
           (filter (live_entry_in (so_id source) lo hi) (db_entries d)) = r # rest"
    and "le_to_address r = Some h" and "le_from_address r \<noteq> Some h"
    and "stored (db_balances d) (so_id source) h (le_token_id r) < le_amount r"
    and "orphan_source_range source lo hi d = (x, t)"
  shows "(\<exists>e. x = Err e) \<and> tables t = tables d"
proof (cases x)
  case (Inl e)
  with assms(6) safeD [OF orphan_safe] show ?thesis by simp
next
  case (Inr s)
  have "r \<in> set (filter (live_entry_in (so_id source) lo hi) (db_entries d))"
    using assms(2) by (metis list.set_intros(1) set_sort_by)
  then have r: "le_source_id r = so_id source" "\<not> le_orphaned r" by (auto simp: live_entry_in_def)
  from assms(6) Inr obtain v m where "reverse_entry (source_ref_of source) r d = (Ok v, m)"
    by (auto simp: orphan_source_range_def lock_source_for_write_conn_def seq_Ok_iff assms(2) split: if_splits)
  then have ap: "apply_balance_delta (source_ref_of source) (Some r) (r\<lparr>le_orphaned := True\<rparr>) d = (Ok v, m)"
    by (simp add: reverse_entry_def)
  have "balances_ok d" using assms(1) by (simp add: ledger_inv_def)
  from apply_balance_books [OF this ap] r(1)
  have b: "books (\<lambda>sid h k. - moved sid h k r) d m" by (simp add: source_ref_of_def)
  then have "stored (db_balances m) (so_id source) h (le_token_id r)
      = stored (db_balances d) (so_id source) h (le_token_id r) - le_amount r"
    using r assms(3,4) by (simp add: books_def moved_def)
  moreover have "0 \<le> stored (db_balances m) (so_id source) h (le_token_id r)"
    using b stored_nonneg [of m] by (simp only: books_def)
  ultimately show ?thesis using assms(5) by simp
qed

lemma ledger_db_live:
  "map (\<lambda>r. (le_to_address r, le_from_address r, le_token_id r, le_amount r))
     (sort_by (\<lambda>a b. position_le (entry_position a) (entry_position b)) (filter (live_entry_in 5 10 11) (db_entries ledger_db)))
   = [(Some ''0xaa'', None, [], 7), (Some ''0xbb'', Some ''0xaa'', [], 5)]"
  "stored (db_balances ledger_db) 5 ''0xaa'' [] = 2"
  by code_simp+

text \<open>C22 at a mint to a holder who sends most of it on in the next block, both blocks orphaned: the net effect
  of the range would be zero for everyone.\<close>

theorem orphan_forward_order_refuses_witness:
  "\<not> is_ok (fst (orphan_source_range sample_source_row 10 11 ledger_db))
     \<and> (\<forall>sid h k. net (update_rows (live_entry_in 5 10 11) (\<lambda>r. r\<lparr>le_orphaned := True\<rparr>) (db_entries ledger_db)) sid h k \<ge> 0)"
proof -
  obtain x t where run: "orphan_source_range sample_source_row 10 11 ledger_db = (x, t)"
    by (cases "orphan_source_range sample_source_row 10 11 ledger_db")
  have sid: "so_id sample_source_row = 5" by (simp add: sample_source_row_def)
  let ?rows = "sort_by (\<lambda>a b. position_le (entry_position a) (entry_position b)) (filter (live_entry_in 5 10 11) (db_entries ledger_db))"
  obtain r rest where rows: "?rows = r # rest" using ledger_db_live(1) by (cases ?rows) auto
  with ledger_db_live(1) have r: "le_to_address r = Some ''0xaa''" "le_from_address r \<noteq> Some ''0xaa''"
    "le_token_id r = []" "le_amount r = 7" by auto
  have "(\<exists>e. x = Err e) \<and> tables t = tables ledger_db"
    by (rule orphan_forward_order_refuses [OF ledger_reachable_inv [OF ledger_db_reachable] _ r(1,2) _ run])
       (use rows r ledger_db_live(2) sid in auto)
  moreover have "list_all le_orphaned (update_rows (live_entry_in 5 10 11) (\<lambda>r. r\<lparr>le_orphaned := True\<rparr>) (db_entries ledger_db))"
    by code_simp
  then have "net (update_rows (live_entry_in 5 10 11) (\<lambda>r. r\<lparr>le_orphaned := True\<rparr>) (db_entries ledger_db)) sid h k = 0" for sid h k
    by (rule net_orphaned)
  ultimately show ?thesis using run by auto
qed

section \<open>Replaying a range\<close>

lemma ledger_of_orphan_rows:
  "ledger_of (update_rows P (\<lambda>r. r\<lparr>le_orphaned := True\<rparr>) rows) k =
    (case List.find (\<lambda>r. entry_key r = k) rows of None \<Rightarrow> None
     | Some r \<Rightarrow> Some (movement_of (if P r then r\<lparr>le_orphaned := True\<rparr> else r)))"
  by (induction rows) (simp_all add: ledger_of_def)

text \<open>C7: A replay (orphaning a range, then persisting the logs the chain now has, with restoration) leaves
  exactly the replayed entries of the range live: an entry that was live in the range is live
  afterwards if and only if the replayed logs book its identity, every identity they book is live,
  all other entries are as before, and the balances are those of the resulting ledger.\<close>

theorem replay_replaces_range:
  assumes "ledger_inv d"
    and "orphan_source_range source lo hi d = (Ok s, t)"
    and "persist_decoded_logs_with_options c (source_ref_of source) logs \<lparr>restore_orphaned_conflicts = True\<rparr> t = (Ok s', u)"
    and "map (booking c (source_ref_of source)) (log_items logs) = map Some bs"
  shows "(\<forall>r \<in> set (db_entries d). live_entry_in (so_id source) lo hi r \<longrightarrow>
        (\<exists>mv. ledger_of (db_entries u) (entry_key r) = Some mv \<and> (mv_live mv \<longleftrightarrow> entry_key r \<in> fst ` set bs)))
    \<and> (\<forall>b \<in> set bs. \<exists>mv. ledger_of (db_entries u) (fst b) = Some mv \<and> mv_live mv)
    \<and> (\<forall>r \<in> set (db_entries d). \<not> live_entry_in (so_id source) lo hi r \<longrightarrow> entry_key r \<notin> fst ` set bs \<longrightarrow>
        ledger_of (db_entries u) (entry_key r) = Some (movement_of r))
    \<and> balances_match u"
proof -
  note ok = orphan_Ok [OF assms(1,2)]
  have uk: "unique_key entry_key (db_entries d)" using assms(1) by (simp add: ledger_inv_def entries_ok_def)
  obtain bs' where "map (booking c (source_ref_of source)) (log_items logs) = map Some bs'"
    and u: "ledger_of (db_entries u) = fold (book True) bs' (ledger_of (db_entries t))"
    using persist_books [OF ok(1) assms(3)] by auto
  with assms(4) have u: "ledger_of (db_entries u) = fold (book True) bs (ledger_of (db_entries t))"
    by (simp add: inj_map_eq_map)
  have t: "ledger_of (db_entries t) (entry_key r) =
      Some (movement_of (if live_entry_in (so_id source) lo hi r then r\<lparr>le_orphaned := True\<rparr> else r))"
    if "r \<in> set (db_entries d)" for r
    using find_unique_key [OF uk that] by (simp add: ok(2) ledger_of_orphan_rows)
  have live: "\<exists>mv. ledger_of (db_entries u) k = Some mv \<and> mv_live mv" if k: "k \<in> fst ` set bs" for k
  proof -
    from fold_book_defined [OF k] u obtain mv where mv: "fold (book True) bs (ledger_of (db_entries t)) k = Some mv"
      by fastforce
    from fold_book_amount [OF k mv] booking_live [OF assms(4)] u mv show ?thesis by simp
  qed
  have rest: "ledger_of (db_entries u) k = ledger_of (db_entries t) k" if "k \<notin> fst ` set bs" for k
    using u fold_book_other [OF that] by simp
  have "\<exists>mv. ledger_of (db_entries u) (entry_key r) = Some mv \<and> (mv_live mv \<longleftrightarrow> entry_key r \<in> fst ` set bs)"
    if "r \<in> set (db_entries d)" "live_entry_in (so_id source) lo hi r" for r
  proof (cases "entry_key r \<in> fst ` set bs")
    case True
    with live show ?thesis by blast
  next
    case False
    with rest [OF False] t [OF that(1)] that(2) show ?thesis by (simp add: movement_of_def)
  qed
  moreover have "balances_match u"
    using persist_keeps [OF ok(1) assms(3)] by (simp add: ledger_inv_def)
  ultimately show ?thesis using live rest t by simp
qed

definition orphaned_db :: db where
  "orphaned_db = snd (orphan_source_range sample_source_row 11 20 mints_db)"

definition reorged_logs :: "(rpc_log \<times> decoded_log) list" where
  "reorged_logs = [move ''0xb'' ''0x2'' zero_address ''0xcc'' ''9'']"

definition replayed_db :: db where
  "replayed_db = snd (persist_decoded_logs_with_options sample_crates sample_ref reorged_logs
     \<lparr>restore_orphaned_conflicts = True\<rparr> orphaned_db)"

lemma replayed_ok:
  "is_ok (fst (persist_decoded_logs_with_options sample_crates sample_ref reorged_logs \<lparr>restore_orphaned_conflicts = True\<rparr> orphaned_db))"
  "stored (db_balances replayed_db) 5 ''0xcc'' [] = 9"
  by code_simp+

lemma is_ok_pair: "is_ok (fst p) \<Longrightarrow> \<exists>a. p = (Ok a, snd p)"
  by (cases p; cases "fst p") auto

text \<open>C7 at a reorganisation that replaces the mint of block 11 by another one.\<close>

theorem replay_replaces_range_witness:
  "balances_match replayed_db \<and> stored (db_balances replayed_db) 5 ''0xcc'' [] = 9
     \<and> ledger_of (db_entries replayed_db) (1, ''0x7'', 2, 0) \<noteq> None"
proof -
  have sref: "source_ref_of sample_source_row = sample_ref" by (simp add: sample_ref_def)
  obtain s where 1: "orphan_source_range sample_source_row 11 20 mints_db = (Ok s, orphaned_db)"
    using is_ok_pair [OF mints_db_orphan(1)] by (auto simp: orphaned_db_def)
  obtain s' where 2: "persist_decoded_logs_with_options sample_crates (source_ref_of sample_source_row) reorged_logs
      \<lparr>restore_orphaned_conflicts = True\<rparr> orphaned_db = (Ok s', replayed_db)"
    using is_ok_pair [OF replayed_ok(1)] by (auto simp: replayed_db_def sref)
  have 3: "map (booking sample_crates sample_ref) (log_items reorged_logs)
      = map Some [((1, ''0x7'', 2, 0), \<lparr>mv_source = 5, mv_from = None, mv_to = Some ''0xcc'', mv_token = [],
          mv_amount = 9, mv_live = True\<rparr>)]"
    by code_simp
  from replay_replaces_range [OF ledger_reachable_inv [OF mints_db_reachable] 1 2 3 [folded sref]] replayed_ok(2)
  show ?thesis by auto
qed

section \<open>A log that moves to another block\<close>

lemma new_row_hash:
  "new_ledger_row c source log eid entry i now = Ok new \<Longrightarrow> le_block_hash new = to_ascii_lowercase (log_block_hash log)"
  by (auto simp: new_ledger_row_def)

text \<open>When a log whose entry is stored comes back in another block (same transaction and log index, as after
  a reorganisation), persisting it takes over the new block hash but keeps the old block number.\<close>

theorem reappearing_entry_keeps_block_number:
  assumes "ledger_inv d" and "persist_entry c source log eid options entry d = (Ok v, t)"
    and "p \<in> set (db_entries d)" and "log_entry_key source log (de_batch_index entry) = Ok (entry_key p)"
  shows "\<exists>q \<in> set (db_entries t). entry_key q = entry_key p \<and> le_block_number q = le_block_number p
    \<and> le_block_hash q = to_ascii_lowercase (log_block_hash log)"
proof -
  obtain new where new: "new_ledger_row c source log eid entry (le_id new) (le_inserted_at new) = Ok new"
    and t: "db_entries t = record_entry new (restore_orphaned_conflicts options) (db_entries d)"
    by (rule persist_entry_Ok [OF assms(1,2)])
  from new_row_fields(4) [OF new] assms(4) have key: "entry_key new = entry_key p" by simp
  have hash: "le_block_hash new = to_ascii_lowercase (log_block_hash log)"
    by (rule new_row_hash [OF new])
  have "unique_key entry_key (db_entries d)" using assms(1) by (simp add: ledger_inv_def entries_ok_def)
  from find_unique_key [OF this assms(3)] key
  have "db_entries t = update_rows (\<lambda>r. entry_key r = entry_key p) (rebook new (restore_orphaned_conflicts options)) (db_entries d)"
    by (simp add: t record_entry_def)
  with assms(3) have "rebook new (restore_orphaned_conflicts options) p \<in> set (db_entries t)"
    by (auto simp: in_update_rows intro!: bexI [of _ p])
  then show ?thesis
    by (rule bexI [rotated]) (simp add: hash rebook_def excluded_entry_def entry_key_def)
qed

definition remined_log :: rpc_log where
  "remined_log = (move_log ''0x63'' ''0x0'')\<lparr>log_block_hash := ''0xB2''\<rparr>"

definition remined_db :: "(app_error + unit) \<times> db" where
  "remined_db = persist_entry sample_crates sample_ref remined_log (ev_id (hd (db_events ledger_db)))
     \<lparr>restore_orphaned_conflicts = False\<rparr> (move_entry zero_address ''0xaa'' ''7'') ledger_db"

lemma remined_ok:
  "is_ok (fst remined_db)"
  "map entry_key (db_entries ledger_db) = [(1, ''0x7'', 0, 0), (1, ''0x7'', 1, 0)]"
  "map le_block_number (db_entries ledger_db) = [10, 11]"
  "log_entry_key sample_ref remined_log 0 = Ok (1, ''0x7'', 0, 0)" "to_ascii_lowercase (log_block_hash remined_log) = ''0xb2''"
  by code_simp+

text \<open>At the mint of block 10 mined again in block 99.\<close>

theorem reappearing_entry_keeps_block_number_witness:
  "\<exists>q \<in> set (db_entries (snd remined_db)). le_block_number q = 10 \<and> le_block_hash q = ''0xb2''"
proof -
  obtain v where run: "remined_db = (Ok v, snd remined_db)" using is_ok_pair [OF remined_ok(1)] by blast
  obtain p rest where p: "db_entries ledger_db = p # rest" using remined_ok(2) by (cases "db_entries ledger_db") auto
  with remined_ok(2,3) have k: "entry_key p = (1, ''0x7'', 0, 0)" "le_block_number p = 10" by auto
  have b: "de_batch_index (move_entry zero_address ''0xaa'' ''7'') = 0" by (simp add: move_entry_def)
  have key: "log_entry_key sample_ref remined_log (de_batch_index (move_entry zero_address ''0xaa'' ''7'')) = Ok (entry_key p)"
    using remined_ok(4) k b by simp
  from reappearing_entry_keeps_block_number [OF ledger_reachable_inv [OF ledger_db_reachable]
      run [unfolded remined_db_def, folded remined_db_def [symmetric]] _ key] p k remined_ok(5)
  show ?thesis by (auto simp: remined_db_def)
qed

end
