(* ===== verification/Ingest.thy ===== *)
theory Ingest
  imports Backfill
begin

text \<open>
  The ingestion service (src/application/ingest.rs): resolving a block range, detecting the token
  standard, fetching logs in chunks, attaching timestamps, decoding, and handing the result to the
  repository. The node and the repository are the records of \<open>Ports\<close>. Progress reports are left out.
\<close>

section \<open>Arguments\<close>

record resolved_range =
  rr_from :: u64
  rr_to :: u64
  rr_head :: u64
  rr_finalized_head :: u64

definition parse_block_arg :: "string \<Rightarrow> u64 \<Rightarrow> u64 result" where
  "parse_block_arg value latest =
     (if value = ''latest'' then Ok latest
      else (case strip_prefix ''0x'' value of
          Some hex \<Rightarrow> ok_or (BlockParse value) (parse_u64 16 hex)
        | None \<Rightarrow> ok_or (BlockParse value) (parse_u64 10 value)))"

definition resolve_finalized_range :: "rpc \<Rightarrow> string option \<Rightarrow> string \<Rightarrow> u64 \<Rightarrow> int \<Rightarrow> resolved_range result" where
  "resolve_finalized_range rpc from_block to_block lookback confirmations =
     (if confirmations < 0 then Err (CannotBeNegative ''finality-confirmations'')
      else
        and_then (rpc_block_number rpc) (\<lambda>head.
        let finalized_head = u64_saturating_sub head (i64_as_u64 confirmations) in
        and_then (parse_block_arg to_block finalized_head) (\<lambda>to.
        and_then (case from_block of
              Some value \<Rightarrow> parse_block_arg value finalized_head
            | None \<Rightarrow> Ok (u64_saturating_sub to lookback)) (\<lambda>from.
          if from > to then Err (InvertedRange from to)
          else Ok \<lparr>rr_from = from, rr_to = to, rr_head = head, rr_finalized_head = finalized_head\<rparr>))))"

definition normalize_address :: "string \<Rightarrow> string result" where
  "normalize_address value =
     (let normalized = to_ascii_lowercase value
      in if length normalized \<noteq> 42 \<or> \<not> starts_with ''0x'' normalized
           \<or> \<not> list_all is_ascii_hexdigit (drop 2 normalized)
         then Err (BadAddress value) else Ok normalized)"

fun redact_at :: "string list \<Rightarrow> string \<Rightarrow> string" where
  "redact_at [] value = ''<configured>''"
| "redact_at (marker # markers) value =
     (case str_find marker value of
        Some index \<Rightarrow> take (index + length marker) value @ ''<redacted>''
      | None \<Rightarrow> redact_at markers value)"

definition redact_rpc_url :: "string \<Rightarrow> string" where
  "redact_rpc_url value = redact_at [''/v2/'', ''/v3/''] value"

section \<open>Contract code\<close>

definition validate_contract_code_at_block :: "rpc \<Rightarrow> string \<Rightarrow> u64 \<Rightarrow> unit result" where
  "validate_contract_code_at_block rpc contract block =
     and_then (rpc_code_at rpc contract block) (\<lambda>code.
       if trim code = ''0x'' then Err (NoContractCode contract block) else Ok ())"

definition validate_contract_code_at_boundaries :: "rpc \<Rightarrow> string \<Rightarrow> u64 \<Rightarrow> u64 \<Rightarrow> unit result" where
  "validate_contract_code_at_boundaries rpc contract from to =
     (if from > to then Err (InvertedRange from to)
      else
        and_then (validate_contract_code_at_block rpc contract from) (\<lambda>_.
          if to \<noteq> from then validate_contract_code_at_block rpc contract to else Ok ()))"

section \<open>Detection of the standard\<close>

record prefetched_chunk =
  pf_from :: u64
  pf_to :: u64
  pf_logs :: "rpc_log list"

record standard_detection =
  sd_standard :: standard
  sd_prefetched_logs :: prefetched_chunk

fun detect_from_logs :: "crates \<Rightarrow> standard option \<Rightarrow> rpc_log list \<Rightarrow> standard option result" where
  "detect_from_logs c detected [] = Ok detected"
| "detect_from_logs c detected (log # logs) =
     and_then (detect_token_standard_from_log c log) (\<lambda>candidate.
       case candidate of
         None \<Rightarrow> detect_from_logs c detected logs
       | Some s \<Rightarrow>
           (case detected of
              Some existing \<Rightarrow>
                if existing \<noteq> s then Err (ConflictingStandards (standard_as_str existing) (standard_as_str s))
                else detect_from_logs c detected logs
            | None \<Rightarrow> detect_from_logs c (Some s) logs))"

definition detect_token_standard_from_logs :: "crates \<Rightarrow> rpc_log list \<Rightarrow> standard option result" where
  "detect_token_standard_from_logs c logs = detect_from_logs c None logs"

function detect_loop :: "crates \<Rightarrow> rpc \<Rightarrow> string \<Rightarrow> u64 \<Rightarrow> u64 \<Rightarrow> u64 \<Rightarrow> standard_detection option result" where
  "detect_loop c rpc contract cursor to chunk_size =
     (if cursor \<le> to then
        (let stop = min (u64_saturating_add cursor (chunk_size - 1)) to in
         and_then (rpc_logs rpc contract Auto cursor stop) (\<lambda>logs.
         and_then (detect_token_standard_from_logs c logs) (\<lambda>found.
           case found of
             Some standard \<Rightarrow>
               Ok (Some \<lparr>sd_standard = standard,
                         sd_prefetched_logs = \<lparr>pf_from = cursor, pf_to = stop, pf_logs = logs\<rparr>\<rparr>)
           | None \<Rightarrow> if stop = - 1 then Ok None else detect_loop c rpc contract (stop + 1) to chunk_size)))
      else Ok None)"
  by pat_completeness auto

termination
  by (relation "measure (\<lambda>(_, _, _, f, t, _). Suc (unat t) - unat f)")
    (use next_chunk_from in \<open>auto simp: word_le_nat_alt intro!: diff_less_mono2\<close>)

declare detect_loop.simps [simp del]

definition detect_token_standard_with_prefetched_logs ::
  "crates \<Rightarrow> rpc \<Rightarrow> string \<Rightarrow> u64 \<Rightarrow> u64 \<Rightarrow> u64 \<Rightarrow> standard_detection result"
where
  "detect_token_standard_with_prefetched_logs c rpc contract from to chunk_size =
     (if from > to then Err (InvertedRange from to)
      else if chunk_size = 0 then Err (MustBePositive ''chunk-size'')
      else and_then (detect_loop c rpc contract from to chunk_size) (ok_or (NoTransferLogs contract from to)))"

definition detect_token_standard :: "crates \<Rightarrow> rpc \<Rightarrow> string \<Rightarrow> u64 \<Rightarrow> u64 \<Rightarrow> u64 \<Rightarrow> standard result" where
  "detect_token_standard c rpc contract from to chunk_size =
     and_then (detect_token_standard_with_prefetched_logs c rpc contract from to chunk_size) (\<lambda>d. Ok (sd_standard d))"

section \<open>Fetching\<close>

function fetch_loop ::
  "rpc \<Rightarrow> string \<Rightarrow> standard \<Rightarrow> u64 \<Rightarrow> u64 \<Rightarrow> u64 \<Rightarrow> prefetched_chunk option \<Rightarrow> rpc_log list \<Rightarrow> rpc_log list result"
where
  "fetch_loop rpc contract standard cursor to chunk_size prefetched logs =
     (if cursor \<le> to then
        (let stop = min (u64_saturating_add cursor (chunk_size - 1)) to;
             hit = (case prefetched of None \<Rightarrow> False | Some p \<Rightarrow> pf_from p = cursor \<and> pf_to p = stop);
             rest = (if hit then None else prefetched)
         in and_then (case prefetched of
                Some p \<Rightarrow> if hit then Ok (pf_logs p) else rpc_logs rpc contract standard cursor stop
              | None \<Rightarrow> rpc_logs rpc contract standard cursor stop) (\<lambda>chunk_logs.
              if stop = - 1 then Ok (logs @ chunk_logs)
              else fetch_loop rpc contract standard (stop + 1) to chunk_size rest (logs @ chunk_logs)))
      else Ok logs)"
  by pat_completeness auto

termination
  by (relation "measure (\<lambda>(_, _, _, f, t, _). Suc (unat t) - unat f)")
    (use next_chunk_from in \<open>auto simp: word_le_nat_alt intro!: diff_less_mono2\<close>)

declare fetch_loop.simps [simp del]

definition fetch_logs_in_chunks_with_progress ::
  "rpc \<Rightarrow> string \<Rightarrow> standard \<Rightarrow> u64 \<Rightarrow> u64 \<Rightarrow> u64 \<Rightarrow> prefetched_chunk option \<Rightarrow> rpc_log list result"
where
  "fetch_logs_in_chunks_with_progress rpc contract standard from to chunk_size prefetched =
     (if from > to then Err (InvertedRange from to)
      else if chunk_size = 0 then Err (MustBePositive ''chunk-size'')
      else fetch_loop rpc contract standard from to chunk_size prefetched [])"

definition fetch_logs_in_chunks :: "rpc \<Rightarrow> string \<Rightarrow> standard \<Rightarrow> u64 \<Rightarrow> u64 \<Rightarrow> u64 \<Rightarrow> rpc_log list result" where
  "fetch_logs_in_chunks rpc contract standard from to chunk_size =
     fetch_logs_in_chunks_with_progress rpc contract standard from to chunk_size None"

text \<open>The map of the blocks to their timestamps is an association list in the order of the blocks.\<close>

definition attach_block_timestamps :: "rpc \<Rightarrow> rpc_log list \<Rightarrow> rpc_log list result" where
  "attach_block_timestamps rpc logs =
     and_then (map_result (\<lambda>log. parse_hex_u64 (log_block_number log)) logs) (\<lambda>blocks.
     and_then (map_result (\<lambda>block. and_then (rpc_block_timestamp rpc block) (\<lambda>ts. Ok (block, ts))) (btree_set blocks)) (\<lambda>timestamps.
       map_result (\<lambda>log. and_then (parse_hex_u64 (log_block_number log)) (\<lambda>block.
         Ok (log\<lparr>log_block_timestamp := map_of timestamps block\<rparr>))) logs))"

definition fetch_transaction_receipts :: "rpc \<Rightarrow> string list \<Rightarrow> transaction_receipt list result" where
  "fetch_transaction_receipts rpc hashes = map_result (rpc_transaction_receipt rpc) hashes"

section \<open>Ingesting a range\<close>

record ingest_options =
  include_transaction_receipts :: bool
  io_restore_orphaned_conflicts :: bool
  prefetched_logs :: "prefetched_chunk option"

fun decode_logs :: "crates \<Rightarrow> standard \<Rightarrow> rpc_log list \<Rightarrow> (rpc_log \<times> decoded_log) list result" where
  "decode_logs c standard [] = Ok []"
| "decode_logs c standard (log # logs) =
     and_then (decode_log c log standard) (\<lambda>decoded.
     and_then (decode_logs c standard logs) (\<lambda>rest.
       Ok (case decoded of Some d \<Rightarrow> (log, d) # rest | None \<Rightarrow> rest)))"

definition resolve_standard ::
  "crates \<Rightarrow> rpc \<Rightarrow> source_ref \<Rightarrow> u64 \<Rightarrow> u64 \<Rightarrow> u64 \<Rightarrow> prefetched_chunk option
   \<Rightarrow> (standard \<times> prefetched_chunk option) result"
where
  "resolve_standard c rpc source from to chunk_size prefetched =
     and_then (standard_from_str (sr_token_standard source)) (\<lambda>standard.
       if standard_is_auto standard then
         and_then (detect_token_standard_with_prefetched_logs c rpc (sr_contract_address source) from to chunk_size)
           (\<lambda>d. Ok (sd_standard d, Some (sd_prefetched_logs d)))
       else Ok (standard, prefetched))"

definition decoded_logs_of_range ::
  "crates \<Rightarrow> rpc \<Rightarrow> source_ref \<Rightarrow> u64 \<Rightarrow> u64 \<Rightarrow> u64 \<Rightarrow> prefetched_chunk option \<Rightarrow> (rpc_log \<times> decoded_log) list result"
where
  "decoded_logs_of_range c rpc source from to chunk_size prefetched =
     (if from > to then Err (InvertedRange from to)
      else if chunk_size = 0 then Err (MustBePositive ''chunk-size'')
      else
        and_then (resolve_standard c rpc source from to chunk_size prefetched) (\<lambda>(standard, prefetched).
        and_then (fetch_logs_in_chunks_with_progress rpc (sr_contract_address source) standard from to chunk_size prefetched) (\<lambda>logs.
        and_then (attach_block_timestamps rpc logs) (\<lambda>logs. decode_logs c standard logs))))"

definition transaction_hashes_of :: "(rpc_log \<times> decoded_log) list \<Rightarrow> string list" where
  "transaction_hashes_of decoded = btree_set (map (\<lambda>ld. to_ascii_lowercase (log_transaction_hash (fst ld))) decoded)"

definition ingest_source_range ::
  "crates \<Rightarrow> rpc \<Rightarrow> 's ledger_ingest_repository \<Rightarrow> source_ref \<Rightarrow> u64 \<Rightarrow> u64 \<Rightarrow> u64 \<Rightarrow> ingest_options
   \<Rightarrow> ('s, app_error, scan_summary) prog"
where
  "ingest_source_range c rpc ledger source from to chunk_size options =
     seq (lift (decoded_logs_of_range c rpc source from to chunk_size (prefetched_logs options))) (\<lambda>decoded.
     seq (li_persist_decoded_logs ledger source decoded
            \<lparr>restore_orphaned_conflicts = io_restore_orphaned_conflicts options\<rparr>) (\<lambda>summary.
       if include_transaction_receipts options then
         seq (lift (fetch_transaction_receipts rpc (transaction_hashes_of decoded))) (\<lambda>receipts.
         seq (li_persist_transaction_receipts ledger (sr_chain_id source) receipts) (\<lambda>count.
           ret (summary\<lparr>ss_transaction_receipts_persisted := count\<rparr>)))
       else ret summary))"

end
