(* ===== verification/Ingest_Spec.thy ===== *)
theory Ingest_Spec
  imports Ingest Ledger_Spec
begin

text \<open>
  What the ingestion service promises: chunked fetching is one fetch of the whole range, detection
  is exact, timestamps are those of the node, and ingesting a range books its decoded logs into any
  repository with the contract \<open>ingest_store\<close>, which the PostgreSQL repository has.
\<close>

section \<open>Fetching in chunks\<close>

definition chunk_logs :: "rpc \<Rightarrow> string \<Rightarrow> standard \<Rightarrow> backfill_chunk \<Rightarrow> rpc_log list result" where
  "chunk_logs rpc contract standard r = rpc_logs rpc contract standard (chunk_from r) (chunk_to r)"

lemma fetch_loop_chunks:
  "fetch_loop rpc contract standard f t n None acc =
     and_then (map_result (chunk_logs rpc contract standard) (split_loop f t n)) (\<lambda>ls. Ok (acc @ concat ls))"
proof (induction f t n arbitrary: acc rule: split_loop.induct)
  case (1 f t n)
  show ?case
  proof (cases "f \<le> t")
    case False
    then show ?thesis by (simp add: fetch_loop.simps [of _ _ _ f] split_loop.simps [of f])
  next
    case True
    let ?stop = "min (u64_saturating_add f (n - 1)) t"
    show ?thesis
    proof (cases "rpc_logs rpc contract standard f ?stop")
      case (Inl e)
      with True show ?thesis
        by (simp add: fetch_loop.simps [of _ _ _ f] split_loop.simps [of f] Let_def chunk_logs_def)
    next
      case (Inr ls)
      have "and_then (and_then m (\<lambda>ys. Ok (ls # ys))) (\<lambda>ls. Ok (acc @ concat ls))
          = and_then m (\<lambda>ys. Ok ((acc @ ls) @ concat ys))" for m :: "rpc_log list list result"
        by (cases m) simp_all
      with Inr True 1 [OF True refl] show ?thesis
        by (simp add: fetch_loop.simps [of _ _ _ f] split_loop.simps [of f] Let_def chunk_logs_def)
    qed
  qed
qed

lemma fetch_loop_prefetched:
  "(\<And>p. pre = Some p \<Longrightarrow> rpc_logs rpc contract standard (pf_from p) (pf_to p) = Ok (pf_logs p)) \<Longrightarrow>
   fetch_loop rpc contract standard f t n pre acc = fetch_loop rpc contract standard f t n None acc"
proof (induction f t n arbitrary: pre acc rule: split_loop.induct)
  case (1 f t n)
  show ?case
  proof (cases "f \<le> t")
    case False
    then show ?thesis by (simp add: fetch_loop.simps [of _ _ _ f])
  next
    case True
    let ?stop = "min (u64_saturating_add f (n - 1)) t"
    show ?thesis
    proof (cases pre)
      case None
      then show ?thesis by simp
    next
      case (Some p)
      with "1.prems" have p: "rpc_logs rpc contract standard (pf_from p) (pf_to p) = Ok (pf_logs p)" by simp
      have ih: "?stop \<noteq> - 1 \<Longrightarrow> fetch_loop rpc contract standard (?stop + 1) t n (Some p) acc'
          = fetch_loop rpc contract standard (?stop + 1) t n None acc'" for acc'
        by (rule "1.IH" [OF True refl]) (use p in auto)
      show ?thesis
      proof (cases "pf_from p = f \<and> pf_to p = ?stop")
        case True
        with Some p \<open>f \<le> t\<close> show ?thesis
          by (simp add: fetch_loop.simps [of _ _ _ f] Let_def)
      next
        case False
        have "and_then r (\<lambda>ls. if ?stop = - 1 then Ok (acc @ ls)
              else fetch_loop rpc contract standard (?stop + 1) t n (Some p) (acc @ ls))
            = and_then r (\<lambda>ls. if ?stop = - 1 then Ok (acc @ ls)
              else fetch_loop rpc contract standard (?stop + 1) t n None (acc @ ls))" for r
          using ih by (cases r) auto
        with Some False \<open>f \<le> t\<close> show ?thesis
          by (simp only: fetch_loop.simps [of _ _ _ f] Let_def option.case if_True if_False simp_thms)
      qed
    qed
  qed
qed

text \<open>A node that answers a query for a range with its logs of that range, in the order of the blocks.\<close>

definition serves :: "rpc \<Rightarrow> string \<Rightarrow> standard \<Rightarrow> (rpc_log \<Rightarrow> u64) \<Rightarrow> rpc_log list \<Rightarrow> bool" where
  "serves rpc contract standard block history \<longleftrightarrow> sorted (map block history)
     \<and> (\<forall>a b. a \<le> b \<longrightarrow> rpc_logs rpc contract standard a b = Ok (filter (\<lambda>l. a \<le> block l \<and> block l \<le> b) history))"

lemma filter_ranges:
  fixes f :: "'a \<Rightarrow> u64"
  assumes "sorted (map f xs)" and "a \<le> m" and "m < b" and "m \<noteq> - 1"
  shows "filter (\<lambda>l. a \<le> f l \<and> f l \<le> m) xs @ filter (\<lambda>l. m + 1 \<le> f l \<and> f l \<le> b) xs = filter (\<lambda>l. a \<le> f l \<and> f l \<le> b) xs"
  using assms(1)
proof (induction xs)
  case Nil
  show ?case by simp
next
  case (Cons x xs)
  have above: "m + 1 \<le> y \<longleftrightarrow> m < y" for y :: u64
    using unat_succ [OF assms(4)] by (simp add: word_le_nat_alt word_less_nat_alt Suc_le_eq)
  show ?case
  proof (cases "f x \<le> m")
    case True
    with Cons assms(2,3) above show ?thesis by auto
  next
    case False
    then have "\<forall>y \<in> set xs. \<not> f y \<le> m" using Cons.prems by force
    then have "filter (\<lambda>l. a \<le> f l \<and> f l \<le> m) xs = []" by (auto simp: filter_empty_conv)
    with Cons False assms(2) above show ?thesis by auto
  qed
qed

lemma stop_bounds:
  "(f :: u64) \<le> t \<Longrightarrow> f \<le> min (u64_saturating_add f x) t \<and> min (u64_saturating_add f x) t \<le> t"
  using saturating_add_ge by simp

lemma fetch_loop_serves:
  assumes "serves rpc contract standard block history"
  shows "f \<le> t \<Longrightarrow> fetch_loop rpc contract standard f t n None acc =
     Ok (acc @ filter (\<lambda>l. f \<le> block l \<and> block l \<le> t) history)"
proof (induction f t n arbitrary: acc rule: split_loop.induct)
  case (1 f t n)
  let ?stop = "min (u64_saturating_add f (n - 1)) t"
  note stop = stop_bounds [OF "1.prems", of "n - 1"]
  have logs: "rpc_logs rpc contract standard f ?stop = Ok (filter (\<lambda>l. f \<le> block l \<and> block l \<le> ?stop) history)"
    using assms stop by (simp add: serves_def)
  have sorted: "sorted (map block history)" using assms by (simp add: serves_def)
  have step: "fetch_loop rpc contract standard f t n None acc =
      (let acc' = acc @ filter (\<lambda>l. f \<le> block l \<and> block l \<le> ?stop) history in
       if ?stop = - 1 then Ok acc' else fetch_loop rpc contract standard (?stop + 1) t n None acc')"
    using "1.prems" logs by (simp add: fetch_loop.simps [of _ _ _ f] Let_def)
  show ?case
  proof (cases "?stop = t")
    case True
    then have "fetch_loop rpc contract standard (t + 1) t n None a = Ok a" if "t \<noteq> - 1" for a
      using unat_succ [OF that] by (simp add: fetch_loop.simps [of _ _ _ "t + 1"] word_le_nat_alt)
    with True step show ?thesis by (simp add: Let_def)
  next
    case False
    then have lt: "?stop < t" using stop by (metis order_le_neq_trans)
    then have max: "?stop \<noteq> - 1"
      by (metis not_less word_order.extremum)
    have "?stop + 1 \<le> t"
      using lt unat_succ [OF max] by (simp only: word_le_nat_alt word_less_nat_alt Suc_le_eq)
    from "1.IH" [OF "1.prems" refl max this] step max filter_ranges [OF sorted _ lt max, of f] stop
    show ?thesis by (simp only: Let_def if_False append_assoc simp_thms)
  qed
qed

text \<open>C11: Fetching in chunks returns what one query for the whole range would: for a node that serves a
  history ordered by block, the logs of the range in the order of the history, whatever the chunk
  size and up to the largest block number; a prefetched chunk that is what the node answers
  changes nothing.\<close>

theorem fetch_logs_in_chunks_is_one_fetch:
  assumes "serves rpc contract standard block history" and "from \<le> to" and "chunk_size \<noteq> 0"
    and "\<And>p. prefetched = Some p \<Longrightarrow> rpc_logs rpc contract standard (pf_from p) (pf_to p) = Ok (pf_logs p)"
  shows "fetch_logs_in_chunks_with_progress rpc contract standard from to chunk_size prefetched
    = rpc_logs rpc contract standard from to"
  using fetch_loop_prefetched [OF assms(4)] fetch_loop_serves [OF assms(1,2)] assms(1-3)
  by (simp add: fetch_logs_in_chunks_with_progress_def serves_def)

definition block_of :: "rpc_log \<Rightarrow> u64" where
  "block_of log = (case parse_hex_u64 (log_block_number log) of Inr b \<Rightarrow> b | Inl _ \<Rightarrow> 0)"

definition sample_history :: "rpc_log list" where
  "sample_history = [move_log ''0x3'' ''0x0'', move_log ''0x5'' ''0x1'', move_log ''0x5'' ''0x2'', move_log ''0x9'' ''0x0'']"

definition sample_rpc :: rpc where
  "sample_rpc = \<lparr>rpc_block_number = Ok 20, rpc_code_at = (\<lambda>_ _. Ok ''0x60''), rpc_block_hash = (\<lambda>_. Ok ''0xb1''),
     rpc_block_timestamp = (\<lambda>b. Ok (uint b * 12)),
     rpc_logs = (\<lambda>_ _ a b. Ok (filter (\<lambda>l. a \<le> block_of l \<and> block_of l \<le> b) sample_history)),
     rpc_transaction_receipt = (\<lambda>h. Err (RpcFailure h))\<rparr>"

lemma sample_rpc_serves: "serves sample_rpc contract standard block_of sample_history"
proof -
  have "map block_of sample_history = [3, 5, 5, 9]" by code_simp
  then show ?thesis by (simp add: serves_def sample_rpc_def)
qed

text \<open>C11 at a history of four logs fetched in chunks of two blocks.\<close>

theorem fetch_logs_in_chunks_is_one_fetch_witness:
  "fetch_logs_in_chunks_with_progress sample_rpc ''0xc'' Erc20 3 7 2 None = Ok (take 3 sample_history)"
proof -
  have "filter (\<lambda>l. 3 \<le> block_of l \<and> block_of l \<le> 7) sample_history = take 3 sample_history" by code_simp
  then have "rpc_logs sample_rpc ''0xc'' Erc20 3 7 = Ok (take 3 sample_history)" by (simp add: sample_rpc_def)
  with fetch_logs_in_chunks_is_one_fetch [OF sample_rpc_serves, of 3 7 2 None "''0xc''" Erc20]
  show ?thesis by simp
qed

section \<open>The range asked for\<close>

lemma resolve_Ok:
  assumes "resolve_finalized_range rpc from_block to_block lookback confirmations = Ok r"
  shows "0 \<le> confirmations \<and> rpc_block_number rpc = Ok (rr_head r)
    \<and> rr_finalized_head r = u64_saturating_sub (rr_head r) (i64_as_u64 confirmations)
    \<and> parse_block_arg to_block (rr_finalized_head r) = Ok (rr_to r)
    \<and> (case from_block of
        Some v \<Rightarrow> parse_block_arg v (rr_finalized_head r) = Ok (rr_from r)
      | None \<Rightarrow> rr_from r = u64_saturating_sub (rr_to r) lookback)
    \<and> rr_from r \<le> rr_to r"
  using assms
  by (auto simp: resolve_finalized_range_def Let_def split: if_splits option.splits)

lemma saturating_sub_le: "u64_saturating_sub a b \<le> a"
proof (cases "a < b")
  case False
  then have "a - b \<le> a" using word_sub_le by (simp add: not_less)
  with False show ?thesis by (simp add: u64_saturating_sub_def)
qed (simp add: u64_saturating_sub_def)

lemma parse_decimal_block: "n < u64_limit \<Longrightarrow> parse_block_arg (show_nat n) latest = Ok (word_of_nat n)"
proof -
  assume n: "n < u64_limit"
  have d: "list_all is_ascii_digit (show_nat n)" by (rule show_nat_digits)
  have "show_nat n \<noteq> ''latest''"
  proof
    assume "show_nat n = ''latest''"
    with d show False by (simp add: is_ascii_digit_def byte_def)
  qed
  moreover have "strip_prefix ''0x'' (show_nat n) = None"
  proof (cases "strip_prefix ''0x'' (show_nat n)")
    case (Some r)
    then have "CHR ''x'' \<in> set (show_nat n)"
      by (cases "show_nat n"; cases "tl (show_nat n)") (auto split: if_splits)
    with d have "is_ascii_digit (CHR ''x'')" by (simp add: list_all_iff)
    then show ?thesis by (simp add: is_ascii_digit_def byte_def)
  qed simp
  moreover have "parse_unsigned 10 u64_limit (show_nat n) = Some n"
    using n by (simp add: parse_unsigned_def hd_show_nat digits_value_show_nat)
  ultimately show ?thesis by (simp add: parse_block_arg_def parse_u64_def)
qed



section \<open>Detection\<close>

definition detects :: "crates \<Rightarrow> rpc_log list \<Rightarrow> standard \<Rightarrow> bool" where
  "detects c logs s \<longleftrightarrow> (\<exists>log \<in> set logs. detect_token_standard_from_log c log = Ok (Some s))"

lemma detect_from_logs_Ok:
  "detect_from_logs c seen logs = Ok found \<longleftrightarrow>
     (\<forall>log \<in> set logs. \<exists>x. detect_token_standard_from_log c log = Ok x)
     \<and> (\<forall>s. detects c logs s \<or> seen = Some s \<longrightarrow> found = Some s)
     \<and> (\<forall>s. found = Some s \<longrightarrow> detects c logs s \<or> seen = Some s)"
proof (induction logs arbitrary: seen)
  case Nil
  show ?case by (cases seen; cases found) (auto simp: detects_def)
next
  case (Cons log logs)
  show ?case
  proof (cases "detect_token_standard_from_log c log")
    case (Inl e)
    then show ?thesis by auto
  next
    case (Inr x)
    show ?thesis
    proof (cases x)
      case None
      with Inr Cons.IH show ?thesis by (simp add: detects_def)
    next
      case (Some s)
      show ?thesis
      proof (cases seen)
        case None
        with Inr Some Cons.IH show ?thesis by (auto simp: detects_def)
      next
        case seen: (Some e)
        show ?thesis
        proof (cases "e = s")
          case True
          with Inr Some seen Cons.IH show ?thesis by (auto simp: detects_def)
        next
          case False
          with Inr Some seen show ?thesis by (auto simp: detects_def)
        qed
      qed
    qed
  qed
qed

text \<open>Detection over a list of logs is exact and does not depend on their order: it reports no standard if
  and only if no log has the shape of one, and a standard if and only if some log has its shape and
  no log has another's; a conflict between logs is an error.\<close>

theorem detect_token_standard_from_logs_exact:
  "(detect_token_standard_from_logs c logs = Ok None \<longleftrightarrow>
      (\<forall>log \<in> set logs. detect_token_standard_from_log c log = Ok None))
   \<and> (detect_token_standard_from_logs c logs = Ok (Some s) \<longleftrightarrow>
      detects c logs s \<and> (\<forall>log \<in> set logs. detect_token_standard_from_log c log = Ok None
        \<or> detect_token_standard_from_log c log = Ok (Some s)))"
  unfolding detect_token_standard_from_logs_def detect_from_logs_Ok
  by (auto simp: detects_def) (metis option.exhaust option.inject)+

text \<open>At one batch transfer log.\<close>

theorem detect_token_standard_from_logs_exact_witness:
  "detect_token_standard_from_logs sample_crates [sample_log [5] [2], sample_log [6] [1]] = Ok (Some Erc1155)"
proof -
  have one: "detect_token_standard_from_log sample_crates (sample_log [5] [2]) = Ok (Some Erc1155)"
    "detect_token_standard_from_log sample_crates (sample_log [6] [1]) = Ok (Some Erc1155)"
    by code_simp+
  show ?thesis
    unfolding detect_token_standard_from_logs_exact [of sample_crates "[sample_log [5] [2], sample_log [6] [1]]" Erc1155, THEN conjunct2]
    using one by (simp add: detects_def)
qed

section \<open>Timestamps\<close>

lemma map_result_member: "map_result f xs = Ok ys \<Longrightarrow> x \<in> set xs \<Longrightarrow> \<exists>y \<in> set ys. f x = Ok y"
  by (induction xs arbitrary: ys) auto

lemma map_result_image: "map_result f xs = Ok ys \<Longrightarrow> y \<in> set ys \<Longrightarrow> \<exists>x \<in> set xs. f x = Ok y"
  by (induction xs arbitrary: ys) auto

lemma list_all2_mono_in:
  "list_all2 P xs ys \<Longrightarrow> (\<And>x y. x \<in> set xs \<Longrightarrow> P x y \<Longrightarrow> Q x y) \<Longrightarrow> list_all2 Q xs ys"
  by (induction rule: list_all2_induct) auto

lemma timestamps_map:
  "map_result (\<lambda>b. and_then (ts b) (\<lambda>t. Ok (b, t))) bs = Ok ps \<Longrightarrow> b \<in> set bs \<Longrightarrow> \<exists>t. ts b = Ok t \<and> map_of ps b = Some t"
  by (induction bs arbitrary: ps) auto

text \<open>Attaching timestamps keeps the logs and their order and gives every log the timestamp the node reports
  for its block, and changes nothing else in it.\<close>

theorem attach_block_timestamps_exact:
  assumes "attach_block_timestamps rpc logs = Ok logs'"
  shows "list_all2 (\<lambda>log log'. \<exists>block ts. parse_hex_u64 (log_block_number log) = Ok block
    \<and> rpc_block_timestamp rpc block = Ok ts \<and> log' = log\<lparr>log_block_timestamp := Some ts\<rparr>) logs logs'"
proof -
  from assms obtain blocks ps where
        blocks: "map_result (\<lambda>log. parse_hex_u64 (log_block_number log)) logs = Ok blocks"
    and ps: "map_result (\<lambda>b. and_then (rpc_block_timestamp rpc b) (\<lambda>ts. Ok (b, ts))) (btree_set blocks) = Ok ps"
    and out: "map_result (\<lambda>log. and_then (parse_hex_u64 (log_block_number log)) (\<lambda>block.
         Ok (log\<lparr>log_block_timestamp := map_of ps block\<rparr>))) logs = Ok logs'"
    by (auto simp: attach_block_timestamps_def)
  have ts: "\<exists>ts. rpc_block_timestamp rpc block = Ok ts \<and> map_of ps block = Some ts"
    if "log \<in> set logs" "parse_hex_u64 (log_block_number log) = Ok block" for log block
    using map_result_member [OF blocks that(1)] that(2) timestamps_map [OF ps, of block] by auto
  from out show ?thesis
    unfolding map_result_Ok_iff
    by (rule list_all2_mono_in) (use ts in \<open>fastforce\<close>)
qed

text \<open>The same at the sample history.\<close>

theorem attach_block_timestamps_exact_witness:
  "\<exists>logs'. attach_block_timestamps sample_rpc sample_history = Ok logs' \<and> length logs' = 4
     \<and> log_block_timestamp (logs' ! 3) = Some 108"
proof -
  have "is_ok (attach_block_timestamps sample_rpc sample_history)" by code_simp
  then obtain logs' where run: "attach_block_timestamps sample_rpc sample_history = Ok logs'"
    by (cases "attach_block_timestamps sample_rpc sample_history") auto
  have len: "length sample_history = 4" by (simp add: sample_history_def)
  from attach_block_timestamps_exact [OF run] have all: "list_all2 (\<lambda>log log'. \<exists>block ts.
      parse_hex_u64 (log_block_number log) = Ok block \<and> rpc_block_timestamp sample_rpc block = Ok ts
      \<and> log' = log\<lparr>log_block_timestamp := Some ts\<rparr>) sample_history logs'" .
  have nine: "parse_hex_u64 (log_block_number (sample_history ! 3)) = Ok 9" by code_simp
  from list_all2_nthD [OF all, of 3] nine len have "log_block_timestamp (logs' ! 3) = Some 108"
    by (auto simp: sample_rpc_def)
  moreover have "length logs' = 4" using list_all2_lengthD [OF all] len by simp
  ultimately show ?thesis using run by blast
qed

section \<open>The repository a range is ingested into\<close>

lemma seq_after:
  "m s = (Inr a, t) \<Longrightarrow> seq m f s = f a t"
  "m s = (Inl e, t) \<Longrightarrow> seq m f s = (Inl e, t)"
  by (simp_all add: seq_def)

text \<open>What ingestion relies on: persisting books the entries of the logs and keeps the repository's
  invariant, a failure leaves the ledger alone, and receipts do not touch it.\<close>

locale ingest_store =
  fixes repo :: "'s ledger_ingest_repository"
    and inv :: "'s \<Rightarrow> bool"
    and ledger :: "'s \<Rightarrow> entry_id \<Rightarrow> movement option"
    and bookings :: "source_ref \<Rightarrow> (rpc_log \<times> decoded_log) list \<Rightarrow> (entry_id \<times> movement) list \<Rightarrow> bool"
  assumes persist_booked: "inv s \<Longrightarrow> li_persist_decoded_logs repo source logs options s = (Ok x, t)
      \<Longrightarrow> inv t \<and> (\<exists>bs. bookings source logs bs \<and> ledger t = fold (book (restore_orphaned_conflicts options)) bs (ledger s))"
    and persist_failed: "inv s \<Longrightarrow> li_persist_decoded_logs repo source logs options s = (Err e, t)
      \<Longrightarrow> inv t \<and> ledger t = ledger s"
    and receipts_apart: "inv s \<Longrightarrow> li_persist_transaction_receipts repo chain receipts s = (y, t)
      \<Longrightarrow> inv t \<and> ledger t = ledger s"
    and bookings_unique: "bookings source logs bs \<Longrightarrow> bookings source logs bs' \<Longrightarrow> bs' = bs"
    and bookings_live: "bookings source logs bs \<Longrightarrow> \<forall>b \<in> set bs. mv_live (snd b)"
begin

definition ingested :: "source_ref \<Rightarrow> bool \<Rightarrow> (rpc_log \<times> decoded_log) list \<Rightarrow> 's \<Rightarrow> 's \<Rightarrow> bool" where
  "ingested source restore logs s t \<longleftrightarrow>
     (\<exists>bs. bookings source logs bs \<and> ledger t = fold (book restore) bs (ledger s))"

lemma ingest_outcome:
  assumes "inv s" and "ingest_source_range c rpc repo source from to n options s = (x, t)"
  shows "inv t \<and> (case decoded_logs_of_range c rpc source from to n (prefetched_logs options) of
      Err e \<Rightarrow> x = Err e \<and> t = s
    | Ok logs \<Rightarrow> if is_ok x then ingested source (io_restore_orphaned_conflicts options) logs s t
        else ledger t = ledger s \<or> include_transaction_receipts options
          \<and> ingested source (io_restore_orphaned_conflicts options) logs s t)"
proof (cases "decoded_logs_of_range c rpc source from to n (prefetched_logs options)")
  case (Inl e)
  with assms show ?thesis by (simp add: ingest_source_range_def)
next
  case (Inr logs)
  let ?o = "\<lparr>restore_orphaned_conflicts = io_restore_orphaned_conflicts options\<rparr>"
  obtain y m where run: "li_persist_decoded_logs repo source logs ?o s = (y, m)"
    by (cases "li_persist_decoded_logs repo source logs ?o s")
  show ?thesis
  proof (cases y)
    case (Inl e)
    note run = run [unfolded Inl]
    from Inr assms(2) have "x = Err e" "t = m"
      by (simp_all add: ingest_source_range_def seq_after(2) [where m = "li_persist_decoded_logs repo source logs ?o" and s = s, OF run])
    with persist_failed [OF assms(1) run] Inr show ?thesis by simp
  next
    case ok: (Inr summary)
    note run = run [unfolded ok]
    from persist_booked [OF assms(1) run] have m: "inv m" "ingested source (io_restore_orphaned_conflicts options) logs s m"
      by (simp_all add: ingested_def)
    show ?thesis
    proof (cases "include_transaction_receipts options")
      case False
      with Inr assms(2) have "t = m" "x = Ok summary" by (simp_all add: ingest_source_range_def seq_after(1) [where m = "li_persist_decoded_logs repo source logs ?o" and s = s, OF run])
      with m Inr show ?thesis by simp
    next
      case True
      have "inv t \<and> ledger t = ledger m"
      proof (cases "fetch_transaction_receipts rpc (transaction_hashes_of logs)")
        case (Inl e)
        with True Inr assms(2) have "t = m"
          by (simp add: ingest_source_range_def seq_after(1) [where m = "li_persist_decoded_logs repo source logs ?o" and s = s, OF run])
        with m show ?thesis by simp
      next
        case rs: (Inr receipts)
        obtain q u where q: "li_persist_transaction_receipts repo (sr_chain_id source) receipts m = (q, u)"
          by (cases "li_persist_transaction_receipts repo (sr_chain_id source) receipts m")
        have "seq (li_persist_transaction_receipts repo (sr_chain_id source) receipts)
            (\<lambda>count. ret (summary\<lparr>ss_transaction_receipts_persisted := count\<rparr>)) m = (x, t)"
          using True Inr rs assms(2) by (simp add: ingest_source_range_def seq_after(1) [where m = "li_persist_decoded_logs repo source logs ?o" and s = s, OF run])
        with q have "t = u" by (cases q) (simp_all add: seq_def)
        with receipts_apart [OF m(1) q] show ?thesis by simp
      qed
      with m Inr True show ?thesis by (simp add: ingested_def)
    qed
  qed
qed

lemma ingest_again:
  assumes "inv s" and "ingest_source_range c rpc repo source from to n options s = (Ok x, t)"
    and "ingest_source_range c rpc repo source from to n options t = (y, u)"
  shows "ledger u = ledger t"
proof -
  note 1 = ingest_outcome [OF assms(1,2)]
  then have "inv t" by blast
  note 2 = ingest_outcome [OF this assms(3)]
  show ?thesis
  proof (cases "decoded_logs_of_range c rpc source from to n (prefetched_logs options)")
    case (Inl e)
    with 1 show ?thesis by simp
  next
    case (Inr logs)
    with 1 obtain bs where bs: "bookings source logs bs"
      "ledger t = fold (book (io_restore_orphaned_conflicts options)) bs (ledger s)"
      by (auto simp: ingested_def)
    from 2 Inr have "ledger u = ledger t \<or> ingested source (io_restore_orphaned_conflicts options) logs t u"
      by (auto split: if_splits)
    then show ?thesis
    proof
      assume "ingested source (io_restore_orphaned_conflicts options) logs t u"
      then obtain bs' where "bookings source logs bs'"
        and u: "ledger u = fold (book (io_restore_orphaned_conflicts options)) bs' (ledger t)"
        unfolding ingested_def by blast
      then have "bs' = bs" using bookings_unique [OF bs(1)] by blast
      then show "ledger u = ledger t"
        unfolding u bs(2) using fold_book_idem [OF bookings_live [OF bs(1)]] by blast
    qed
  qed
qed

end

section \<open>The PostgreSQL repository\<close>

lemma receipts_frame:
  assumes "persist_transaction_receipts c chain receipts d = (x, t)"
  shows "db_events t = db_events d \<and> db_entries t = db_entries d \<and> db_balances t = db_balances d
    \<and> db_sources t = db_sources d"
proof -
  define same where "same d t \<longleftrightarrow> db_events t = db_events d \<and> db_entries t = db_entries d \<and> db_balances t = db_balances d
    \<and> db_sources t = db_sources d" for d t :: db
  have one: "upsert_transaction_receipt c chain r d = (y, t) \<Longrightarrow> same d t" for r d y t
    by (cases "new_receipt_row c chain r (uuid_supply (db_env d) (uuids_used (db_env d))) (clock (db_env d) (clock_reads (db_env d)))")
       (auto simp: upsert_transaction_receipt_def same_def split: if_splits option.splits)
  have "each (\<lambda>r. seq (upsert_transaction_receipt c chain r) (\<lambda>_. ret ())) receipts d = (y, t) \<Longrightarrow> same d t" for d y t
  proof (induction receipts arbitrary: d)
    case Nil
    then show ?case by (simp add: same_def)
  next
    case (Cons r rs)
    obtain z m where z: "upsert_transaction_receipt c chain r d = (z, m)" by (cases "upsert_transaction_receipt c chain r d")
    with one have dm: "same d m" by blast
    show ?case
    proof (cases z)
      case (Inl e)
      with Cons.prems z dm show ?thesis by (simp add: seq_def)
    next
      case (Inr i)
      with Cons.prems z have "each (\<lambda>r. seq (upsert_transaction_receipt c chain r) (\<lambda>_. ret ())) rs m = (y, t)"
        by (simp add: seq_def ret_def)
      from Cons.IH [OF this] dm show ?thesis by (simp add: same_def)
    qed
  qed
  moreover obtain y m where run: "each (\<lambda>r. seq (upsert_transaction_receipt c chain r) (\<lambda>_. ret ())) receipts d = (y, m)"
    by (cases "each (\<lambda>r. seq (upsert_transaction_receipt c chain r) (\<lambda>_. ret ())) receipts d")
  ultimately have "same d m" by blast
  then show ?thesis
    using assms run
    by (cases y; cases "pool_available (db_env d)")
       (auto simp: persist_transaction_receipts_def pg_transaction_def transaction_def rollback_def same_def seq_def ret_def
          connection_def)
qed

definition pg_bookings :: "crates \<Rightarrow> source_ref \<Rightarrow> (rpc_log \<times> decoded_log) list \<Rightarrow> (entry_id \<times> movement) list \<Rightarrow> bool" where
  "pg_bookings c source logs bs \<longleftrightarrow> map (booking c source) (log_items logs) = map Some bs"

interpretation pg: ingest_store "postgres_ingest_repository c" ledger_inv "\<lambda>d. ledger_of (db_entries d)" "pg_bookings c"
  for c
proof
  fix s source logs options x t
  assume inv: "ledger_inv s" and "li_persist_decoded_logs (postgres_ingest_repository c) source logs options s = (Ok x, t)"
  then have run: "persist_decoded_logs_with_options c source logs options s = (Ok x, t)"
    by (simp add: postgres_ingest_repository_def)
  show "ledger_inv t \<and> (\<exists>bs. pg_bookings c source logs bs
      \<and> ledger_of (db_entries t) = fold (book (restore_orphaned_conflicts options)) bs (ledger_of (db_entries s)))"
    using persist_keeps [OF inv run] by (auto simp: pg_bookings_def intro: persist_books [OF inv run])
next
  fix s source logs options e t
  assume inv: "ledger_inv s" and "li_persist_decoded_logs (postgres_ingest_repository c) source logs options s = (Err e, t)"
  then have run: "persist_decoded_logs_with_options c source logs options s = (Err e, t)"
    by (simp add: postgres_ingest_repository_def)
  from safeD [OF persist_safe run] have "tables t = tables s" .
  with persist_keeps [OF inv run] show "ledger_inv t \<and> ledger_of (db_entries t) = ledger_of (db_entries s)"
    by (simp add: tables_eq_iff)
next
  fix s chain receipts y t
  assume inv: "ledger_inv s" and "li_persist_transaction_receipts (postgres_ingest_repository c) chain receipts s = (y, t)"
  then have "persist_transaction_receipts c chain receipts s = (y, t)"
    by (simp add: postgres_ingest_repository_def)
  from receipts_frame [OF this] ledger_inv_same [OF inv]
  show "ledger_inv t \<and> ledger_of (db_entries t) = ledger_of (db_entries s)" by simp
next
  fix source logs bs bs'
  assume "pg_bookings c source logs bs" "pg_bookings c source logs bs'"
  then show "bs' = bs" by (simp add: pg_bookings_def inj_map_eq_map)
next
  fix source logs bs
  assume "pg_bookings c source logs bs"
  then show "\<forall>b \<in> set bs. mv_live (snd b)" unfolding pg_bookings_def by (rule booking_live)
qed


text \<open>A node with one mint of 7 units of an ERC-20 token in block 16.\<close>

definition mint_log :: rpc_log where
  "mint_log = \<lparr>log_address = ''0xc'',
     log_topics = [event_topic sample_crates transfer_signature, address_topic (replicate 40 (CHR ''0'')), address_topic sample_digits],
     log_data = ''0x'' @ replicate 63 (CHR ''0'') @ ''7'', log_block_number = ''0x10'', log_transaction_hash = ''0x20'',
     log_transaction_index = None, log_log_index = ''0x0'', log_block_hash = ''0x30'', log_block_timestamp = None\<rparr>"

definition mint_rpc :: rpc where
  "mint_rpc = sample_rpc\<lparr>rpc_logs := (\<lambda>_ _ a b. Ok (if a \<le> 16 \<and> 16 \<le> b then [mint_log] else []))\<rparr>"

definition mint_options :: ingest_options where
  "mint_options = \<lparr>include_transaction_receipts = False, io_restore_orphaned_conflicts = False, prefetched_logs = None\<rparr>"

definition mint_ingest :: "(scan_summary) db_prog" where
  "mint_ingest = ingest_source_range sample_crates mint_rpc (postgres_ingest_repository sample_crates) sample_ref 10 20 4 mint_options"

definition ingested_db :: db where "ingested_db = snd (mint_ingest source_db)"

lemma mint_ingest_ok: "is_ok (fst (mint_ingest source_db))"
  by code_simp

lemma mint_ingest_run:
  obtains x where "ingest_source_range sample_crates mint_rpc (postgres_ingest_repository sample_crates) sample_ref 10 20 4
    mint_options source_db = (Ok x, ingested_db)"
  using is_ok_pair [OF mint_ingest_ok] by (auto simp: ingested_db_def mint_ingest_def)


text \<open>Ingesting a range again, with the same answers of the node, changes no entry and no balance.\<close>

theorem ingest_source_range_idempotent:
  assumes "ledger_inv d"
    and "ingest_source_range c rpc (postgres_ingest_repository c) source from to n options d = (Ok x, t)"
    and "ingest_source_range c rpc (postgres_ingest_repository c) source from to n options t = (y, u)"
  shows "ledger_of (db_entries u) = ledger_of (db_entries t)
    \<and> stored (db_balances u) sid h k = stored (db_balances t) sid h k"
proof -
  have same: "ledger_of (db_entries u) = ledger_of (db_entries t)" by (rule pg.ingest_again [OF assms])
  have "ledger_inv t" using pg.ingest_outcome [OF assms(1,2)] by blast
  moreover from pg.ingest_outcome [OF this assms(3)] have "ledger_inv u" by blast
  ultimately show ?thesis using same stored_ledger by blast
qed

text \<open>At the same node: the second run leaves the holder with 7 units.\<close>

theorem ingest_source_range_idempotent_witness:
  "ledger_of (db_entries (snd (mint_ingest ingested_db))) = ledger_of (db_entries ingested_db)
     \<and> stored (db_balances (snd (mint_ingest ingested_db))) 5 (''0x'' @ sample_digits) [] = 7"
proof -
  obtain x where run: "ingest_source_range sample_crates mint_rpc (postgres_ingest_repository sample_crates) sample_ref 10 20 4
    mint_options source_db = (Ok x, ingested_db)" by (rule mint_ingest_run)
  have again: "ingest_source_range sample_crates mint_rpc (postgres_ingest_repository sample_crates) sample_ref 10 20 4
    mint_options ingested_db = (fst (mint_ingest ingested_db), snd (mint_ingest ingested_db))"
    by (simp add: mint_ingest_def)
  have "stored (db_balances ingested_db) 5 (''0x'' @ sample_digits) [] = 7" by code_simp
  with ingest_source_range_idempotent [OF ledger_reachable_inv [OF source_db_reachable] run again, of 5 "''0x'' @ sample_digits" "[]"]
  show ?thesis by simp
qed

end
