(* ===== verification/Reorg.thy ===== *)
theory Reorg
  imports Ledger_Write
begin

text \<open>
  Reorg verification (src/application/reorg.rs): the stored block hashes of a source are compared
  with the canonical ones of the node, and every maximal run of consecutive mismatching blocks is
  recorded as one reorg event.
\<close>

record reorg_mismatch =
  rm_block_number :: int
  rm_expected_block_hash :: string
  rm_actual_block_hash :: string

record reorg_verification =
  rv_source_id :: uuid
  rv_checked_blocks :: nat
  rv_mismatches :: "reorg_mismatch list"

section \<open>Recording\<close>

definition mismatch_json :: "reorg_mismatch \<Rightarrow> json" where
  "mismatch_json m =
     JObject [(''block_number'', JNumber (rm_block_number m)),
              (''expected_block_hash'', JString (rm_expected_block_hash m)),
              (''actual_block_hash'', JString (rm_actual_block_hash m))]"

definition record_reorg_range :: "'s reorg_repository \<Rightarrow> source_ref \<Rightarrow> reorg_mismatch list \<Rightarrow> ('s, app_error, unit) prog" where
  "record_reorg_range ledger source mismatches =
     (if mismatches = [] then throw (MissingField ''reorg range cannot be empty'')
      else ro_record_reorg_event ledger
        \<lparr>ri_source_id = sr_id source,
         ri_chain_id = sr_chain_id source,
         ri_from_block = rm_block_number (hd mismatches),
         ri_to_block = rm_block_number (last mismatches),
         ri_expected_block_hash = Some (rm_expected_block_hash (hd mismatches)),
         ri_actual_block_hash = Some (rm_actual_block_hash (hd mismatches)),
         ri_replay_job_id = None,
         ri_mismatches = JArray (map mismatch_json mismatches)\<rparr>)"

text \<open>The loop over the mismatches after the first, with the start of the open range, the mismatch before
  and the index; a range is the slice between two indices.\<close>

fun record_ranges_loop ::
  "'s reorg_repository \<Rightarrow> source_ref \<Rightarrow> reorg_mismatch list \<Rightarrow> nat \<Rightarrow> reorg_mismatch \<Rightarrow> nat
   \<Rightarrow> reorg_mismatch list \<Rightarrow> ('s, app_error, unit) prog"
where
  "record_ranges_loop ledger source mismatches range_start previous index [] =
     record_reorg_range ledger source (drop range_start mismatches)"
| "record_ranges_loop ledger source mismatches range_start previous index (mismatch # rest) =
     (if rm_block_number mismatch = i64_wrapping_add (rm_block_number previous) 1
      then record_ranges_loop ledger source mismatches range_start mismatch (index + 1) rest
      else
        seq (record_reorg_range ledger source (drop range_start (take index mismatches))) (\<lambda>_.
          record_ranges_loop ledger source mismatches index mismatch (index + 1) rest))"

definition record_reorg_ranges :: "'s reorg_repository \<Rightarrow> source_ref \<Rightarrow> reorg_mismatch list \<Rightarrow> ('s, app_error, unit) prog" where
  "record_reorg_ranges ledger source mismatches =
     (case mismatches of
        [] \<Rightarrow> ret ()
      | first # rest \<Rightarrow> record_ranges_loop ledger source mismatches 0 first 1 rest)"

section \<open>Verification\<close>

fun compare_hashes :: "rpc \<Rightarrow> indexed_block_hash list \<Rightarrow> reorg_mismatch list \<Rightarrow> reorg_mismatch list result" where
  "compare_hashes rpc [] mismatches = Ok mismatches"
| "compare_hashes rpc (indexed # rest) mismatches =
     and_then (rpc_block_hash rpc (i64_as_u64 (ib_block indexed))) (\<lambda>hash.
       let actual = to_ascii_lowercase hash;
           expected_hash = to_ascii_lowercase (ib_hash indexed)
       in compare_hashes rpc rest
            (if expected_hash \<noteq> actual
             then mismatches @ [\<lparr>rm_block_number = ib_block indexed, rm_expected_block_hash = expected_hash,
                                 rm_actual_block_hash = actual\<rparr>]
             else mismatches))"

definition with_checkpoint :: "int \<Rightarrow> int \<Rightarrow> source_checkpoint option \<Rightarrow> indexed_block_hash list \<Rightarrow> indexed_block_hash list" where
  "with_checkpoint from to checkpoint expected =
     (case checkpoint of
        Some c \<Rightarrow>
          if from \<le> sc_processed_block c \<and> sc_processed_block c \<le> to
          then btree_set (IndexedBlockHash (sc_processed_block c) (sc_processed_block_hash c) # expected)
          else expected
      | None \<Rightarrow> expected)"

definition verify_source_reorgs ::
  "rpc \<Rightarrow> 's reorg_repository \<Rightarrow> source_ref \<Rightarrow> u64 \<Rightarrow> u64 \<Rightarrow> ('s, app_error, reorg_verification) prog"
where
  "verify_source_reorgs rpc ledger source from_block to_block =
     (if from_block > to_block then throw (InvertedRange from_block to_block)
      else
        seq (lift (ok_or (BlockTooLarge from_block) (i64_try_from_u64 from_block))) (\<lambda>from.
        seq (lift (ok_or (BlockTooLarge to_block) (i64_try_from_u64 to_block))) (\<lambda>to.
        seq (ro_indexed_block_hashes ledger (sr_id source) from to) (\<lambda>indexed.
        seq (ro_checkpoint_for_source ledger (sr_id source)) (\<lambda>checkpoint.
          let expected = with_checkpoint from to checkpoint (btree_set indexed) in
          seq (lift (compare_hashes rpc expected [])) (\<lambda>mismatches.
          seq (record_reorg_ranges ledger source mismatches) (\<lambda>_.
            ret \<lparr>rv_source_id = sr_id source, rv_checked_blocks = length expected, rv_mismatches = mismatches\<rparr>)))))))"

end
