(* ===== verification/Reorg_Spec.thy ===== *)
theory Reorg_Spec
  imports Reorg Queue_Spec Ledger_Spec
begin

text \<open>
  What reorg verification promises: the mismatches are exact, the recorded ranges are the maximal runs
  of consecutive mismatching blocks, and nothing but the reorg events changes. The client side is
  proved over any repository with the contract \<open>reorg_store\<close>, which the PostgreSQL one has.
\<close>

section \<open>Runs of consecutive blocks\<close>

fun runs :: "reorg_mismatch list \<Rightarrow> reorg_mismatch list list" where
  "runs [] = []"
| "runs [m] = [[m]]"
| "runs (a # b # ms) =
     (if rm_block_number b = rm_block_number a + 1
      then (a # hd (runs (b # ms))) # tl (runs (b # ms))
      else [a] # runs (b # ms))"

lemma runs_Cons: "runs (m # ms) = (m # tl (hd (runs (m # ms)))) # tl (runs (m # ms))"
  by (cases ms) auto

lemma runs_Nil_iff [simp]: "runs ms = [] \<longleftrightarrow> ms = []"
  by (cases ms rule: runs.cases) auto

lemma concat_runs [simp]: "concat (runs ms) = ms"
proof (induction ms rule: runs.induct)
  case (3 a b ms)
  then show ?case by (cases "runs (b # ms)") auto
qed simp_all

lemma runs_nonempty: "r \<in> set (runs ms) \<Longrightarrow> r \<noteq> []"
proof (induction ms arbitrary: r rule: runs.induct)
  case (3 a b ms)
  then show ?case by (cases "runs (b # ms)") (auto split: if_splits)
qed simp_all

definition follows :: "reorg_mismatch \<Rightarrow> reorg_mismatch \<Rightarrow> bool" where
  "follows a b \<longleftrightarrow> rm_block_number b = rm_block_number a + 1"

lemma runs_consecutive: "r \<in> set (runs ms) \<Longrightarrow> successively follows r"
proof (induction ms arbitrary: r rule: runs.induct)
  case (3 a b ms)
  have hd: "hd (hd (runs (b # ms))) = b" "hd (runs (b # ms)) \<in> set (runs (b # ms))" "hd (runs (b # ms)) \<noteq> []"
    using runs_Cons [of b ms] by (metis list.sel(1), metis list.set_intros(1) list.sel(1), metis list.distinct(1) list.sel(1))
  have tl: "s \<in> set (tl (runs (b # ms))) \<Longrightarrow> s \<in> set (runs (b # ms))" for s
    by (cases "runs (b # ms)") auto
  show ?case
  proof (cases "rm_block_number b = rm_block_number a + 1")
    case True
    with "3.prems" consider "r = a # hd (runs (b # ms))" | "r \<in> set (tl (runs (b # ms)))" by auto
    then show ?thesis
    proof cases
      case 1
      with True hd "3.IH"(1) show ?thesis
        by (cases "hd (runs (b # ms))") (auto simp: follows_def)
    next
      case 2
      with True tl "3.IH"(1) show ?thesis by blast
    qed
  next
    case False
    with "3.prems" "3.IH" show ?thesis by auto
  qed
qed simp_all

lemma runs_maximal: "successively (\<lambda>r s. \<not> follows (last r) (hd s)) (runs ms)"
proof (induction ms rule: runs.induct)
  case (3 a b ms)
  obtain r rs where rs: "runs (b # ms) = r # rs" "r \<noteq> []" "hd r = b"
    using runs_Cons [of b ms] by (metis list.distinct(1) list.sel(1))
  with 3 show ?case
    by (cases rs) (auto simp: follows_def)
qed simp_all

lemma successively_blocks:
  "successively follows r \<Longrightarrow> r \<noteq> [] \<Longrightarrow>
     rm_block_number ` set r = {rm_block_number (hd r) .. rm_block_number (last r)}
     \<and> rm_block_number (hd r) \<le> rm_block_number (last r)"
proof (induction r)
  case (Cons a r)
  show ?case
  proof (cases r)
    case Nil
    then show ?thesis by simp
  next
    case (Cons b s)
    with Cons.prems Cons.IH show ?thesis by (auto simp: follows_def)
  qed
qed simp

section \<open>The loop records the runs\<close>

lemma seq_ret [simp]: "seq m ret = m"
  by (rule ext) (simp add: seq_def ret_def split: prod.splits sum.splits)

lemma i64_wrapping_add_small:
  assumes "in_i64 (a + b)"
  shows "i64_wrapping_add a b = a + b"
proof -
  have "signed_take_bit 63 (a + b) = a + b"
    by (rule signed_take_bit_int_eq_self) (use assms in \<open>simp_all add: int_range_defs\<close>)
  then show ?thesis
    by (simp add: i64_wrapping_add_def signed_of_int del: of_int_add)
qed

lemma wrapping_succ_eq:
  assumes "0 \<le> a" and "a \<le> i64_max" and "0 \<le> b" and "b \<le> i64_max"
  shows "b = i64_wrapping_add a 1 \<longleftrightarrow> b = a + 1"
proof (cases "a = i64_max")
  case True
  have "i64_wrapping_add i64_max 1 = i64_min" by code_simp
  with True assms show ?thesis by (simp add: i64_min_def)
next
  case False
  with assms have "i64_wrapping_add a 1 = a + 1"
    by (simp add: i64_wrapping_add_small in_i64_def i64_max_def i64_min_def)
  then show ?thesis by simp
qed

definition i64_blocks :: "reorg_mismatch list \<Rightarrow> bool" where
  "i64_blocks ms \<longleftrightarrow> (\<forall>m \<in> set ms. 0 \<le> rm_block_number m \<and> rm_block_number m \<le> i64_max)"

lemma record_ranges_loop_runs:
  assumes "i64_blocks ms" and "rest = drop index ms" and "start < index" and "index \<le> length ms"
    and "previous = ms ! (index - 1)"
  shows "record_ranges_loop ledger source ms start previous index rest =
    each (record_reorg_range ledger source)
      ((drop start (take (index - 1) ms) @ hd (runs (previous # rest))) # tl (runs (previous # rest)))"
  using assms(2-5)
proof (induction rest arbitrary: start previous index)
  case Nil
  then have "index = length ms" by simp
  moreover have "previous = last ms" using \<open>index = length ms\<close> Nil.prems by (cases "ms = []") (auto simp: last_conv_nth)
  moreover have "drop start (butlast ms) @ [last ms] = drop start ms"
    using Nil.prems \<open>index = length ms\<close> append_butlast_last_id [of "drop start ms"] by (simp add: butlast_drop last_drop)
  ultimately show ?case using Nil.prems by (simp add: butlast_conv_take)
next
  case (Cons m rest)
  have lt: "index < length ms" using Cons.prems(1) by (cases "index < length ms") auto
  from Cons.prems(1) Cons_nth_drop_Suc [OF this] have "m # rest = ms ! index # drop (Suc index) ms" by simp
  with lt have i: "index < length ms" "m = ms ! index" "rest = drop (index + 1) ms" by simp_all
  have split: "drop start (take index ms) = drop start (take (index - 1) ms) @ [previous]"
  proof -
    from Cons.prems obtain k where k: "index = Suc k" by (cases index) auto
    with Cons.prems i show ?thesis by (simp add: take_Suc_conv_app_nth)
  qed
  have "previous \<in> set ms" "m \<in> set ms" using Cons.prems i by auto
  then have succ: "rm_block_number m = i64_wrapping_add (rm_block_number previous) 1
      \<longleftrightarrow> rm_block_number m = rm_block_number previous + 1"
    using assms(1) by (simp add: i64_blocks_def wrapping_succ_eq)
  have ih: "start' < index + 1 \<Longrightarrow> record_ranges_loop ledger source ms start' m (index + 1) rest =
      each (record_reorg_range ledger source)
        ((drop start' (take index ms) @ hd (runs (m # rest))) # tl (runs (m # rest)))" for start'
    using Cons.IH [OF i(3), of start' m] i(1,2) by simp
  show ?case
  proof (cases "rm_block_number m = rm_block_number previous + 1")
    case True
    with succ ih [of start] Cons.prems(2) split show ?thesis by simp
  next
    case False
    with succ ih [of index] split show ?thesis by simp
  qed
qed

lemma record_reorg_ranges_runs:
  assumes "i64_blocks ms"
  shows "record_reorg_ranges ledger source ms = each (record_reorg_range ledger source) (runs ms)"
proof (cases ms)
  case Nil
  then show ?thesis by (simp add: record_reorg_ranges_def)
next
  case (Cons m rest)
  have "record_ranges_loop ledger source ms 0 m 1 rest =
      each (record_reorg_range ledger source) ((drop 0 (take (1 - 1) ms) @ hd (runs (m # rest))) # tl (runs (m # rest)))"
    by (rule record_ranges_loop_runs [OF assms]) (simp_all add: Cons)
  then show ?thesis using Cons by (simp add: record_reorg_ranges_def)
qed

section \<open>The mismatches\<close>

definition mismatch_of :: "rpc \<Rightarrow> indexed_block_hash \<Rightarrow> reorg_mismatch option" where
  "mismatch_of rpc h =
     (case rpc_block_hash rpc (i64_as_u64 (ib_block h)) of
        Ok actual \<Rightarrow>
          if to_ascii_lowercase (ib_hash h) \<noteq> to_ascii_lowercase actual
          then Some \<lparr>rm_block_number = ib_block h, rm_expected_block_hash = to_ascii_lowercase (ib_hash h),
                     rm_actual_block_hash = to_ascii_lowercase actual\<rparr>
          else None
      | Err _ \<Rightarrow> None)"

lemma map_filter_Cons: "List.map_filter f (x # xs) = (case f x of None \<Rightarrow> [] | Some y \<Rightarrow> [y]) @ List.map_filter f xs"
  by (simp add: List.map_filter_def split: option.split)

lemma in_map_filter: "y \<in> set (List.map_filter f xs) \<longleftrightarrow> (\<exists>x \<in> set xs. f x = Some y)"
  by (induction xs) (auto simp: map_filter_Cons List.map_filter_def split: option.splits)

lemma compare_hashes_Ok:
  "compare_hashes rpc hs acc = Ok ms \<longleftrightarrow> ms = acc @ List.map_filter (mismatch_of rpc) hs
     \<and> (\<forall>h \<in> set hs. is_ok (rpc_block_hash rpc (i64_as_u64 (ib_block h))))"
proof (induction hs arbitrary: acc)
  case Nil
  show ?case by (auto simp: List.map_filter_def)
next
  case (Cons h hs)
  show ?case
    by (cases "rpc_block_hash rpc (i64_as_u64 (ib_block h))")
       (auto simp: Cons.IH map_filter_Cons mismatch_of_def Let_def)
qed

definition lowered :: "reorg_mismatch list \<Rightarrow> bool" where
  "lowered ms \<longleftrightarrow> (\<forall>m \<in> set ms. to_ascii_lowercase (rm_expected_block_hash m) = rm_expected_block_hash m
     \<and> to_ascii_lowercase (rm_actual_block_hash m) = rm_actual_block_hash m)"

lemma mismatch_of_Some:
  "mismatch_of rpc h = Some m \<longleftrightarrow> (\<exists>c. rpc_block_hash rpc (i64_as_u64 (ib_block h)) = Ok c
     \<and> to_ascii_lowercase (ib_hash h) \<noteq> to_ascii_lowercase c
     \<and> m = \<lparr>rm_block_number = ib_block h, rm_expected_block_hash = to_ascii_lowercase (ib_hash h),
            rm_actual_block_hash = to_ascii_lowercase c\<rparr>)"
  by (cases "rpc_block_hash rpc (i64_as_u64 (ib_block h))") (auto simp: mismatch_of_def)

lemma lowered_mismatches: "lowered (List.map_filter (mismatch_of rpc) hs)"
  by (auto simp: lowered_def in_map_filter mismatch_of_Some)

lemma run_subset: "r \<in> set (runs ms) \<Longrightarrow> set r \<subseteq> set ms"
  using UN_upper [of r "set (runs ms)" set] by (simp flip: set_concat)

lemma lowered_run: "lowered ms \<Longrightarrow> r \<in> set (runs ms) \<Longrightarrow> lowered r"
  using run_subset by (auto simp: lowered_def)

section \<open>The repository the ranges are recorded in\<close>

definition range_event :: "source_ref \<Rightarrow> reorg_mismatch list \<Rightarrow> reorg_event_insert" where
  "range_event source r =
     \<lparr>ri_source_id = sr_id source, ri_chain_id = sr_chain_id source, ri_from_block = rm_block_number (hd r),
      ri_to_block = rm_block_number (last r), ri_expected_block_hash = Some (rm_expected_block_hash (hd r)),
      ri_actual_block_hash = Some (rm_actual_block_hash (hd r)), ri_replay_job_id = None,
      ri_mismatches = JArray (map mismatch_json r)\<rparr>"

lemma record_reorg_range_event:
  "r \<noteq> [] \<Longrightarrow> record_reorg_range ledger source r = ro_record_reorg_event ledger (range_event source r)"
  by (simp add: record_reorg_range_def range_event_def)

definition lower_event :: "reorg_event_insert \<Rightarrow> reorg_event_insert" where
  "lower_event e = e\<lparr>ri_expected_block_hash := map_option to_ascii_lowercase (ri_expected_block_hash e),
     ri_actual_block_hash := map_option to_ascii_lowercase (ri_actual_block_hash e)\<rparr>"

lemma lower_range_event: "lowered r \<Longrightarrow> r \<noteq> [] \<Longrightarrow> lower_event (range_event source r) = range_event source r"
  by (simp add: lower_event_def range_event_def lowered_def)

locale reorg_store =
  fixes repo :: "'s reorg_repository"
    and known :: "'s \<Rightarrow> uuid \<Rightarrow> int \<Rightarrow> int \<Rightarrow> indexed_block_hash list"
    and checkpoint :: "'s \<Rightarrow> uuid \<Rightarrow> source_checkpoint option"
    and events :: "'s \<Rightarrow> reorg_event_insert list"
    and others :: "'s \<Rightarrow> 'r"
  assumes known_read: "ro_indexed_block_hashes repo sid a b s = (x, t) \<Longrightarrow>
      t = s \<and> (\<forall>hs. x = Ok hs \<longrightarrow> hs = known s sid a b)"
    and known_range: "h \<in> set (known s sid a b) \<Longrightarrow> a \<le> ib_block h \<and> ib_block h \<le> b"
    and checkpoint_read: "ro_checkpoint_for_source repo sid s = (y, t) \<Longrightarrow>
      t = s \<and> (\<forall>c. y = Ok c \<longrightarrow> c = checkpoint s sid)"
    and record_added: "ro_record_reorg_event repo e s = (Ok u, t) \<Longrightarrow>
      events t = events s @ [lower_event e] \<and> others t = others s"
    and record_failed: "ro_record_reorg_event repo e s = (Err f, t) \<Longrightarrow> events t = events s \<and> others t = others s"
begin

definition expected :: "'s \<Rightarrow> uuid \<Rightarrow> int \<Rightarrow> int \<Rightarrow> indexed_block_hash list" where
  "expected s sid a b = with_checkpoint a b (checkpoint s sid) (btree_set (known s sid a b))"

lemma expected_range: "h \<in> set (expected s sid a b) \<Longrightarrow> a \<le> ib_block h \<and> ib_block h \<le> b"
  by (auto simp: expected_def with_checkpoint_def dest: known_range split: option.splits if_splits)

lemma each_recorded:
  "each (record_reorg_range repo source) rs s = (x, t) \<Longrightarrow> \<forall>r \<in> set rs. r \<noteq> [] \<and> lowered r \<Longrightarrow>
     \<exists>n \<le> length rs. events t = events s @ map (range_event source) (take n rs) \<and> others t = others s
       \<and> (is_ok x \<longrightarrow> n = length rs)"
proof (induction rs arbitrary: s)
  case Nil
  then show ?case by simp
next
  case (Cons r rs)
  obtain y m where run: "ro_record_reorg_event repo (range_event source r) s = (y, m)"
    by (cases "ro_record_reorg_event repo (range_event source r) s")
  have r: "r \<noteq> []" "lowered r" using Cons.prems(2) by simp_all
  show ?case
  proof (cases y)
    case (Inl e)
    with Cons.prems(1) run have "x = Err e" "t = m" by (simp_all add: record_reorg_range_event [OF r(1)] seq_def)
    with record_failed [OF run [unfolded Inl]] show ?thesis by (intro exI [of _ 0]) simp
  next
    case (Inr u)
    with Cons.prems(1) run have "each (record_reorg_range repo source) rs m = (x, t)"
      by (simp add: record_reorg_range_event [OF r(1)] seq_def)
    with Cons.IH Cons.prems(2) obtain n where "n \<le> length rs"
      "events t = events m @ map (range_event source) (take n rs)" "others t = others m" "is_ok x \<longrightarrow> n = length rs"
      by auto
    with record_added [OF run [unfolded Inr]] lower_range_event [OF r(2,1)] show ?thesis
      by (intro exI [of _ "Suc n"]) simp
  qed
qed

definition found :: "rpc \<Rightarrow> 's \<Rightarrow> source_ref \<Rightarrow> u64 \<Rightarrow> u64 \<Rightarrow> reorg_mismatch list" where
  "found rpc s source from to =
     List.map_filter (mismatch_of rpc) (expected s (sr_id source) (uint from) (uint to))"

lemma found_blocks: "m \<in> set (found rpc s source from to) \<Longrightarrow>
    uint from \<le> rm_block_number m \<and> rm_block_number m \<le> uint to"
  by (auto simp: found_def in_map_filter mismatch_of_Some dest: expected_range)

lemma found_record:
  assumes "uint to \<le> i64_max" and "record_reorg_ranges repo source (found rpc s source from to) s' = (x, t)"
  shows "\<exists>n \<le> length (runs (found rpc s source from to)).
    events t = events s' @ map (range_event source) (take n (runs (found rpc s source from to))) \<and> others t = others s'
    \<and> (is_ok x \<longrightarrow> n = length (runs (found rpc s source from to)))"
proof (rule each_recorded)
  have "i64_blocks (found rpc s source from to)"
    using assms(1) by (auto simp: i64_blocks_def dest!: found_blocks intro: order_trans [OF uint_ge_0])
  with record_reorg_ranges_runs assms(2)
  show "each (record_reorg_range repo source) (runs (found rpc s source from to)) s' = (x, t)" by metis
  have "lowered (found rpc s source from to)" by (simp add: found_def lowered_mismatches)
  then show "\<forall>r \<in> set (runs (found rpc s source from to)). r \<noteq> [] \<and> lowered r"
    using lowered_run runs_nonempty by blast
qed

lemma verify_outcome:
  assumes "verify_source_reorgs rpc repo source from to s = (x, t)"
  shows "others t = others s \<and> (\<exists>n \<le> length (runs (found rpc s source from to)).
      events t = events s @ map (range_event source) (take n (runs (found rpc s source from to)))
      \<and> (case x of Err _ \<Rightarrow> True
        | Ok v \<Rightarrow> n = length (runs (found rpc s source from to))
            \<and> v = \<lparr>rv_source_id = sr_id source,
                    rv_checked_blocks = length (expected s (sr_id source) (uint from) (uint to)),
                    rv_mismatches = found rpc s source from to\<rparr>
            \<and> (\<forall>h \<in> set (expected s (sr_id source) (uint from) (uint to)).
                  is_ok (rpc_block_hash rpc (i64_as_u64 (ib_block h))))))"
    (is "_ \<and> ?events")
proof (cases "\<not> to < from \<and> uint from \<le> i64_max \<and> uint to \<le> i64_max")
  case False
  with assms have "t = s" "\<not> is_ok x"
    by (auto simp: verify_source_reorgs_def i64_try_from_u64_def split: if_splits)
  then show ?thesis by (cases x) (auto intro!: exI [of _ 0])
next
  case True
  note le = True
  obtain y a where y: "ro_indexed_block_hashes repo (sr_id source) (uint from) (uint to) s = (y, a)"
    by (cases "ro_indexed_block_hashes repo (sr_id source) (uint from) (uint to) s")
  have a: "a = s" using known_read [OF y] by simp
  show ?thesis
  proof (cases y)
    case (Inl e)
    with assms le y a have "t = s" "\<not> is_ok x"
      by (auto simp: verify_source_reorgs_def i64_try_from_u64_def seq_def [of "ro_indexed_block_hashes _ _ _ _"]
            seq_def [of "ro_checkpoint_for_source _ _"])
    then show ?thesis by (cases x) (auto intro!: exI [of _ 0])
  next
    case hs: (Inr hs)
    with known_read [OF y] have hs': "hs = known s (sr_id source) (uint from) (uint to)" by simp
    obtain z b where z: "ro_checkpoint_for_source repo (sr_id source) s = (z, b)"
      by (cases "ro_checkpoint_for_source repo (sr_id source) s")
    have b: "b = s" using checkpoint_read [OF z] by simp
    show ?thesis
    proof (cases z)
      case (Inl e)
      with assms le y a hs z b have "t = s" "\<not> is_ok x"
        by (auto simp: verify_source_reorgs_def i64_try_from_u64_def seq_def [of "ro_indexed_block_hashes _ _ _ _"]
            seq_def [of "ro_checkpoint_for_source _ _"])
      then show ?thesis by (cases x) (auto intro!: exI [of _ 0])
    next
      case c: (Inr c)
      with checkpoint_read [OF z] have "c = checkpoint s (sr_id source)" by simp
      with hs' have expected: "with_checkpoint (uint from) (uint to) c (btree_set hs) =
          expected s (sr_id source) (uint from) (uint to)" by (simp add: expected_def)
      have rest: "seq (lift (compare_hashes rpc (expected s (sr_id source) (uint from) (uint to)) [])) (\<lambda>mismatches.
          seq (record_reorg_ranges repo source mismatches) (\<lambda>_.
            ret \<lparr>rv_source_id = sr_id source, rv_checked_blocks = length (expected s (sr_id source) (uint from) (uint to)),
                 rv_mismatches = mismatches\<rparr>)) s = (x, t)"
        using assms le y a hs z b c expected
        by (simp add: verify_source_reorgs_def i64_try_from_u64_def seq_def [of "ro_indexed_block_hashes _ _ _ _"]
            seq_def [of "ro_checkpoint_for_source _ _"] Let_def)
      show ?thesis
      proof (cases "compare_hashes rpc (expected s (sr_id source) (uint from) (uint to)) []")
        case (Inl e)
        with rest have "t = s" "\<not> is_ok x" by auto
        then show ?thesis by (cases x) (auto intro!: exI [of _ 0])
      next
        case (Inr ms)
        then have ms: "ms = found rpc s source from to"
            "\<forall>h \<in> set (expected s (sr_id source) (uint from) (uint to)). is_ok (rpc_block_hash rpc (i64_as_u64 (ib_block h)))"
          by (simp_all add: compare_hashes_Ok found_def)
        obtain r u where r: "record_reorg_ranges repo source ms s = (r, u)"
          by (cases "record_reorg_ranges repo source ms s")
        let ?v = "\<lparr>rv_source_id = sr_id source, rv_checked_blocks = length (expected s (sr_id source) (uint from) (uint to)),
                 rv_mismatches = ms\<rparr>"
        from rest have "seq (record_reorg_ranges repo source ms) (\<lambda>_. ret ?v) s = (x, t)" by (simp only: Inr seq_run)
        then have "(case r of Inl e \<Rightarrow> (Inl e, u) | Inr _ \<Rightarrow> (Ok ?v, u)) = (x, t)"
          by (simp add: seq_def r ret_def)
        then have tx: "t = u" "is_ok r \<longrightarrow> x = Ok ?v" "\<not> is_ok r \<longrightarrow> \<not> is_ok x" by (cases r; auto)+
        from le have "uint to \<le> i64_max" by simp
        from found_record [OF this r [unfolded ms(1)]] obtain n where n: "n \<le> length (runs ms)"
            "events u = events s @ map (range_event source) (take n (runs ms))" "others u = others s"
            "is_ok r \<longrightarrow> n = length (runs ms)"
          unfolding ms(1) by blast
        have "case x of Err _ \<Rightarrow> True | Ok v \<Rightarrow> n = length (runs ms) \<and> v = ?v
            \<and> (\<forall>h \<in> set (expected s (sr_id source) (uint from) (uint to)). is_ok (rpc_block_hash rpc (i64_as_u64 (ib_block h))))"
          using tx n(4) ms(2) by (cases "is_ok r") (auto split: sum.split)
        with n tx(1) show ?thesis unfolding ms(1) by blast
      qed
    qed
  qed
qed

end

section \<open>The PostgreSQL repository\<close>

definition stored_hashes :: "db \<Rightarrow> uuid \<Rightarrow> int \<Rightarrow> int \<Rightarrow> indexed_block_hash list" where
  "stored_hashes d sid from to = btree_set (map (\<lambda>r. IndexedBlockHash (ev_block_number r) (ev_block_hash r))
     (filter (live_event_in sid from to) (db_events d)))"

definition stored_checkpoint :: "db \<Rightarrow> uuid \<Rightarrow> source_checkpoint option" where
  "stored_checkpoint d sid = map_option to_source_checkpoint (List.find (\<lambda>r. ck_source_id r = sid) (db_checkpoints d))"

definition insert_of :: "reorg_row \<Rightarrow> reorg_event_insert" where
  "insert_of r = \<lparr>ri_source_id = re_source_id r, ri_chain_id = re_chain_id r, ri_from_block = re_from_block r,
     ri_to_block = re_to_block r, ri_expected_block_hash = re_expected_block_hash r,
     ri_actual_block_hash = re_actual_block_hash r, ri_replay_job_id = re_replay_job_id r, ri_mismatches = re_mismatches r\<rparr>"

definition but_reorgs :: "db \<Rightarrow> db" where
  "but_reorgs d = tables (d\<lparr>db_reorgs := []\<rparr>)"

lemma record_reorg_event_outcome:
  assumes "record_reorg_event e d = (x, t)"
  shows "but_reorgs t = but_reorgs d \<and> (case x of
      Err _ \<Rightarrow> db_reorgs t = db_reorgs d
    | Ok row \<Rightarrow> db_reorgs t = db_reorgs d @ [row] \<and> insert_of row = lower_event e)"
proof (cases "pool_available (db_env d)")
  case False
  with assms show ?thesis by (auto simp: record_reorg_event_def)
next
  case True
  with assms show ?thesis
    by (auto simp: record_reorg_event_def Let_def insert_of_def lower_event_def
        but_reorgs_def tables_def split: if_splits)
qed

interpretation pr: reorg_store postgres_reorg_repository stored_hashes stored_checkpoint
  "\<lambda>d. map insert_of (db_reorgs d)" but_reorgs
proof
  fix sid a b s x t
  assume "ro_indexed_block_hashes postgres_reorg_repository sid a b s = (x, t)"
  then show "t = s \<and> (\<forall>hs. x = Ok hs \<longrightarrow> hs = stored_hashes s sid a b)"
    by (cases "pool_available (db_env s)")
       (auto simp: postgres_reorg_repository_def indexed_block_hashes_def stored_hashes_def)
next
  fix h s sid a b
  assume "h \<in> set (stored_hashes s sid a b)"
  then show "a \<le> ib_block h \<and> ib_block h \<le> b" by (auto simp: stored_hashes_def live_event_in_def)
next
  fix sid s y t
  assume "ro_checkpoint_for_source postgres_reorg_repository sid s = (y, t)"
  then show "t = s \<and> (\<forall>c. y = Ok c \<longrightarrow> c = stored_checkpoint s sid)"
    by (cases "pool_available (db_env s)")
       (auto simp: postgres_reorg_repository_def checkpoint_for_source_def checkpoint_row_for_source_def seq_assoc
         stored_checkpoint_def)
next
  fix e s u t
  assume "ro_record_reorg_event postgres_reorg_repository e s = (Ok u, t)"
  then obtain row where "record_reorg_event e s = (Ok row, t)"
    by (auto simp: postgres_reorg_repository_def seq_Ok_iff)
  from record_reorg_event_outcome [OF this]
  show "map insert_of (db_reorgs t) = map insert_of (db_reorgs s) @ [lower_event e] \<and> but_reorgs t = but_reorgs s"
    by simp
next
  fix e s f t
  assume "ro_record_reorg_event postgres_reorg_repository e s = (Err f, t)"
  then have "record_reorg_event e s = (Err f, t)"
    by (cases "record_reorg_event e s"; cases "fst (record_reorg_event e s)")
       (auto simp: postgres_reorg_repository_def seq_def)
  from record_reorg_event_outcome [OF this]
  show "map insert_of (db_reorgs t) = map insert_of (db_reorgs s) \<and> but_reorgs t = but_reorgs s" by simp
qed

text \<open>The hashes a verification of a range compares: those of the live events of the source in the range, and
  the checkpoint's when it is in the range.\<close>

definition compared :: "db \<Rightarrow> source_ref \<Rightarrow> int \<Rightarrow> int \<Rightarrow> indexed_block_hash \<Rightarrow> bool" where
  "compared d source lo hi h \<longleftrightarrow>
     (\<exists>r \<in> set (db_events d). live_event_in (sr_id source) lo hi r
        \<and> h = IndexedBlockHash (ev_block_number r) (ev_block_hash r))
     \<or> (\<exists>c. stored_checkpoint d (sr_id source) = Some c \<and> lo \<le> sc_processed_block c \<and> sc_processed_block c \<le> hi
        \<and> h = IndexedBlockHash (sc_processed_block c) (sc_processed_block_hash c))"

lemma expected_compared: "h \<in> set (pr.expected d (sr_id source) lo hi) \<longleftrightarrow> compared d source lo hi h"
  by (auto simp: pr.expected_def with_checkpoint_def compared_def stored_hashes_def split: option.splits)

lemma length_expected: "length (pr.expected d (sr_id source) lo hi) = card {h. compared d source lo hi h}"
proof -
  have "distinct (pr.expected d (sr_id source) lo hi)"
    by (simp add: pr.expected_def with_checkpoint_def distinct_btree_set split: option.split)
  moreover have "set (pr.expected d (sr_id source) lo hi) = {h. compared d source lo hi h}"
    by (auto simp: expected_compared)
  ultimately show ?thesis using distinct_card by metis
qed

text \<open>A node whose chain has other blocks from 11 on than the ledger of one mint and one transfer.\<close>

definition forked_rpc :: rpc where
  "forked_rpc = \<lparr>rpc_block_number = Ok 20, rpc_code_at = (\<lambda>_ _. Ok ''0x60''),
     rpc_block_hash = (\<lambda>b. Ok (if b < 11 then ''0xB1'' else ''0xb2'')), rpc_block_timestamp = (\<lambda>_. Ok 0),
     rpc_logs = (\<lambda>_ _ _ _. Ok []), rpc_transaction_receipt = (\<lambda>h. Err (RpcFailure h))\<rparr>"

definition verified :: "db \<Rightarrow> (app_error + reorg_verification) \<times> db" where
  "verified d = verify_source_reorgs forked_rpc postgres_reorg_repository sample_ref 5 30 d"

definition reorg_db :: db where "reorg_db = snd (verified ledger_db)"

lemma verified_ok: "is_ok (fst (verified ledger_db))" "is_ok (fst (verified reorg_db))"
  by code_simp+

lemma verified_run:
  obtains v where "verify_source_reorgs forked_rpc postgres_reorg_repository sample_ref 5 30 ledger_db = (Ok v, reorg_db)"
  using is_ok_pair [OF verified_ok(1)] by (auto simp: reorg_db_def verified_def)

lemma reorg_db_rows: "map (\<lambda>r. (re_from_block r, re_to_block r)) (db_reorgs reorg_db) = [(11, 11)]"
  by code_simp

lemma ledger_db_no_reorgs: "db_reorgs ledger_db = []"
  by code_simp

lemma ranges_of_inserts: "map (\<lambda>r. (re_from_block r, re_to_block r)) rows = map (\<lambda>e. (ri_from_block e, ri_to_block e)) (map insert_of rows)"
  by (simp add: insert_of_def)



text \<open>The recorded ranges cover exactly the mismatching blocks, no recorded range can be extended by the
  next one, and the ranges together hold every mismatch once, in order.\<close>

theorem recorded_ranges_cover:
  assumes "verify_source_reorgs rpc postgres_reorg_repository source from to d = (Ok v, t)"
  shows "\<exists>new. map insert_of (db_reorgs t) = map insert_of (db_reorgs d) @ new
    \<and> (\<forall>b. (\<exists>e \<in> set new. ri_from_block e \<le> b \<and> b \<le> ri_to_block e) \<longleftrightarrow> b \<in> rm_block_number ` set (rv_mismatches v))
    \<and> successively (\<lambda>e f. ri_from_block f \<noteq> ri_to_block e + 1) new
    \<and> map mismatch_json (rv_mismatches v) = concat (map (\<lambda>e. case ri_mismatches e of JArray js \<Rightarrow> js) new)"
proof (intro exI [of _ "map (range_event source) (runs (rv_mismatches v))"] conjI)
  let ?rs = "runs (rv_mismatches v)"
  show "map insert_of (db_reorgs t) = map insert_of (db_reorgs d) @ map (range_event source) ?rs"
    using pr.verify_outcome [OF assms] by auto
  have blocks: "rm_block_number ` set r = {ri_from_block (range_event source r) .. ri_to_block (range_event source r)}"
    if "r \<in> set ?rs" for r
    using successively_blocks [OF runs_consecutive [OF that] runs_nonempty [OF that]] by (simp add: range_event_def)
  have "set (rv_mismatches v) = (\<Union>r \<in> set ?rs. set r)" by (simp flip: set_concat)
  then have "rm_block_number ` set (rv_mismatches v) = (\<Union>r \<in> set ?rs. rm_block_number ` set r)"
    by (simp only: image_UN)
  with blocks show "\<forall>b. (\<exists>e \<in> set (map (range_event source) ?rs). ri_from_block e \<le> b \<and> b \<le> ri_to_block e)
      \<longleftrightarrow> b \<in> rm_block_number ` set (rv_mismatches v)"
    by auto
  show "successively (\<lambda>e f. ri_from_block f \<noteq> ri_to_block e + 1) (map (range_event source) ?rs)"
    using runs_maximal by (simp add: successively_map range_event_def follows_def)
  have "map mismatch_json (concat ?rs) = concat (map (\<lambda>e. case ri_mismatches e of JArray js \<Rightarrow> js) (map (range_event source) ?rs))"
    unfolding map_concat by (simp add: range_event_def o_def)
  then show "map mismatch_json (rv_mismatches v) =
      concat (map (\<lambda>e. case ri_mismatches e of JArray js \<Rightarrow> js) (map (range_event source) ?rs))"
    by (simp only: concat_runs)
qed

text \<open>At this node: block 11 is covered and block 10 is not.\<close>

theorem recorded_ranges_cover_witness:
  "\<exists>v. fst (verified ledger_db) = Ok v \<and> 11 \<in> rm_block_number ` set (rv_mismatches v)
     \<and> 10 \<notin> rm_block_number ` set (rv_mismatches v)"
proof -
  obtain v where run: "verify_source_reorgs forked_rpc postgres_reorg_repository sample_ref 5 30 ledger_db = (Ok v, reorg_db)"
    by (rule verified_run)
  from recorded_ranges_cover [OF run] obtain new where "map insert_of (db_reorgs reorg_db) = new"
    and cover: "\<forall>b. (\<exists>e \<in> set new. ri_from_block e \<le> b \<and> b \<le> ri_to_block e) \<longleftrightarrow> b \<in> rm_block_number ` set (rv_mismatches v)"
    by (auto simp: ledger_db_no_reorgs)
  then have "map (\<lambda>e. (ri_from_block e, ri_to_block e)) new = [(11, 11)]"
    using reorg_db_rows ranges_of_inserts by metis
  then obtain e where "new = [e]" "ri_from_block e = 11" "ri_to_block e = 11" by auto
  then have "11 \<in> rm_block_number ` set (rv_mismatches v) \<and> 10 \<notin> rm_block_number ` set (rv_mismatches v)"
    unfolding cover [THEN spec, symmetric] by simp
  with run show ?thesis by (auto simp: verified_def)
qed

text \<open>C25: Verification keeps no track of what it has recorded: a second run over the same range, with the same
  node, finds the same mismatches and records every range again.\<close>

theorem verify_again_records_again:
  assumes "verify_source_reorgs rpc postgres_reorg_repository source from to d = (Ok v, t)"
    and "verify_source_reorgs rpc postgres_reorg_repository source from to t = (Ok w, u)"
  shows "w = v \<and> map insert_of (db_reorgs u)
    = map insert_of (db_reorgs d) @ map (range_event source) (runs (rv_mismatches v))
      @ map (range_event source) (runs (rv_mismatches v))"
proof -
  note one = pr.verify_outcome [OF assms(1)] and two = pr.verify_outcome [OF assms(2)]
  from one have "db_events t = db_events d" "db_checkpoints t = db_checkpoints d"
    by (simp_all add: but_reorgs_def tables_eq_iff)
  then have "pr.expected t (sr_id source) (uint from) (uint to) = pr.expected d (sr_id source) (uint from) (uint to)"
    by (simp add: pr.expected_def stored_hashes_def stored_checkpoint_def)
  with one two show ?thesis by (auto simp: pr.found_def)
qed

text \<open>C25 at this node: after two verifications the one mismatch is recorded twice.\<close>

theorem verify_again_records_again_witness:
  "map (\<lambda>r. (re_from_block r, re_to_block r)) (db_reorgs (snd (verified reorg_db))) = [(11, 11), (11, 11)]"
proof -
  obtain v where run: "verify_source_reorgs forked_rpc postgres_reorg_repository sample_ref 5 30 ledger_db = (Ok v, reorg_db)"
    by (rule verified_run)
  obtain w where again: "verify_source_reorgs forked_rpc postgres_reorg_repository sample_ref 5 30 reorg_db
      = (Ok w, snd (verified reorg_db))"
    using is_ok_pair [OF verified_ok(2)] by (auto simp: verified_def)
  define new where "new = map (range_event sample_ref) (runs (rv_mismatches v))"
  from verify_again_records_again [OF run again]
  have both: "map insert_of (db_reorgs (snd (verified reorg_db))) = new @ new" by (simp add: ledger_db_no_reorgs new_def)
  from pr.verify_outcome [OF run] have "map insert_of (db_reorgs reorg_db) = new" by (simp add: ledger_db_no_reorgs new_def)
  then have "map (\<lambda>e. (ri_from_block e, ri_to_block e)) new = [(11, 11)]"
    using reorg_db_rows ranges_of_inserts by metis
  with both show ?thesis unfolding ranges_of_inserts by simp
qed

end
