(* ===== verification/Metrics.thy ===== *)
theory Metrics
  imports Domain_Events Rust_Int
begin

text \<open>
  The Prometheus metrics (src/infra/telemetry/metrics.rs). A vector of counters or gauges maps the
  values of its labels to the value of the child, which exists from its first use on. The histogram of
  the write durations, registration and the text encoding belong to the prometheus crate.
\<close>

type_synonym counter_vec = "string list \<Rightarrow> u64 option"

type_synonym gauge_vec = "string list \<Rightarrow> int option"

record metrics =
  job_backlog :: gauge_vec
  failed_jobs_total :: counter_vec
  dead_letter_jobs_total :: counter_vec
  worker_lease_failures_total :: counter_vec
  events_processed_total :: counter_vec
  rpc_errors_total :: counter_vec
  head_block :: gauge_vec
  finalized_block :: gauge_vec
  processed_block :: gauge_vec
  source_lag_blocks :: gauge_vec
  reorgs_detected_total :: counter_vec

definition metrics_new :: metrics where
  "metrics_new =
     \<lparr>job_backlog = Map.empty, failed_jobs_total = Map.empty, dead_letter_jobs_total = Map.empty,
      worker_lease_failures_total = Map.empty, events_processed_total = Map.empty, rpc_errors_total = Map.empty,
      head_block = Map.empty, finalized_block = Map.empty, processed_block = Map.empty,
      source_lag_blocks = Map.empty, reorgs_detected_total = Map.empty\<rparr>"

definition inc_by :: "string list \<Rightarrow> u64 \<Rightarrow> counter_vec \<Rightarrow> counter_vec" where
  "inc_by labels n v = v(labels \<mapsto> (case v labels of None \<Rightarrow> n | Some m \<Rightarrow> m + n))"

definition saturating_i64 :: "u64 \<Rightarrow> int" where
  "saturating_i64 value = (case i64_try_from_u64 value of Some i \<Rightarrow> i | None \<Rightarrow> i64_max)"

definition set_job_backlog :: "string \<Rightarrow> string \<Rightarrow> int \<Rightarrow> metrics \<Rightarrow> metrics" where
  "set_job_backlog job_type status count m = m\<lparr>job_backlog := (job_backlog m)([job_type, status] \<mapsto> count)\<rparr>"

definition inc_failed_job :: "string \<Rightarrow> string \<Rightarrow> metrics \<Rightarrow> metrics" where
  "inc_failed_job job_type error_class m =
     m\<lparr>failed_jobs_total := inc_by [job_type, error_class] 1 (failed_jobs_total m)\<rparr>"

definition inc_dead_letter_job :: "string \<Rightarrow> string \<Rightarrow> metrics \<Rightarrow> metrics" where
  "inc_dead_letter_job job_type error_class m =
     m\<lparr>dead_letter_jobs_total := inc_by [job_type, error_class] 1 (dead_letter_jobs_total m)\<rparr>"

definition inc_worker_lease_failure :: "string \<Rightarrow> metrics \<Rightarrow> metrics" where
  "inc_worker_lease_failure worker_id m =
     m\<lparr>worker_lease_failures_total := inc_by [worker_id] 1 (worker_lease_failures_total m)\<rparr>"

definition inc_events_processed :: "string \<Rightarrow> string \<Rightarrow> string \<Rightarrow> u64 \<Rightarrow> metrics \<Rightarrow> metrics" where
  "inc_events_processed chain_id source_id event_name count m =
     (if count > 0
      then m\<lparr>events_processed_total := inc_by [chain_id, source_id, event_name] count (events_processed_total m)\<rparr>
      else m)"

definition inc_rpc_error :: "string \<Rightarrow> string \<Rightarrow> metrics \<Rightarrow> metrics" where
  "inc_rpc_error chain_id error_class m =
     m\<lparr>rpc_errors_total := inc_by [chain_id, error_class] 1 (rpc_errors_total m)\<rparr>"

definition set_head_block :: "string \<Rightarrow> u64 \<Rightarrow> metrics \<Rightarrow> metrics" where
  "set_head_block chain_id block m = m\<lparr>head_block := (head_block m)([chain_id] \<mapsto> saturating_i64 block)\<rparr>"

definition set_finalized_block :: "string \<Rightarrow> u64 \<Rightarrow> metrics \<Rightarrow> metrics" where
  "set_finalized_block chain_id block m =
     m\<lparr>finalized_block := (finalized_block m)([chain_id] \<mapsto> saturating_i64 block)\<rparr>"

definition set_source_progress :: "string \<Rightarrow> string \<Rightarrow> int \<Rightarrow> int \<Rightarrow> metrics \<Rightarrow> metrics" where
  "set_source_progress chain_id source_id processed finalized m =
     m\<lparr>processed_block := (processed_block m)([chain_id, source_id] \<mapsto> processed),
       source_lag_blocks := (source_lag_blocks m)
         ([chain_id, source_id] \<mapsto> max (i64_saturating_sub finalized processed) 0)\<rparr>"

definition inc_reorgs_detected :: "string \<Rightarrow> string \<Rightarrow> u64 \<Rightarrow> metrics \<Rightarrow> metrics" where
  "inc_reorgs_detected chain_id source_id count m =
     (if count > 0
      then m\<lparr>reorgs_detected_total := inc_by [chain_id, source_id] count (reorgs_detected_total m)\<rparr>
      else m)"

end
