(* ===== verification/Worker.thy ===== *)
theory Worker
  imports Ingest Ledger_Write Checkpoints Metrics
begin

text \<open>
  The job worker (src/worker/mod.rs): leasing a job, executing it against the node and the ledger, and
  recording its outcome. Its state is the database, the metrics and the flag that decides which
  type of job is leased first. The text of an error is a parameter: \<open>anyhow\<close> composes it.
\<close>

record ingest_worker =
  wk_worker_id :: string
  wk_lease_for :: int
  wk_chunk_size :: u64
  wk_chain_id :: "int option"
  wk_include_transaction_receipts :: bool

record worker_state =
  ws_db :: db
  ws_metrics :: metrics
  ws_replay_first :: bool

datatype worker_outcome =
    NoJob
  | Processed uuid scan_summary
  | FailedJob uuid string string
  | Interrupted uuid string

datatype stop_reason = Idle | MaxJobsReached | StopInterrupted

record worker_run_summary =
  processed_jobs :: nat
  failed_jobs :: nat
  interrupted_jobs :: nat
  stop_reason :: stop_reason

type_synonym 'a worker_prog = "(worker_state, app_error, 'a) prog"

text \<open>What the worker is given: the crates, the text of an error, the node, and which rows other
  transactions have locked.\<close>

record surroundings =
  su_crates :: crates
  su_error_chain :: "app_error \<Rightarrow> string"
  su_rpc :: rpc
  su_locked :: "uuid \<Rightarrow> bool"

definition worker_new :: "string \<Rightarrow> int \<Rightarrow> u64 \<Rightarrow> ingest_worker" where
  "worker_new worker_id lease_for chunk_size =
     \<lparr>wk_worker_id = worker_id, wk_lease_for = lease_for, wk_chunk_size = chunk_size, wk_chain_id = None,
      wk_include_transaction_receipts = False\<rparr>"

definition with_chain_id :: "int \<Rightarrow> ingest_worker \<Rightarrow> ingest_worker" where
  "with_chain_id chain w = w\<lparr>wk_chain_id := Some chain\<rparr>"

definition with_transaction_receipts :: "bool \<Rightarrow> ingest_worker \<Rightarrow> ingest_worker" where
  "with_transaction_receipts b w = w\<lparr>wk_include_transaction_receipts := b\<rparr>"

definition on_db :: "'a db_prog \<Rightarrow> 'a worker_prog" where
  "on_db m = (\<lambda>s. case m (ws_db s) of (r, d) \<Rightarrow> (r, s\<lparr>ws_db := d\<rparr>))"

definition meter :: "(metrics \<Rightarrow> metrics) \<Rightarrow> unit worker_prog" where
  "meter f = writes (\<lambda>s. s\<lparr>ws_metrics := f (ws_metrics s)\<rparr>)"

text \<open>The result of a program as a value, for the callers that look at both outcomes.\<close>

definition outcome_of :: "'a worker_prog \<Rightarrow> 'a result worker_prog" where
  "outcome_of m = (\<lambda>s. case m s of (r, t) \<Rightarrow> (Ok r, t))"

section \<open>The backlog\<close>

definition all_job_types :: "job_type list" where
  "all_job_types = [IngestRange, ReplayRange, VerifyReorg, RepairCheckpoint]"

definition all_job_statuses :: "job_status list" where
  "all_job_statuses = [Queued, Leased, Running, Succeeded, Failed, DeadLettered, Cancelled]"

fun observe_statuses :: "job_type \<Rightarrow> (string \<times> nat) list \<Rightarrow> job_status list \<Rightarrow> unit worker_prog" where
  "observe_statuses job_type counts [] = ret ()"
| "observe_statuses job_type counts (status # statuses) =
     (let count = (case map_of counts (job_status_as_str status) of Some n \<Rightarrow> int n | None \<Rightarrow> 0)
      in seq (meter (set_job_backlog (job_type_as_str job_type) (job_status_as_str status) count)) (\<lambda>_.
           observe_statuses job_type counts statuses))"

fun observe_types :: "ingest_worker \<Rightarrow> job_type list \<Rightarrow> unit worker_prog" where
  "observe_types w [] = ret ()"
| "observe_types w (job_type # job_types) =
     seq (outcome_of (on_db (status_counts (wk_chain_id w) None (Some job_type)))) (\<lambda>r.
       case r of
         Err _ \<Rightarrow> ret ()
       | Ok counts \<Rightarrow> seq (observe_statuses job_type counts all_job_statuses) (\<lambda>_. observe_types w job_types))"

definition observe_job_backlog :: "ingest_worker \<Rightarrow> unit worker_prog" where
  "observe_job_backlog w = observe_types w all_job_types"

section \<open>Leasing and finishing\<close>

definition lease_next_supported_type :: "surroundings \<Rightarrow> ingest_worker \<Rightarrow> job_type \<Rightarrow> job_row option worker_prog" where
  "lease_next_supported_type su w job_type =
     seq (outcome_of (on_db (case wk_chain_id w of
         Some chain \<Rightarrow> lease_next_for_type_and_chain (su_locked su) (wk_worker_id w) (wk_lease_for w) job_type chain
       | None \<Rightarrow> lease_next_for_type (su_locked su) (wk_worker_id w) (wk_lease_for w) job_type))) (\<lambda>result.
     seq (run_if (\<not> is_ok result) (meter (inc_worker_lease_failure (wk_worker_id w)))) (\<lambda>_.
       lift result))"

fun lease_first :: "surroundings \<Rightarrow> ingest_worker \<Rightarrow> job_type list \<Rightarrow> job_row option worker_prog" where
  "lease_first su w [] = ret None"
| "lease_first su w (job_type # job_types) =
     seq (lease_next_supported_type su w job_type) (\<lambda>leased.
       if leased \<noteq> None then ret leased else lease_first su w job_types)"

definition lease_and_mark_running :: "surroundings \<Rightarrow> ingest_worker \<Rightarrow> bool \<Rightarrow> job_row option worker_prog" where
  "lease_and_mark_running su w replay_first =
     (if wk_chunk_size w = 0 then throw (MustBePositive ''chunk-size'')
      else
        seq (lease_first su w (if replay_first then [ReplayRange, IngestRange] else [IngestRange, ReplayRange])) (\<lambda>leased.
        case leased of
          None \<Rightarrow> ret None
        | Some leased \<Rightarrow>
            seq (on_db (mark_running (jr_id leased))) (\<lambda>running.
            seq (observe_job_backlog w) (\<lambda>_.
              ret (Some running)))))"

definition finish_running_job :: "surroundings \<Rightarrow> job_row \<Rightarrow> scan_summary result \<Rightarrow> worker_outcome worker_prog" where
  "finish_running_job su running result =
     (case result of
        Ok summary \<Rightarrow>
          seq (on_db (mark_succeeded (jr_id running))) (\<lambda>succeeded.
            ret (Processed (jr_id succeeded) summary))
      | Err error \<Rightarrow>
          let message = su_error_chain su error in
          seq (on_db (mark_failed (jr_id running) ''IngestJobError'' message)) (\<lambda>failed.
          let error_class = (case jr_error_class failed of Some c \<Rightarrow> c | None \<Rightarrow> ''unknown'') in
          seq (meter (inc_failed_job (jr_job_type failed) error_class)) (\<lambda>_.
          seq (run_if (jr_status failed = job_status_as_str DeadLettered)
                (meter (inc_dead_letter_job (jr_job_type failed) error_class))) (\<lambda>_.
            ret (FailedJob (jr_id failed) (jr_status failed) message)))))"

definition update_priority_after_outcome :: "job_row \<Rightarrow> worker_outcome \<Rightarrow> unit worker_prog" where
  "update_priority_after_outcome running ended =
     (case ended of
        Processed _ _ \<Rightarrow> writes (\<lambda>s. s\<lparr>ws_replay_first := True\<rparr>)
      | FailedJob _ _ _ \<Rightarrow>
          run_if (jr_job_type running = job_type_as_str ReplayRange) (writes (\<lambda>s. s\<lparr>ws_replay_first := False\<rparr>))
      | _ \<Rightarrow> ret ())"

section \<open>Executing a job\<close>

definition observed_finalized_block :: "surroundings \<Rightarrow> int \<Rightarrow> int worker_prog" where
  "observed_finalized_block su chain_id =
     seq (on_db (chain_by_chain_id chain_id)) (\<lambda>chain.
     seq (lift (ok_or ChainMissing chain)) (\<lambda>chain.
       if ch_finality_confirmations chain < 0 then throw (CannotBeNegative ''chain finality_confirmations'')
       else
         seq (lift (rpc_block_number (su_rpc su))) (\<lambda>head.
         let finalized = u64_saturating_sub head (i64_as_u64 (ch_finality_confirmations chain)) in
         seq (meter (set_head_block (show_int chain_id) head)) (\<lambda>_.
         seq (meter (set_finalized_block (show_int chain_id) finalized)) (\<lambda>_.
           lift (ok_or (BlockTooLarge finalized) (i64_try_from_u64 finalized)))))))"

definition execute_ingest ::
  "surroundings \<Rightarrow> ingest_worker \<Rightarrow> source_row \<Rightarrow> int \<Rightarrow> int \<Rightarrow> bool \<Rightarrow> scan_summary worker_prog"
where
  "execute_ingest su w source from to restore =
     on_db (ingest_source_range (su_crates su) (su_rpc su) (postgres_ingest_repository (su_crates su)) (source_ref_of source)
       (i64_as_u64 from) (i64_as_u64 to) (wk_chunk_size w)
       \<lparr>include_transaction_receipts = wk_include_transaction_receipts w, io_restore_orphaned_conflicts = restore,
        prefetched_logs = None\<rparr>)"

definition advance_after :: "surroundings \<Rightarrow> source_row \<Rightarrow> int \<Rightarrow> int \<Rightarrow> int \<Rightarrow> unit worker_prog" where
  "advance_after su source from to observed =
     seq (on_db (next_contiguous_checkpoint_target source (Some (from, to)))) (\<lambda>target.
       case target of
         None \<Rightarrow> ret ()
       | Some target \<Rightarrow>
           if target > observed then ret ()
           else
             seq (lift (rpc_block_hash (su_rpc su) (i64_as_u64 target))) (\<lambda>hash.
             seq (on_db (advance_checkpoint (so_id source) target hash observed)) (\<lambda>_.
               meter (set_source_progress (show_int (so_chain_id source)) (uuid_display (su_crates su) (so_id source))
                 target observed))))"

definition execute_range :: "surroundings \<Rightarrow> ingest_worker \<Rightarrow> job_type \<Rightarrow> source_row \<Rightarrow> int \<Rightarrow> int \<Rightarrow> int \<Rightarrow> scan_summary worker_prog" where
  "execute_range su w job_type source from to observed =
     (if job_type = ReplayRange then
        seq (on_db (orphan_source_range source from to)) (\<lambda>_. execute_ingest su w source from to True)
      else
        seq (execute_ingest su w source from to False) (\<lambda>summary.
        seq (advance_after su source from to observed) (\<lambda>_. ret summary)))"

definition execute_job :: "surroundings \<Rightarrow> ingest_worker \<Rightarrow> job_row \<Rightarrow> scan_summary worker_prog" where
  "execute_job su w job =
     seq (lift (case job_type_from_str (jr_job_type job) of
           Err e \<Rightarrow> Err (DomainFailure e) | Ok t \<Rightarrow> Ok t)) (\<lambda>job_type.
     if \<not> (job_type = IngestRange \<or> job_type = ReplayRange) then throw (UnsupportedJobType (jr_job_type job))
     else
       seq (lift (ok_or (MissingField ''source_id'') (jr_source_id job))) (\<lambda>source_id.
       seq (lift (ok_or (MissingField ''from_block'') (jr_from_block job))) (\<lambda>from.
       seq (lift (ok_or (MissingField ''to_block'') (jr_to_block job))) (\<lambda>to.
       if from < 0 \<or> to < 0 then throw (CannotBeNegative ''range job range'')
       else
         seq (on_db (source_by_id source_id)) (\<lambda>source.
         seq (lift (ok_or SourceMissing source)) (\<lambda>source.
         if so_chain_id source \<noteq> jr_chain_id job then throw (ChainMismatch (jr_chain_id job) (so_chain_id source))
         else
           seq (observed_finalized_block su (so_chain_id source)) (\<lambda>observed.
           if to > observed then throw (TargetNotFinal to observed)
           else
             seq (lift (validate_contract_code_at_boundaries (su_rpc su) (so_contract_address source)
                   (i64_as_u64 from) (i64_as_u64 to))) (\<lambda>_.
               execute_range su w job_type source from to observed))))))))"

section \<open>Running\<close>

definition run_once :: "surroundings \<Rightarrow> ingest_worker \<Rightarrow> worker_outcome worker_prog" where
  "run_once su w =
     seq (observe_job_backlog w) (\<lambda>_.
     seq (reads ws_replay_first) (\<lambda>replay_first.
     seq (lease_and_mark_running su w replay_first) (\<lambda>running.
     case running of
       None \<Rightarrow> ret NoJob
     | Some running \<Rightarrow>
         seq (outcome_of (execute_job su w running)) (\<lambda>result.
         seq (finish_running_job su running result) (\<lambda>ended.
         seq (update_priority_after_outcome running ended) (\<lambda>_.
         seq (observe_job_backlog w) (\<lambda>_.
           ret ended)))))))"

text \<open>A shutdown can only interrupt the job where it waits for the node. The state it leaves is that of the job run
  against a node that answers the queries up to there and fails the one the job waits for, since an
  error of the node ends the job without a further write; \<open>answered\<close> is that node, or nothing
  when the job ends first.\<close>

definition run_once_until_shutdown :: "surroundings \<Rightarrow> ingest_worker \<Rightarrow> rpc option \<Rightarrow> worker_outcome worker_prog" where
  "run_once_until_shutdown su w answered =
     seq (observe_job_backlog w) (\<lambda>_.
     seq (reads ws_replay_first) (\<lambda>replay_first.
     seq (lease_and_mark_running su w replay_first) (\<lambda>running.
     case running of
       None \<Rightarrow> ret NoJob
     | Some running \<Rightarrow>
         (case answered of
            None \<Rightarrow>
              seq (outcome_of (execute_job su w running)) (\<lambda>result.
              seq (finish_running_job su running result) (\<lambda>ended.
              seq (update_priority_after_outcome running ended) (\<lambda>_.
              seq (observe_job_backlog w) (\<lambda>_.
                ret ended))))
          | Some rpc \<Rightarrow>
              seq (outcome_of (execute_job (su\<lparr>su_rpc := rpc\<rparr>) w running)) (\<lambda>_.
              seq (on_db (mark_interrupted_for_retry (jr_id running)
                    ''worker shutdown requested before job completed'')) (\<lambda>interrupted.
              seq (observe_job_backlog w) (\<lambda>_.
                ret (Interrupted (jr_id interrupted) (jr_status interrupted)))))))))"

definition attempted_jobs :: "worker_run_summary \<Rightarrow> nat" where
  "attempted_jobs s = processed_jobs s + failed_jobs s + interrupted_jobs s"

definition run_summary_default :: worker_run_summary where
  "run_summary_default = \<lparr>processed_jobs = 0, failed_jobs = 0, interrupted_jobs = 0, stop_reason = Idle\<rparr>"

text \<open>The loop until the queue is idle: \<open>None\<close> is a run that does not end. The node and the locks may be others
  in every round, which \<open>k\<close> counts.\<close>

partial_function (option) run_loop ::
  "(nat \<Rightarrow> surroundings) \<Rightarrow> ingest_worker \<Rightarrow> nat option \<Rightarrow> nat \<Rightarrow> worker_run_summary \<Rightarrow> worker_state
   \<Rightarrow> (worker_run_summary result \<times> worker_state) option"
where
  "run_loop su w max_jobs k summary s =
     (if (case max_jobs of Some n \<Rightarrow> attempted_jobs summary \<ge> n | None \<Rightarrow> False)
      then Some (Ok (summary\<lparr>stop_reason := MaxJobsReached\<rparr>), s)
      else
        (case run_once (su k) w s of
           (Err e, t) \<Rightarrow> Some (Err e, t)
         | (Ok NoJob, t) \<Rightarrow> Some (Ok (summary\<lparr>stop_reason := Idle\<rparr>), t)
         | (Ok (Processed _ _), t) \<Rightarrow>
             run_loop su w max_jobs (k + 1) (summary\<lparr>processed_jobs := processed_jobs summary + 1\<rparr>) t
         | (Ok (FailedJob _ _ _), t) \<Rightarrow>
             run_loop su w max_jobs (k + 1) (summary\<lparr>failed_jobs := failed_jobs summary + 1\<rparr>) t
         | (Ok (Interrupted _ _), t) \<Rightarrow>
             Some (Ok (summary\<lparr>interrupted_jobs := interrupted_jobs summary + 1, stop_reason := StopInterrupted\<rparr>), t)))"

definition run_until_idle ::
  "(nat \<Rightarrow> surroundings) \<Rightarrow> ingest_worker \<Rightarrow> nat option \<Rightarrow> worker_state \<Rightarrow> (worker_run_summary result \<times> worker_state) option"
where
  "run_until_idle su w max_jobs = run_loop su w max_jobs 0 run_summary_default"

definition is_terminal_failure :: "worker_outcome \<Rightarrow> bool" where
  "is_terminal_failure ended \<longleftrightarrow>
     (case ended of FailedJob _ status _ \<Rightarrow> status = job_status_as_str DeadLettered | _ \<Rightarrow> False)"

end
