(* ===== verification/Frames.thy ===== *)
theory Frames
  imports Checkpoints Ingest
begin

text \<open>
  Which part of the database a program leaves alone. A \<open>view\<close> is a part that the environment and a rollback
  do not change; the ledger operations keep the view of the job queue, and the queue operations keep
  the view of the ledger.
\<close>

locale view =
  fixes view :: "db \<Rightarrow> 'v"
  assumes view_env: "tick d e \<Longrightarrow> view (d\<lparr>db_env := e\<rparr>) = view d"
    and view_rollback: "tick d (db_env t) \<Longrightarrow> view (rollback d t) = view d"
begin

definition quiet :: "'a db_prog \<Rightarrow> bool" where
  "quiet m \<longleftrightarrow> (\<forall>d r t. m d = (r, t) \<longrightarrow> view t = view d \<and> tick d (db_env t))"

lemma quietD: "quiet m \<Longrightarrow> m d = (r, t) \<Longrightarrow> view t = view d"
  by (simp add: quiet_def)

lemma quiet_basic:
  "quiet (ret a)" "quiet (throw e)" "quiet (lift r)" "quiet (reads g)" "quiet (\<lambda>d. (h d, d))"
  "quiet connection" "quiet new_uuid" "quiet utc_now"
  by (auto simp: quiet_def connection_def new_uuid_def utc_now_def tick_def intro!: view_env split: if_splits)

lemma quiet_writes: "(\<And>d. view (f d) = view d \<and> db_env (f d) = db_env d) \<Longrightarrow> quiet (writes f)"
  by (simp add: quiet_def)

lemma quiet_seq:
  assumes "quiet m" and "\<And>a. quiet (f a)"
  shows "quiet (seq m f)"
  unfolding quiet_def
proof (intro allI impI)
  fix d r t assume run: "seq m f d = (r, t)"
  obtain q s where m: "m d = (q, s)" by (cases "m d")
  with assms(1) have s: "view s = view d" "tick d (db_env s)" by (simp_all add: quiet_def)
  show "view t = view d \<and> tick d (db_env t)"
  proof (cases q)
    case (Inl e)
    with run m s show ?thesis by (simp add: seq_def)
  next
    case (Inr a)
    with run m have "f a s = (r, t)" by (simp add: seq_def)
    with assms(2) s show ?thesis by (auto simp: quiet_def intro: tick_trans)
  qed
qed

lemma quiet_transaction: "quiet m \<Longrightarrow> quiet (pg_transaction m)"
  unfolding quiet_def
proof (intro allI impI)
  fix d r t
  assume q: "\<forall>d r t. m d = (r, t) \<longrightarrow> view t = view d \<and> tick d (db_env t)" and run: "pg_transaction m d = (r, t)"
  obtain x s where m: "m d = (x, s)" by (cases "m d")
  with q have "view s = view d" "tick d (db_env s)" by blast+
  with run m show "view t = view d \<and> tick d (db_env t)"
    by (cases x) (auto simp: pg_transaction_def transaction_def view_rollback, simp add: rollback_def)
qed

lemma quiet_run_if: "quiet m \<Longrightarrow> quiet (run_if b m)"
  by (cases b) (simp_all add: quiet_basic)

lemma quiet_if: "quiet m \<Longrightarrow> quiet n \<Longrightarrow> quiet (if b then m else n)"
  by simp

lemma quiet_option: "quiet n \<Longrightarrow> (\<And>a. quiet (f a)) \<Longrightarrow> quiet (case x of None \<Rightarrow> n | Some a \<Rightarrow> f a)"
  by (simp split: option.split)

lemma quiet_each: "(\<And>x. quiet (f x)) \<Longrightarrow> quiet (each f xs)"
  by (induction xs) (auto intro: quiet_basic quiet_seq)

lemmas quiet_intros = quiet_basic quiet_seq quiet_transaction quiet_run_if quiet_if quiet_option quiet_each

end

definition queue_view :: "db \<Rightarrow> job_row list \<times> attempt_row list" where
  "queue_view d = (db_jobs d, db_attempts d)"

definition ledger_view :: "db \<Rightarrow> event_row list \<times> ledger_row list \<times> balance_row list \<times> source_row list" where
  "ledger_view d = (db_events d, db_entries d, db_balances d, db_sources d)"

text \<open>Everything the ledger operations do not write.\<close>

definition base_view ::
  "db \<Rightarrow> (chain_row list \<times> source_row list \<times> checkpoint_row list) \<times> job_row list \<times> attempt_row list \<times> reorg_row list"
where
  "base_view d = ((db_chains d, db_sources d, db_checkpoints d), db_jobs d, db_attempts d, db_reorgs d)"

interpretation bv: view base_view
  by unfold_locales (simp_all add: base_view_def rollback_def)

interpretation qv: view queue_view
  by unfold_locales (simp_all add: queue_view_def rollback_def)

interpretation lv: view ledger_view
  by unfold_locales (simp_all add: ledger_view_def rollback_def)

section \<open>The ledger leaves the rest alone\<close>

lemma bv_tables:
  "bv.quiet (insert_event_conflict row)" "bv.quiet (restore_event i)" "bv.quiet (insert_entry_conflict e)"
  "bv.quiet (restore_entry e)" "bv.quiet (update_balance i f)" "bv.quiet (insert_balance b)"
  by (auto simp: bv.quiet_def insert_event_conflict_def restore_event_def insert_entry_conflict_def restore_entry_def
      update_balance_def insert_balance_def base_view_def ret_def
      split: if_splits option.splits)

lemma bv_delta: "bv.quiet (apply_holder_balance_delta source holder token delta)"
  unfolding apply_holder_balance_delta_def Let_def by (intro bv.quiet_intros bv_tables)

lemma bv_deltas: "bv.quiet (apply_balance_delta source previous current)"
  unfolding apply_balance_delta_def
  by (intro bv.quiet_each) (simp add: bv_delta split: prod.split)

lemma bv_persist: "bv.quiet (persist_decoded_logs_with_options c source logs options)"
proof -
  have "bv.quiet (upsert_event source log decoded options)" for log decoded
    unfolding upsert_event_def by (intro bv.quiet_intros bv_tables)
  moreover have "bv.quiet (upsert_ledger_entry c source log i entry options)" for log i entry
    unfolding upsert_ledger_entry_def by (intro bv.quiet_intros bv_tables)
  moreover have "bv.quiet (lock_existing_ledger_entry source log b)" for log b
    unfolding lock_existing_ledger_entry_def by (intro bv.quiet_intros)
  ultimately have "bv.quiet (persist_log c source options ld)" for ld
    unfolding persist_log_def persist_entry_def by (intro bv.quiet_intros bv_deltas)
  then show ?thesis
    unfolding persist_decoded_logs_with_options_def lock_source_for_write_conn_def holder_count_conn_def
      minter_count_conn_def top_holders_conn_def
    by (intro bv.quiet_intros)
qed

lemma bv_receipts: "bv.quiet (persist_transaction_receipts c chain receipts)"
proof -
  have "bv.quiet (upsert_transaction_receipt c chain r)" for r
    unfolding upsert_transaction_receipt_def
    by (intro bv.quiet_intros) (auto simp: bv.quiet_def base_view_def split: if_splits option.splits)
  then show ?thesis unfolding persist_transaction_receipts_def by (intro bv.quiet_intros)
qed

lemma bv_orphan: "bv.quiet (orphan_source_range source lo hi)"
  unfolding orphan_source_range_def lock_source_for_write_conn_def reverse_entry_def
  by (intro bv.quiet_intros bv_deltas bv.quiet_writes) (simp_all add: base_view_def)

lemma bv_ingest: "bv.quiet (ingest_source_range c rpc (postgres_ingest_repository c) source from to n options)"
  unfolding ingest_source_range_def postgres_ingest_repository_def ledger_ingest_repository.simps
  by (intro bv.quiet_intros bv_persist bv_receipts)

lemma quiet_queue: "bv.quiet m \<Longrightarrow> qv.quiet m"
  by (simp add: bv.quiet_def qv.quiet_def base_view_def queue_view_def)

lemmas qv_orphan = bv_orphan [THEN quiet_queue]

lemmas qv_ingest = bv_ingest [THEN quiet_queue]

lemma qv_tables: "qv.quiet (insert_checkpoint k)" "qv.quiet (update_checkpoint k g)"
  by (auto simp: qv.quiet_def insert_checkpoint_def update_checkpoint_def queue_view_def split: if_splits)

lemma qv_checkpoints:
  "qv.quiet (advance_checkpoint sid processed hash finalized)"
  "qv.quiet (next_contiguous_checkpoint_target source completed)"
  unfolding advance_checkpoint_def next_contiguous_checkpoint_target_def Let_def
  by (intro qv.quiet_intros qv_tables)+

lemma qv_reads: "qv.quiet (source_by_id sid)" "qv.quiet (chain_by_chain_id chain)" "qv.quiet (status_counts a b t)"
  unfolding source_by_id_def chain_by_chain_id_def status_counts_def by (intro qv.quiet_intros)+

section \<open>The queue and the checkpoints leave the ledger alone\<close>

lemma lv_tables:
  "lv.quiet (update_job i f)" "lv.quiet (get_job_for_update i)" "lv.quiet (insert_checkpoint k)"
  "lv.quiet (update_checkpoint k g)"
  by (auto simp: lv.quiet_def update_job_def get_job_for_update_def insert_checkpoint_def update_checkpoint_def
      ledger_view_def split: if_splits option.splits)

lemma lv_attempts:
  "lv.quiet (update_attempt_status i n st cls msg)" "lv.quiet (insert_attempt job n w)"
  unfolding update_attempt_status_def insert_attempt_def Let_def
  by (intro lv.quiet_intros lv.quiet_writes; simp add: ledger_view_def)+

lemma lv_queue:
  "lv.quiet (lease_next_candidate locked w l jt ch)" "lv.quiet (mark_running i)" "lv.quiet (mark_succeeded i)"
  "lv.quiet (mark_failed i cls msg)" "lv.quiet (mark_interrupted_for_retry i msg)"
  unfolding lease_next_candidate_def lock_next_candidate_def cancel_expired_attempt_def mark_running_def
    mark_succeeded_def mark_failed_def mark_interrupted_for_retry_def Let_def
  by (intro lv.quiet_intros lv_tables lv_attempts)+

lemma lv_checkpoints:
  "lv.quiet (advance_checkpoint sid processed hash finalized)"
  "lv.quiet (next_contiguous_checkpoint_target source completed)"
  unfolding advance_checkpoint_def next_contiguous_checkpoint_target_def Let_def
  by (intro lv.quiet_intros lv_tables)+

lemma lv_reads: "lv.quiet (source_by_id sid)" "lv.quiet (chain_by_chain_id chain)" "lv.quiet (status_counts a b t)"
  unfolding source_by_id_def chain_by_chain_id_def status_counts_def by (intro lv.quiet_intros)+

end
