(* ===== verification/Worker_Spec.thy ===== *)
theory Worker_Spec
  imports Worker Frames Ingest_Spec
begin

text \<open>
  What the worker promises: every round keeps the invariants of the queue and of the ledger, the loop ends on
  every queue, a job only writes when its target is final, and what a replay leaves behind.
\<close>

section \<open>Worker programs that leave a view alone\<close>

context view
begin

definition calm :: "'a worker_prog \<Rightarrow> bool" where
  "calm m \<longleftrightarrow> (\<forall>s r t. m s = (r, t) \<longrightarrow> view (ws_db t) = view (ws_db s) \<and> tick (ws_db s) (db_env (ws_db t)))"

lemma calmD: "calm m \<Longrightarrow> m s = (r, t) \<Longrightarrow> view (ws_db t) = view (ws_db s)"
  by (simp add: calm_def)

lemma calm_basic:
  "calm (ret a)" "calm (throw e)" "calm (lift r)" "calm (reads g)" "calm (meter h)"
  "(\<And>s. ws_db (k s) = ws_db s) \<Longrightarrow> calm (writes k)"
  by (auto simp: calm_def meter_def)

lemma calm_on_db: "quiet m \<Longrightarrow> calm (on_db m)"
  by (auto simp: calm_def quiet_def on_db_def split: prod.splits)

lemma calm_outcome_of: "calm m \<Longrightarrow> calm (outcome_of m)"
  by (auto simp: calm_def outcome_of_def split: prod.splits)

lemma calm_seq:
  assumes "calm m" and "\<And>a. calm (f a)"
  shows "calm (seq m f)"
  unfolding calm_def
proof (intro allI impI)
  fix s r t assume run: "seq m f s = (r, t)"
  obtain q u where m: "m s = (q, u)" by (cases "m s")
  with assms(1) have u: "view (ws_db u) = view (ws_db s)" "tick (ws_db s) (db_env (ws_db u))" by (simp_all add: calm_def)
  show "view (ws_db t) = view (ws_db s) \<and> tick (ws_db s) (db_env (ws_db t))"
  proof (cases q)
    case (Inl e)
    with run m u show ?thesis by (simp add: seq_def)
  next
    case (Inr a)
    with run m have "f a u = (r, t)" by (simp add: seq_def)
    with assms(2) u show ?thesis by (auto simp: calm_def intro: tick_trans)
  qed
qed

lemma calm_run_if: "calm m \<Longrightarrow> calm (run_if b m)"
  by (cases b) (simp_all add: calm_basic)

lemma calm_if: "calm m \<Longrightarrow> calm n \<Longrightarrow> calm (if b then m else n)"
  by simp

lemma calm_option: "calm n \<Longrightarrow> (\<And>a. calm (f a)) \<Longrightarrow> calm (case x of None \<Rightarrow> n | Some a \<Rightarrow> f a)"
  by (simp split: option.split)

lemma calm_result: "(\<And>e. calm (g e)) \<Longrightarrow> (\<And>a. calm (f a)) \<Longrightarrow> calm (case x of Inl e \<Rightarrow> g e | Inr a \<Rightarrow> f a)"
  by (simp split: sum.split)

lemmas calm_intros = calm_basic(1-5) calm_on_db calm_outcome_of calm_seq calm_run_if calm_if calm_option calm_result

lemma calm_backlog:
  assumes "\<And>a b t. quiet (status_counts a b t)"
  shows "calm (observe_job_backlog w)"
proof -
  have "calm (observe_statuses jt counts sts)" for jt counts sts
    by (induction sts) (simp_all add: Let_def calm_intros)
  then have "calm (observe_types w jts)" for jts
    by (induction jts) (simp_all add: assms calm_intros)
  then show ?thesis by (simp add: observe_job_backlog_def)
qed

end

lemmas backlog_calm = qv.calm_backlog [OF qv_reads(3)] lv.calm_backlog [OF lv_reads(3)]

lemma qv_observed: "qv.calm (observed_finalized_block su chain)"
  unfolding observed_finalized_block_def Let_def
  by (intro qv.calm_intros qv_reads)

lemma qv_execute: "qv.calm (execute_job su w job)"
  unfolding execute_job_def execute_range_def execute_ingest_def advance_after_def
  by (intro qv.calm_intros qv_reads qv_orphan qv_ingest qv_checkpoints qv_observed)

lemma lv_lease:
  "lv.calm (lease_next_supported_type su w jt)" "lv.calm (lease_first su w jts)" "lv.calm (lease_and_mark_running su w b)"
proof -
  have one: "lv.calm (lease_next_supported_type su w jt)" for jt
    unfolding lease_next_supported_type_def lease_next_for_type_and_chain_def lease_next_for_type_def
    by (intro lv.calm_intros lv.quiet_option lv_queue)
  then show "lv.calm (lease_next_supported_type su w jt)" .
  have all: "lv.calm (lease_first su w jts)" for jts
    by (induction jts) (simp_all add: one lv.calm_intros)
  then show "lv.calm (lease_first su w jts)" .
  show "lv.calm (lease_and_mark_running su w b)"
    unfolding lease_and_mark_running_def by (intro lv.calm_intros all lv_queue backlog_calm)
qed

lemma lv_finish: "lv.calm (finish_running_job su running result)"
  unfolding finish_running_job_def Let_def by (intro lv.calm_intros lv_queue)

lemma priority_db: "update_priority_after_outcome running ended s = (r, t) \<Longrightarrow> ws_db t = ws_db s \<and> is_ok r"
  by (auto simp: update_priority_after_outcome_def run_if_def split: worker_outcome.splits if_splits)

section \<open>A round keeps the invariants\<close>

lemma queue_inv_view:
  assumes "queue_inv d" and "queue_view t = queue_view d" and "tick d (db_env t)"
  shows "queue_inv t"
  using assms by (simp add: queue_inv_def queue_view_def attempts_of_def tick_def)

lemma ledger_inv_view: "ledger_inv d \<Longrightarrow> ledger_view t = ledger_view d \<Longrightarrow> ledger_inv t"
  using ledger_inv_same by (simp add: ledger_view_def)

definition worker_inv :: "worker_state \<Rightarrow> bool" where
  "worker_inv s \<longleftrightarrow> queue_inv (ws_db s) \<and> ledger_inv (ws_db s)"

definition sound :: "'a worker_prog \<Rightarrow> bool" where
  "sound m \<longleftrightarrow> (\<forall>s r t. worker_inv s \<longrightarrow> m s = (r, t) \<longrightarrow> worker_inv t)"

lemma soundD: "sound m \<Longrightarrow> worker_inv s \<Longrightarrow> m s = (r, t) \<Longrightarrow> worker_inv t"
  by (auto simp: sound_def)

lemma sound_basic:
  "sound (ret a)" "sound (throw e)" "sound (lift r)" "sound (reads g)" "sound (meter h)"
  by (auto simp: sound_def meter_def worker_inv_def)

lemma sound_seq:
  assumes "sound m" and "\<And>a. sound (f a)"
  shows "sound (seq m f)"
  unfolding sound_def
proof (intro allI impI)
  fix s r t assume inv: "worker_inv s" and run: "seq m f s = (r, t)"
  obtain q u where m: "m s = (q, u)" by (cases "m s")
  with soundD [OF assms(1) inv] have "worker_inv u" by simp
  with run m soundD [OF assms(2)] show "worker_inv t"
    by (cases q) (auto simp: seq_def)
qed

lemma sound_cases:
  "sound m \<Longrightarrow> sound n \<Longrightarrow> sound (if b then m else n)"
  "sound n \<Longrightarrow> (\<And>a. sound (f a)) \<Longrightarrow> sound (case x of None \<Rightarrow> n | Some a \<Rightarrow> f a)"
  by (simp_all split: option.split)

lemma sound_outcome_of: "sound m \<Longrightarrow> sound (outcome_of m)"
  by (auto simp: sound_def outcome_of_def split: prod.splits)

lemma sound_calm: "qv.calm m \<Longrightarrow> lv.calm m \<Longrightarrow> sound m"
  unfolding sound_def worker_inv_def qv.calm_def
  using queue_inv_view ledger_inv_view lv.calmD by blast

text \<open>The operations of the queue keep its invariant by its step relation, those of the ledger by the ledger's.\<close>

lemma sound_queue:
  assumes "lv.quiet m" and "\<And>d r t. m d = (r, t) \<Longrightarrow> queue_step d t"
  shows "sound (on_db m)"
  unfolding sound_def worker_inv_def on_db_def
  by (auto split: prod.splits intro: queue_step_keeps [OF assms(2)] ledger_inv_view [OF _ lv.quietD [OF assms(1)]])

lemma sound_ledger:
  assumes "qv.quiet m" and "\<And>d r t. ledger_inv d \<Longrightarrow> m d = (r, t) \<Longrightarrow> ledger_inv t"
  shows "sound (on_db m)"
  unfolding sound_def worker_inv_def on_db_def
  using assms(2) queue_inv_view assms(1)
  by (auto simp: qv.quiet_def split: prod.splits)

lemma sound_marks:
  "sound (on_db (lease_next_candidate locked wid l jt ch))" "sound (on_db (mark_running i))"
  "sound (on_db (mark_succeeded i))" "sound (on_db (mark_failed i cls msg))"
  "sound (on_db (mark_interrupted_for_retry i msg))"
  by (rule sound_queue; (rule lv_queue | erule step_lease step_running step_succeeded step_failed step_interrupted))+

lemma sound_lease_and_mark: "sound (lease_and_mark_running su w b)"
proof -
  have "sound (lease_next_supported_type su w jt)" for jt
    unfolding lease_next_supported_type_def lease_next_for_type_and_chain_def lease_next_for_type_def
    by (cases "wk_chain_id w") (auto intro!: sound_seq sound_outcome_of sound_marks sound_basic simp: run_if_def)
  then have "sound (lease_first su w jts)" for jts
    by (induction jts) (auto intro!: sound_seq sound_basic)
  then show ?thesis
    unfolding lease_and_mark_running_def
    by (intro sound_seq sound_cases sound_basic sound_marks sound_calm [OF backlog_calm])
qed

lemma sound_finish: "sound (finish_running_job su running result)"
  unfolding finish_running_job_def Let_def run_if_def
  by (cases result) (auto intro!: sound_seq sound_cases sound_basic sound_marks)

lemma sound_execute: "sound (execute_job su w job)"
proof -
  have ingest: "sound (execute_ingest su w source lo hi b)" for source lo hi b
    unfolding execute_ingest_def
    by (rule sound_ledger [OF qv_ingest]) (use pg.ingest_outcome in blast)
  have orphan: "sound (on_db (orphan_source_range source lo hi))" for source lo hi
    by (rule sound_ledger [OF qv_orphan]) (rule orphan_keeps)
  have advance: "sound (advance_after su source lo hi observed)" for source lo hi observed
    unfolding advance_after_def
    by (rule sound_calm; intro qv.calm_intros lv.calm_intros qv_checkpoints lv_checkpoints)
  have observed: "sound (observed_finalized_block su chain)" for chain
    by (rule sound_calm [OF qv_observed])
      (unfold observed_finalized_block_def Let_def, intro lv.calm_intros lv_reads)
  have source: "sound (on_db (source_by_id sid))" for sid
    by (rule sound_calm; intro qv.calm_intros lv.calm_intros qv_reads lv_reads)
  show ?thesis
    unfolding execute_job_def execute_range_def
    by (intro sound_seq sound_cases sound_basic ingest orphan advance observed source)
qed

lemma sound_priority: "sound (update_priority_after_outcome running ended)"
  by (auto simp: sound_def worker_inv_def dest!: priority_db)

text \<open>A round of the worker keeps the invariants of the queue and of the ledger, whatever the node answers and
  however the round ends: also when it returns an error or a shutdown interrupts the job.\<close>

theorem run_once_keeps_invariants:
  assumes "worker_inv s"
  shows "worker_inv (snd (run_once su w s)) \<and> worker_inv (snd (run_once_until_shutdown su w answered s))"
proof
  have "sound (run_once su w)"
    unfolding run_once_def
    by (intro sound_seq sound_cases sound_basic sound_outcome_of sound_lease_and_mark sound_execute sound_finish
        sound_priority sound_calm [OF backlog_calm])
  with assms soundD show "worker_inv (snd (run_once su w s))" by (metis prod.collapse)
  have "sound (run_once_until_shutdown su w answered)"
    unfolding run_once_until_shutdown_def
    by (intro sound_seq sound_cases sound_basic sound_outcome_of sound_lease_and_mark sound_execute sound_finish
        sound_priority sound_calm [OF backlog_calm] sound_marks)
  with assms soundD show "worker_inv (snd (run_once_until_shutdown su w answered s))" by (metis prod.collapse)
qed

text \<open>A queue with one job of the source for blocks 10 to 20, and the node with one mint in block 16 whose head is 20.\<close>

definition mint_job :: new_job where
  "mint_job = \<lparr>nw_id = 70, nw_job_type = IngestRange, nw_source_id = Some 5, nw_chain_id = 1,
     nw_from_block = Some 10, nw_to_block = Some 20, nw_idempotency_key = ''k'', nw_max_attempts = 2\<rparr>"

definition chain_db :: db where
  "chain_db = source_db\<lparr>db_chains := [\<lparr>ch_id = 1, ch_name = ''c'', ch_chain_id = 1, ch_rpc_url = ''u'',
     ch_finality_confirmations = 0, ch_created_at = 0\<rparr>]\<rparr>"

definition worker_start :: worker_state where
  "worker_start = \<lparr>ws_db = snd (enqueue mint_job chain_db), ws_metrics = metrics_new, ws_replay_first = True\<rparr>"

definition mint_su :: surroundings where
  "mint_su = \<lparr>su_crates = sample_crates, su_error_chain = (\<lambda>_. ''error''), su_rpc = mint_rpc, su_locked = (\<lambda>_. False)\<rparr>"

definition mint_worker :: ingest_worker where
  "mint_worker = worker_new ''w'' 60 4"

lemma worker_start_inv: "worker_inv worker_start"
proof -
  have "queue_reachable chain_db"
    by (rule reach_start) (simp_all add: chain_db_def source_db_def empty_db_def sample_env_def mono_def)
  then have "queue_reachable (snd (enqueue mint_job chain_db))"
    by (rule reach_step) (rule step_enqueue, simp add: prod_eq_iff)
  from queue_reachable_inv [OF this] have q: "queue_inv (ws_db worker_start)" by (simp add: worker_start_def)
  have "ledger_inv chain_db"
    by (rule ledger_reachable_inv, rule lr_start) (simp_all add: chain_db_def source_db_def empty_db_def)
  moreover have "ledger_view (ws_db worker_start) = ledger_view chain_db" by code_simp
  ultimately have "ledger_inv (ws_db worker_start)" by (rule ledger_inv_view)
  with q show ?thesis by (simp add: worker_inv_def)
qed

text \<open>At this queue, with a node that has lost its last block when a shutdown interrupts the round.\<close>

theorem run_once_keeps_invariants_witness:
  "worker_inv (snd (run_once mint_su mint_worker worker_start))
     \<and> worker_inv (snd (run_once_until_shutdown mint_su mint_worker (Some (mint_rpc\<lparr>rpc_block_number := Ok 19\<rparr>)) worker_start))"
  by (rule run_once_keeps_invariants [OF worker_start_inv])

section \<open>Every round uses up an attempt\<close>

definition job_open :: "job_row \<Rightarrow> bool" where
  "job_open r \<longleftrightarrow> jr_status r = ''queued'' \<or> jr_status r = ''leased'' \<or> jr_status r = ''running''"

text \<open>The rounds a job can still take.\<close>

definition job_work :: "job_row \<Rightarrow> int" where
  "job_work r = (if job_open r then 1 + max 0 (jr_max_attempts r - jr_attempts r) else 0)"

definition queue_work :: "db \<Rightarrow> int" where
  "queue_work d = sum_list (map job_work (db_jobs d))"

lemma job_work_nonneg [simp]: "0 \<le> job_work r"
  by (simp add: job_work_def)

lemma queue_work_nonneg: "0 \<le> queue_work d"
  unfolding queue_work_def by (rule sum_list_nonneg) auto

lemma queue_work_view: "queue_view t = queue_view d \<Longrightarrow> queue_work t = queue_work d"
  by (simp add: queue_view_def queue_work_def)

lemma queue_inv_unique: "queue_inv d \<Longrightarrow> unique_key jr_id (db_jobs d)"
  by (simp add: queue_inv_def)

lemma job_by_id: "queue_inv d \<Longrightarrow> p \<in> set (db_jobs d) \<Longrightarrow> q \<in> set (db_jobs d) \<Longrightarrow> jr_id p = jr_id q \<Longrightarrow> p = q"
  using unique_key_eq [OF queue_inv_unique] by blast

text \<open>A change of the one row of a job.\<close>

definition replaces :: "db \<Rightarrow> job_row \<Rightarrow> job_row \<Rightarrow> db \<Rightarrow> bool" where
  "replaces d q r t \<longleftrightarrow> q \<in> set (db_jobs d) \<and> jr_id r = jr_id q
     \<and> db_jobs t = update_rows (\<lambda>p. jr_id p = jr_id q) (\<lambda>_. r) (db_jobs d)"

lemma replaces_work:
  assumes "queue_inv d" and "replaces d q r t"
  shows "queue_work t = queue_work d - job_work q + job_work r"
  using sum_list_update_unique [OF queue_inv_unique [OF assms(1)], of q job_work "\<lambda>_. r"] assms(2)
  by (simp add: replaces_def queue_work_def)

lemma replaces_member: "replaces d q r t \<Longrightarrow> r \<in> set (db_jobs t)"
  by (auto simp: replaces_def in_update_rows)

lemma update_rows_one:
  assumes "queue_inv d" and "q \<in> set (db_jobs d)"
  shows "update_rows (\<lambda>p. p = q) (\<lambda>_. r) (db_jobs d) = update_rows (\<lambda>p. jr_id p = jr_id q) (\<lambda>_. r) (db_jobs d)"
  unfolding update_rows_def using job_by_id [OF assms(1) _ assms(2)] by auto

lemma outcome_replaces:
  assumes "outcome i f st cls msg d' = (Ok r, t)" and "queue_inv d" and "db_jobs d' = db_jobs d"
    and "\<And>r. same_identity (f r) r" and "\<And>r. jr_attempts (f r) = jr_attempts r"
  obtains q where "jr_id q = i" and "r = f q" and "replaces d q r t"
proof -
  have "unique_key jr_id (db_jobs d')" using queue_inv_unique [OF assms(2)] assms(3) by simp
  from outcome_jobs [OF assms(1) this assms(4,5)] obtain q where q: "q \<in> set (db_jobs d)" "jr_id q = i" "r = f q"
    "db_jobs t = update_rows (\<lambda>p. p = q) (\<lambda>_. r) (db_jobs d)" by (auto simp: assms(3))
  moreover have "jr_id r = jr_id q" using assms(4) [of q] q(3) by (simp add: same_identity_def)
  ultimately show thesis
    using update_rows_one [OF assms(2) q(1)] by (intro that [of q]) (simp_all add: replaces_def)
qed

lemma mark_running_replaces:
  assumes "mark_running i d = (Ok r, t)" and "queue_inv d"
  obtains q now where "jr_id q = i" and "r = running_row now q" and "replaces d q r t"
  using assms(1) by (auto simp: mark_running_eq elim!: outcome_replaces [OF _ assms(2)] intro: that)

lemma mark_succeeded_replaces:
  assumes "mark_succeeded i d = (Ok r, t)" and "queue_inv d"
  obtains q now where "jr_id q = i" and "r = succeeded_row now q" and "replaces d q r t"
  using assms(1) by (auto simp: mark_succeeded_eq elim!: outcome_replaces [OF _ assms(2)] intro: that)

lemma mark_failed_replaces:
  assumes "mark_failed i cls msg d = (Ok r, t)" and "queue_inv d"
  obtains q now where "jr_id q = i" and "r = failed_row (next_status q) cls msg now q" and "replaces d q r t"
proof -
  let ?now = "clock (db_env d) (clock_reads (db_env d))"
  let ?d = "d\<lparr>db_env := (db_env d)\<lparr>clock_reads := clock_reads (db_env d) + 1\<rparr>\<rparr>"
  from assms(1) obtain p where p: "List.find (\<lambda>r. jr_id r = i) (db_jobs d) = Some p"
    and run: "outcome (jr_id p) (failed_row (next_status p) cls msg ?now)
        (if next_status p = DeadLettered then DeadLettered else Failed) (Some cls) (Some msg) ?d = (Ok r, t)"
    by (auto simp: mark_failed_eq seq_Ok_iff [of "get_job_for_update i"] get_job_for_update_Ok)
  obtain q where q: "jr_id q = jr_id p" "r = failed_row (next_status p) cls msg ?now q" "replaces d q r t"
    by (rule outcome_replaces [OF run assms(2)]) simp_all
  moreover have "q = p"
    using job_by_id [OF assms(2) _ _ q(1)] q(3) find_Some_set [OF p] by (simp add: replaces_def)
  ultimately show thesis using find_Some_set [OF p] by (intro that [of q ?now]) simp_all
qed

lemma lease_replaces:
  assumes "lease_next_candidate locked wid l jt ch d = (Ok (Some r), t)" and "queue_inv d"
  obtains q where "replaces d q r t" and "job_open q" and "job_open r"
    and "jr_attempts r = jr_attempts q + 1" and "jr_max_attempts r = jr_max_attempts q"
proof -
  obtain q now1 now2 fin cls msg a e where q: "oldest_job (lease_pool locked jt ch now1 d) = Some q" "q \<in> set (db_jobs d)"
    and r: "r = lease_row q wid l now2 q" "job_check r"
    and t: "t = d\<lparr>db_jobs := update_rows (\<lambda>p. jr_id p = jr_id q) (lease_row q wid l now2) (db_jobs d),
               db_attempts := (if lease_expired now2 q then set_attempt (jr_id q) (jr_attempts q) Cancelled fin cls msg (db_attempts d)
                               else db_attempts d) @ [a],
               db_env := e\<rparr>"
    by (rule lease_run [OF assms(1) queue_inv_unique [OF assms(2)]])
  have "update_rows (\<lambda>p. jr_id p = jr_id q) (lease_row q wid l now2) (db_jobs d)
      = update_rows (\<lambda>p. jr_id p = jr_id q) (\<lambda>_. r) (db_jobs d)"
    unfolding update_rows_def r(1) using job_by_id [OF assms(2) _ q(2)] by auto
  then have "replaces d q r t" using q(2) by (simp add: replaces_def t r(1) lease_row_def)
  moreover have "job_open q"
    using oldest_job_Some [OF q(1)] by (auto simp: lease_pool_def lease_eligible_def job_open_def)
  moreover have "jr_attempts r = jr_attempts q + 1"
  proof -
    have "in_i32 (jr_attempts q)" "0 \<le> jr_attempts q"
      using assms(2) q(2) by (auto simp: queue_inv_def job_check_def)
    then show ?thesis
      using i32_wrapping_succ [of "jr_attempts q"] r by (simp add: lease_row_def job_check_def)
  qed
  ultimately show thesis by (intro that [of q]) (simp_all add: r(1) job_open_def lease_row_def)
qed

lemma on_db_Ok: "on_db m s = (x, t) \<longleftrightarrow> m (ws_db s) = (x, ws_db t) \<and> t = s\<lparr>ws_db := ws_db t\<rparr>"
  by (cases s; cases t) (auto simp: on_db_def split: prod.splits)

lemma outcome_of_Ok: "outcome_of m s = (Ok x, t) \<longleftrightarrow> m s = (x, t)"
  by (auto simp: outcome_of_def split: prod.splits)

lemma supported_Ok:
  assumes "lease_next_supported_type su w jt s = (Ok y, t)"
  shows "lease_next_candidate (su_locked su) (wk_worker_id w) (wk_lease_for w) (Some jt) (wk_chain_id w) (ws_db s) = (Ok y, ws_db t)"
  using assms
  by (cases "wk_chain_id w")
     (auto simp: lease_next_supported_type_def seq_Ok_iff outcome_of_def on_db_Ok run_if_def meter_def
       lease_next_for_type_def lease_next_for_type_and_chain_def split: prod.splits if_splits)

text \<open>The row the worker runs, before and after it was leased.\<close>

definition taken :: "db \<Rightarrow> job_row \<Rightarrow> db \<Rightarrow> bool" where
  "taken d r t \<longleftrightarrow> (\<exists>q. r \<in> set (db_jobs t) \<and> queue_work t = queue_work d - job_work q + job_work r
     \<and> job_open q \<and> job_open r \<and> jr_attempts r = jr_attempts q + 1 \<and> jr_max_attempts r = jr_max_attempts q)"

lemma taken_view: "queue_view d' = queue_view d \<Longrightarrow> queue_view t' = queue_view t \<Longrightarrow> taken d' r t' = taken d r t"
  by (simp add: taken_def queue_work_def queue_view_def)

lemma lease_first_taken:
  "lease_first su w jts s = (Ok (Some r), t) \<Longrightarrow> queue_inv (ws_db s) \<Longrightarrow> taken (ws_db s) r (ws_db t) \<and> queue_inv (ws_db t)"
proof (induction jts arbitrary: s)
  case Nil
  then show ?case by simp
next
  case (Cons jt jts)
  from Cons.prems(1) obtain y u where y: "lease_next_supported_type su w jt s = (Ok y, u)"
    and rest: "(if y \<noteq> None then ret y else lease_first su w jts) u = (Ok (Some r), t)"
    by (auto simp: seq_Ok_iff)
  note lease = supported_Ok [OF y]
  have inv: "queue_inv (ws_db u)" by (rule queue_step_keeps [OF step_lease [OF lease] Cons.prems(2)])
  show ?case
  proof (cases y)
    case None
    with rest have "lease_first su w jts u = (Ok (Some r), t)" by simp
    from Cons.IH [OF this inv] lease_none [OF lease [unfolded None]] show ?thesis
      by (simp add: taken_def queue_work_def tables_eq_iff)
  next
    case (Some q)
    with rest have t: "q = r" "t = u" by simp_all
    obtain p where "replaces (ws_db s) p r (ws_db u)" "job_open p" "job_open r"
      "jr_attempts r = jr_attempts p + 1" "jr_max_attempts r = jr_max_attempts p"
      by (rule lease_replaces [OF lease [unfolded Some t(1)] Cons.prems(2)])
    then show ?thesis
      using replaces_work [OF Cons.prems(2)] replaces_member inv t(2) by (auto simp: taken_def)
  qed
qed

lemma queue_inv_calm: "qv.calm m \<Longrightarrow> m s = (r, t) \<Longrightarrow> queue_inv (ws_db s) \<Longrightarrow> queue_inv (ws_db t)"
  unfolding qv.calm_def using queue_inv_view by blast

lemma lease_and_mark_taken:
  assumes "lease_and_mark_running su w b s = (Ok (Some r), t)" and "queue_inv (ws_db s)"
  shows "taken (ws_db s) r (ws_db t) \<and> queue_inv (ws_db t)"
proof -
  from assms(1) obtain l u v where l: "lease_first su w (if b then [ReplayRange, IngestRange] else [IngestRange, ReplayRange]) s
      = (Ok (Some l), u)" and m: "mark_running (jr_id l) (ws_db u) = (Ok r, ws_db v)"
    and o: "observe_job_backlog w v = (Ok (), t)"
    by (auto simp: lease_and_mark_running_def seq_Ok_iff on_db_Ok split: if_splits option.splits)
  from lease_first_taken [OF l assms(2)] have taken: "taken (ws_db s) l (ws_db u)" and inv: "queue_inv (ws_db u)" by simp_all
  obtain q now where q: "jr_id q = jr_id l" "r = running_row now q" "replaces (ws_db u) q r (ws_db v)"
    by (rule mark_running_replaces [OF m inv])
  have "q = l"
    using job_by_id [OF inv _ _ q(1)] q(3) taken by (auto simp: replaces_def taken_def)
  with q taken have "taken (ws_db s) r (ws_db v)"
    using replaces_work [OF inv q(3)] replaces_member [OF q(3)]
    by (auto simp: taken_def job_work_def job_open_def running_row_def)
  moreover have "queue_view (ws_db t) = queue_view (ws_db v)" by (rule qv.calmD [OF backlog_calm(1) o])
  moreover have "queue_inv (ws_db v)" by (rule queue_step_keeps [OF step_running [OF m] inv])
  ultimately show ?thesis
    using taken_view [of "ws_db s" "ws_db s" "ws_db t" "ws_db v"] backlog_calm(1) o
    by (auto simp: qv.calm_def intro: queue_inv_view)
qed

lemma finish_uses_attempt:
  assumes "finish_running_job su r result s = (Ok ended, t)" and "queue_inv (ws_db s)" and "r \<in> set (db_jobs (ws_db s))"
  shows "(case ended of Processed _ _ \<Rightarrow> True | FailedJob _ _ _ \<Rightarrow> True | _ \<Rightarrow> False)
    \<and> (\<exists>r'. queue_work (ws_db t) = queue_work (ws_db s) - job_work r + job_work r'
        \<and> (\<not> job_open r' \<or> jr_attempts r' < jr_max_attempts r' \<and> jr_attempts r' = jr_attempts r
            \<and> jr_max_attempts r' = jr_max_attempts r))"
proof (cases result)
  case (Inr summary)
  with assms(1) obtain r' where m: "mark_succeeded (jr_id r) (ws_db s) = (Ok r', ws_db t)"
    and ended: "ended = Processed (jr_id r') summary"
    by (auto simp: finish_running_job_def seq_Ok_iff on_db_Ok)
  obtain q now where q: "jr_id q = jr_id r" "r' = succeeded_row now q" "replaces (ws_db s) q r' (ws_db t)"
    by (rule mark_succeeded_replaces [OF m assms(2)])
  have "q = r" using job_by_id [OF assms(2) _ assms(3) q(1)] q(3) by (simp add: replaces_def)
  then show ?thesis
    using replaces_work [OF assms(2) q(3)] ended q(2) by (auto simp: job_open_def succeeded_row_def)
next
  case (Inl e)
  with assms(1) obtain r' where m: "mark_failed (jr_id r) ''IngestJobError'' (su_error_chain su e) (ws_db s) = (Ok r', ws_db t)"
    and ended: "ended = FailedJob (jr_id r') (jr_status r') (su_error_chain su e)"
    by (auto simp: finish_running_job_def seq_Ok_iff on_db_Ok Let_def meter_def run_if_def split: if_splits)
  obtain q now where q: "jr_id q = jr_id r" "r' = failed_row (next_status q) ''IngestJobError'' (su_error_chain su e) now q"
      "replaces (ws_db s) q r' (ws_db t)"
    by (rule mark_failed_replaces [OF m assms(2)])
  have "q = r" using job_by_id [OF assms(2) _ assms(3) q(1)] q(3) by (simp add: replaces_def)
  then show ?thesis
    using replaces_work [OF assms(2) q(3)] ended q(2)
    by (auto simp: job_open_def failed_row_def next_status_def intro!: exI [of _ r'] split: if_splits)
qed

lemma run_once_progress:
  assumes "run_once su w s = (Ok ended, t)" and "queue_inv (ws_db s)" and "ended \<noteq> NoJob"
  shows "queue_work (ws_db t) < queue_work (ws_db s) \<and> queue_inv (ws_db t)
    \<and> (case ended of Processed _ _ \<Rightarrow> True | FailedJob _ _ _ \<Rightarrow> True | _ \<Rightarrow> False)"
proof -
  from assms(1,3) obtain s1 r s2 result s3 s4 s5 where
        o: "observe_job_backlog w s = (Ok (), s1)"
    and l: "lease_and_mark_running su w (ws_replay_first s1) s1 = (Ok (Some r), s2)"
    and x: "execute_job su w r s2 = (result, s3)"
    and f: "finish_running_job su r result s3 = (Ok ended, s4)"
    and p: "update_priority_after_outcome r ended s4 = (Ok (), s5)"
    and o': "observe_job_backlog w s5 = (Ok (), t)"
    by (auto simp: run_once_def seq_Ok_iff outcome_of_Ok split: option.splits)
  have s1: "queue_view (ws_db s1) = queue_view (ws_db s)" "queue_inv (ws_db s1)"
    using backlog_calm(1) o assms(2) by (auto simp: qv.calm_def intro: queue_inv_view)
  from lease_and_mark_taken [OF l s1(2)] have taken: "taken (ws_db s) r (ws_db s2)" and "queue_inv (ws_db s2)"
    using taken_view [OF s1(1) refl] by auto
  have s3: "queue_view (ws_db s3) = queue_view (ws_db s2)" "queue_inv (ws_db s3)"
    using qv_execute x \<open>queue_inv (ws_db s2)\<close> by (auto simp: qv.calm_def intro: queue_inv_view)
  with taken taken_view [of "ws_db s" "ws_db s" "ws_db s3" "ws_db s2"] have taken: "taken (ws_db s) r (ws_db s3)" by simp
  then have "r \<in> set (db_jobs (ws_db s3))" by (auto simp: taken_def)
  from finish_uses_attempt [OF f s3(2) this] obtain r' where
        ended: "case ended of Processed _ _ \<Rightarrow> True | FailedJob _ _ _ \<Rightarrow> True | _ \<Rightarrow> False"
    and work: "queue_work (ws_db s4) = queue_work (ws_db s3) - job_work r + job_work r'"
    and r': "\<not> job_open r' \<or> jr_attempts r' < jr_max_attempts r' \<and> jr_attempts r' = jr_attempts r
       \<and> jr_max_attempts r' = jr_max_attempts r"
    by blast
  from taken obtain q where q: "queue_work (ws_db s3) = queue_work (ws_db s) - job_work q + job_work r"
    "job_open q" "jr_attempts r = jr_attempts q + 1" "jr_max_attempts r = jr_max_attempts q"
    by (auto simp: taken_def)
  have "job_work r' < job_work q" using r' q(2-4) by (auto simp: job_work_def)
  moreover have "queue_work (ws_db t) = queue_work (ws_db s4)"
    by (rule queue_work_view) (use qv.calmD [OF backlog_calm(1) o'] priority_db [OF p] in simp)
  moreover have "queue_work (ws_db s3) - job_work r = queue_work (ws_db s) - job_work q" using q(1) by simp
  moreover have "queue_inv (ws_db t)"
  proof -
    have "queue_inv (ws_db s4)"
    proof (cases result)
      case (Inl e)
      with f s3(2) show ?thesis
        by (auto simp: finish_running_job_def seq_Ok_iff on_db_Ok Let_def meter_def run_if_def
            intro: queue_step_keeps [OF step_failed] split: if_splits)
    next
      case (Inr a)
      with f s3(2) show ?thesis
        by (auto simp: finish_running_job_def seq_Ok_iff on_db_Ok intro: queue_step_keeps [OF step_succeeded])
    qed
    then have "queue_inv (ws_db s5)" using priority_db [OF p] by simp
    then show ?thesis by (rule queue_inv_calm [OF backlog_calm(1) o'])
  qed
  ultimately show ?thesis using work ended by simp
qed

section \<open>The loop ends\<close>

lemma run_loop_ends:
  assumes "queue_inv (ws_db s)" and "\<And>n. max_jobs = Some n \<Longrightarrow> attempted_jobs v \<le> n"
  shows "\<exists>x t. run_loop su w max_jobs k v s = Some (x, t) \<and> (\<forall>u. x = Ok u \<longrightarrow>
     int (attempted_jobs u) \<le> int (attempted_jobs v) + queue_work (ws_db s)
     \<and> (\<forall>n. max_jobs = Some n \<longrightarrow> attempted_jobs u \<le> n)
     \<and> (stop_reason u = Idle \<or> stop_reason u = MaxJobsReached \<and> max_jobs = Some (attempted_jobs u)))"
  using assms
proof (induction "nat (queue_work (ws_db s))" arbitrary: s v k rule: less_induct)
  case less
  have att: "attempted_jobs (v\<lparr>stop_reason := r\<rparr>) = attempted_jobs v" for r by (simp add: attempted_jobs_def)
  show ?case
  proof (cases "case max_jobs of Some n \<Rightarrow> attempted_jobs v \<ge> n | None \<Rightarrow> False")
    case True
    then obtain n where "max_jobs = Some n" "attempted_jobs v = n"
      using less.prems(2) by (force split: option.splits)
    with True att queue_work_nonneg show ?thesis by (simp add: run_loop.simps [of _ _ _ _ v])
  next
    case False
    note loop = run_loop.simps [of su w max_jobs k v s] and more = False
    obtain y t where run: "run_once (su k) w s = (y, t)" by (cases "run_once (su k) w s")
    show ?thesis
    proof (cases y)
      case (Inl e)
      with loop run more show ?thesis by simp
    next
      case (Inr ended)
      note run = run [unfolded Inr]
      show ?thesis
      proof (cases "ended = NoJob")
        case True
        with loop run more att queue_work_nonneg [of "ws_db s"] less.prems(2) show ?thesis by simp
      next
        case job: False
        note one = run_once_progress [OF run less.prems(1) job]
        then have less: "nat (queue_work (ws_db t)) < nat (queue_work (ws_db s))"
          using queue_work_nonneg [of "ws_db t"] by simp
        have step: "\<exists>x t'. run_loop su w max_jobs (k + 1) v' t = Some (x, t') \<and> (\<forall>u. x = Ok u \<longrightarrow>
            int (attempted_jobs u) \<le> int (attempted_jobs v) + queue_work (ws_db s)
            \<and> (\<forall>n. max_jobs = Some n \<longrightarrow> attempted_jobs u \<le> n)
            \<and> (stop_reason u = Idle \<or> stop_reason u = MaxJobsReached \<and> max_jobs = Some (attempted_jobs u)))"
          if v': "attempted_jobs v' = attempted_jobs v + 1" for v'
        proof -
          have "attempted_jobs v' \<le> n" if "max_jobs = Some n" for n
            using v' more that by simp
          from less.hyps [OF less _ this, of "k + 1"] one obtain x t' where
                r: "run_loop su w max_jobs (k + 1) v' t = Some (x, t')"
            and x: "\<forall>u. x = Ok u \<longrightarrow> int (attempted_jobs u) \<le> int (attempted_jobs v') + queue_work (ws_db t)
              \<and> (\<forall>n. max_jobs = Some n \<longrightarrow> attempted_jobs u \<le> n)
              \<and> (stop_reason u = Idle \<or> stop_reason u = MaxJobsReached \<and> max_jobs = Some (attempted_jobs u))"
            by blast
          have "int (attempted_jobs v') + queue_work (ws_db t) \<le> int (attempted_jobs v) + queue_work (ws_db s)"
            using one v' by simp
          with r x show ?thesis by (intro exI [of _ x] exI [of _ t']) force
        qed
        show ?thesis
        proof (cases ended)
          case (Processed i x)
          with loop run more have "run_loop su w max_jobs k v s
              = run_loop su w max_jobs (k + 1) (v\<lparr>processed_jobs := processed_jobs v + 1\<rparr>) t" by simp
          then show ?thesis by (simp only:) (rule step, simp add: attempted_jobs_def)
        next
          case (FailedJob i st x)
          with loop run more have "run_loop su w max_jobs k v s
              = run_loop su w max_jobs (k + 1) (v\<lparr>failed_jobs := failed_jobs v + 1\<rparr>) t" by simp
          then show ?thesis by (simp only:) (rule step, simp add: attempted_jobs_def)
        qed (use job one in simp_all)
      qed
    qed
  qed
qed

text \<open>C12: The worker's loop ends on every queue that satisfies the invariant, with or without a maximum number of
  jobs and whatever the node answers in each round: every round uses up one of the attempts that the
  open jobs still have. It attempts at most that many jobs and at most the maximum, and stops
  because the queue is idle or because the maximum is reached exactly.\<close>

theorem run_until_idle_ends:
  assumes "queue_inv (ws_db s)"
  shows "\<exists>x t. run_until_idle su w max_jobs s = Some (x, t) \<and> (\<forall>v. x = Ok v \<longrightarrow>
     int (attempted_jobs v) \<le> queue_work (ws_db s)
     \<and> (\<forall>n. max_jobs = Some n \<longrightarrow> attempted_jobs v \<le> n)
     \<and> (stop_reason v = Idle \<or> stop_reason v = MaxJobsReached \<and> max_jobs = Some (attempted_jobs v)))"
  using run_loop_ends [OF assms, of max_jobs run_summary_default su w 0]
  by (simp add: run_until_idle_def attempted_jobs_def run_summary_default_def)

text \<open>C12 at the sample queue: at most three jobs are attempted.\<close>

theorem run_until_idle_ends_witness:
  "\<exists>x t. run_until_idle (\<lambda>_. mint_su) mint_worker None worker_start = Some (x, t) \<and> (\<forall>v. x = Ok v \<longrightarrow> attempted_jobs v \<le> 3)"
proof -
  have "queue_work (ws_db worker_start) = 3" by code_simp
  moreover have "queue_inv (ws_db worker_start)" using worker_start_inv by (simp add: worker_inv_def)
  ultimately show ?thesis
    using run_until_idle_ends [of worker_start "\<lambda>_. mint_su" mint_worker None] by fastforce
qed

section \<open>Only final targets are written\<close>

lemma seq_split:
  assumes "seq m f s = (x, t)"
  obtains (failed) e where "m s = (Inl e, t)" and "x = Inl e"
    | (went_on) a u where "m s = (Inr a, u)" and "f a u = (x, t)"
  using assms by (cases "m s"; cases "fst (m s)") (auto simp: seq_def)

text \<open>What a job must satisfy before it writes.\<close>

definition executable :: "surroundings \<Rightarrow> job_row \<Rightarrow> db \<Rightarrow> job_type \<Rightarrow> source_row \<Rightarrow> int \<Rightarrow> int \<Rightarrow> int \<Rightarrow> bool" where
  "executable su job d jt source lo hi observed \<longleftrightarrow>
     (jt = IngestRange \<or> jt = ReplayRange) \<and> jr_job_type job = job_type_as_str jt
     \<and> jr_from_block job = Some lo \<and> jr_to_block job = Some hi \<and> 0 \<le> lo \<and> 0 \<le> hi
     \<and> source \<in> set (db_sources d) \<and> jr_source_id job = Some (so_id source) \<and> so_chain_id source = jr_chain_id job
     \<and> (\<exists>chain \<in> set (db_chains d). \<exists>head. ch_chain_id chain = jr_chain_id job \<and> 0 \<le> ch_finality_confirmations chain
          \<and> rpc_block_number (su_rpc su) = Ok head
          \<and> observed = uint (u64_saturating_sub head (i64_as_u64 (ch_finality_confirmations chain))))
     \<and> hi \<le> observed
     \<and> validate_contract_code_at_boundaries (su_rpc su) (so_contract_address source) (i64_as_u64 lo) (i64_as_u64 hi) = Ok ()"

lemma observed_outcome:
  assumes "observed_finalized_block su chain s = (x, t)"
  shows "tables (ws_db t) = tables (ws_db s) \<and> (\<forall>observed. x = Ok observed \<longrightarrow>
    (\<exists>row \<in> set (db_chains (ws_db s)). \<exists>head. ch_chain_id row = chain \<and> 0 \<le> ch_finality_confirmations row
       \<and> rpc_block_number (su_rpc su) = Ok head
       \<and> observed = uint (u64_saturating_sub head (i64_as_u64 (ch_finality_confirmations row)))))"
  using assms unfolding observed_finalized_block_def
proof (cases rule: seq_split)
  case (failed e)
  then show ?thesis by (cases "pool_available (db_env (ws_db s))") (auto simp: on_db_Ok chain_by_chain_id_def)
next
  case (went_on c u)
  then have u: "ws_db u = ws_db s" "c = List.find (\<lambda>r. ch_chain_id r = chain) (db_chains (ws_db s))"
    by (cases "pool_available (db_env (ws_db s))"; auto simp: on_db_Ok chain_by_chain_id_def)+
  show ?thesis
  proof (cases c)
    case None
    with went_on(2) u(1) show ?thesis by auto
  next
    case (Some row)
    with u(2) find_Some_set [of "\<lambda>r. ch_chain_id r = chain"] have row: "row \<in> set (db_chains (ws_db s))" "ch_chain_id row = chain"
      by metis+
    from went_on(2) u(1) have "ws_db t = ws_db s \<and> (\<forall>observed. x = Ok observed \<longrightarrow> 0 \<le> ch_finality_confirmations row
        \<and> (\<exists>head. rpc_block_number (su_rpc su) = Ok head
             \<and> observed = uint (u64_saturating_sub head (i64_as_u64 (ch_finality_confirmations row)))))"
      unfolding Some
      by (cases "rpc_block_number (su_rpc su)")
         (auto simp: seq_def [of "meter _"] meter_def Let_def i64_try_from_u64_def split: if_splits)
    with row show ?thesis by auto
  qed
qed

lemma execute_job_cases:
  assumes "execute_job su w job s = (x, t)"
  obtains (refused) "\<not> is_ok x" and "tables (ws_db t) = tables (ws_db s)"
    | (ran) jt source lo hi observed u where "executable su job (ws_db s) jt source lo hi observed"
        and "tables (ws_db u) = tables (ws_db s)" and "execute_range su w jt source lo hi observed u = (x, t)"
proof (cases "\<exists>jt lo hi sid. job_type_from_str (jr_job_type job) = Ok jt \<and> (jt = IngestRange \<or> jt = ReplayRange)
    \<and> jr_source_id job = Some sid \<and> jr_from_block job = Some lo \<and> jr_to_block job = Some hi \<and> 0 \<le> lo \<and> 0 \<le> hi")
  case False
  with assms have "\<not> is_ok x \<and> t = s"
    by (cases "job_type_from_str (jr_job_type job)"; cases "jr_source_id job"; cases "jr_from_block job"; cases "jr_to_block job")
       (auto simp: execute_job_def split: if_splits)
  then show thesis by (intro refused) auto
next
  case True
  then obtain jt lo hi sid where job: "job_type_from_str (jr_job_type job) = Ok jt" "jt = IngestRange \<or> jt = ReplayRange"
    "jr_source_id job = Some sid" "jr_from_block job = Some lo" "jr_to_block job = Some hi" "\<not> (lo < 0 \<or> hi < 0)" by auto
  have jt: "jr_job_type job = job_type_as_str jt" using job(1) by (auto simp: job_type_from_str_def split: if_splits)
  have allowed: "(jt \<noteq> IngestRange \<and> jt \<noteq> ReplayRange) = False" using job(2) by auto
  define rest where "rest source = (if so_chain_id source \<noteq> jr_chain_id job
      then throw (ChainMismatch (jr_chain_id job) (so_chain_id source))
      else seq (observed_finalized_block su (so_chain_id source)) (\<lambda>observed.
           if hi > observed then throw (TargetNotFinal hi observed)
           else seq (lift (validate_contract_code_at_boundaries (su_rpc su) (so_contract_address source)
                   (i64_as_u64 lo) (i64_as_u64 hi))) (\<lambda>_. execute_range su w jt source lo hi observed)))" for source
  have run: "seq (on_db (source_by_id sid)) (\<lambda>source. seq (lift (ok_or SourceMissing source)) rest) s = (x, t)"
    using assms job by (simp add: execute_job_def rest_def [abs_def] allowed cong: if_cong)
  from run show thesis
  proof (cases rule: seq_split)
    case (failed e)
    then show thesis
      by (intro refused) (cases "pool_available (db_env (ws_db s))"; auto simp: on_db_Ok source_by_id_def)+
  next
    case (went_on found u)
    then have u: "ws_db u = ws_db s" "found = List.find (\<lambda>r. so_id r = sid) (db_sources (ws_db s))"
      by (cases "pool_available (db_env (ws_db s))"; auto simp: on_db_Ok source_by_id_def)+
    show thesis
    proof (cases found)
      case None
      with went_on(2) u(1) show thesis by (intro refused) auto
    next
      case (Some source)
      with u(2) find_Some_set [of "\<lambda>r. so_id r = sid"] have source: "source \<in> set (db_sources (ws_db s))" "so_id source = sid"
        by metis+
      from went_on(2) Some have rest': "rest source u = (x, t)" by simp
      show thesis
      proof (cases "so_chain_id source = jr_chain_id job")
        case False
        with rest' u(1) show thesis by (intro refused) (auto simp: rest_def)
      next
        case chain: True
        with rest' have "seq (observed_finalized_block su (so_chain_id source)) (\<lambda>observed.
           if hi > observed then throw (TargetNotFinal hi observed)
           else seq (lift (validate_contract_code_at_boundaries (su_rpc su) (so_contract_address source)
                   (i64_as_u64 lo) (i64_as_u64 hi))) (\<lambda>_. execute_range su w jt source lo hi observed)) u = (x, t)"
          by (simp add: rest_def)
        then show thesis
        proof (cases rule: seq_split)
          case (failed e)
          with observed_outcome [OF failed(1)] u(1) show thesis by (intro refused) auto
        next
          case (went_on observed v)
          from observed_outcome [OF went_on(1)] u(1) chain have obs: "tables (ws_db v) = tables (ws_db s)"
            "\<exists>row \<in> set (db_chains (ws_db s)). \<exists>head. ch_chain_id row = jr_chain_id job \<and> 0 \<le> ch_finality_confirmations row
               \<and> rpc_block_number (su_rpc su) = Ok head
               \<and> observed = uint (u64_saturating_sub head (i64_as_u64 (ch_finality_confirmations row)))"
            by auto
          show thesis
          proof (cases "hi \<le> observed \<and> is_ok (validate_contract_code_at_boundaries (su_rpc su) (so_contract_address source)
              (i64_as_u64 lo) (i64_as_u64 hi))")
            case False
            with went_on(2) have "\<not> is_ok x \<and> t = v"
              by (cases "validate_contract_code_at_boundaries (su_rpc su) (so_contract_address source) (i64_as_u64 lo) (i64_as_u64 hi)")
                 (auto split: if_splits)
            with obs(1) show thesis by (intro refused) auto
          next
            case True
            then have ok: "validate_contract_code_at_boundaries (su_rpc su) (so_contract_address source)
                (i64_as_u64 lo) (i64_as_u64 hi) = Ok ()"
              by (cases "validate_contract_code_at_boundaries (su_rpc su) (so_contract_address source) (i64_as_u64 lo) (i64_as_u64 hi)")
                 auto
            with True went_on(2) have "execute_range su w jt source lo hi observed v = (x, t)" by simp
            moreover have "executable su job (ws_db s) jt source lo hi observed"
              using jt job source chain obs(2) True ok by (simp add: executable_def)
            ultimately show thesis using obs(1) by (intro ran)
          qed
        qed
      qed
    qed
  qed
qed

text \<open>C16: A job only succeeds, and only changes a table, when it is an ingest or replay job of a stored source on its
  chain, its range is not negative, its last block is at most the head less the confirmations of the
  chain, and the contract has code at both ends of the range.\<close>

theorem execute_job_writes_final_only:
  assumes "execute_job su w job s = (x, t)" and "is_ok x \<or> tables (ws_db t) \<noteq> tables (ws_db s)"
  shows "\<exists>jt source lo hi observed. executable su job (ws_db s) jt source lo hi observed"
  using assms(1)
proof (cases rule: execute_job_cases)
  case refused
  with assms(2) show ?thesis by simp
next
  case (ran jt source lo hi observed u)
  then show ?thesis by blast
qed

definition executed :: "(app_error + scan_summary) \<times> worker_state" where
  "executed = execute_job mint_su mint_worker (hd (db_jobs (ws_db worker_start))) worker_start"

text \<open>C16 at the sample queue: its job is executable, with block 20 final.\<close>

theorem execute_job_writes_final_only_witness:
  "\<exists>jt source lo observed. executable mint_su (hd (db_jobs (ws_db worker_start))) (ws_db worker_start) jt source lo 20 observed"
proof -
  have "is_ok (fst executed)" by code_simp
  then have "execute_job mint_su mint_worker (hd (db_jobs (ws_db worker_start))) worker_start = (fst executed, snd executed)"
    and "is_ok (fst executed) \<or> tables (ws_db (snd executed)) \<noteq> tables (ws_db worker_start)"
    by (simp_all add: executed_def)
  from execute_job_writes_final_only [OF this] obtain jt source lo hi observed where
    e: "executable mint_su (hd (db_jobs (ws_db worker_start))) (ws_db worker_start) jt source lo hi observed" by blast
  have "jr_to_block (hd (db_jobs (ws_db worker_start))) = Some 20" by code_simp
  with e have "hi = 20" by (simp add: executable_def)
  with e show ?thesis by blast
qed

section \<open>Replay\<close>

definition orphaned_rows :: "source_row \<Rightarrow> int \<Rightarrow> int \<Rightarrow> ledger_row list \<Rightarrow> ledger_row list" where
  "orphaned_rows source lo hi = update_rows (live_entry_in (so_id source) lo hi) (\<lambda>r. r\<lparr>le_orphaned := True\<rparr>)"

text \<open>C15: A replay job that succeeds leaves the ledger in which the range has been orphaned and exactly the entries of the
  logs the node now has in the range have been booked with restoration; the balances follow, and no
  checkpoint moves.\<close>

theorem replay_job_books_range:
  assumes "ledger_inv (ws_db s)" and "execute_job su w job s = (Ok summary, t)"
    and "jr_job_type job = job_type_as_str ReplayRange"
  shows "\<exists>source lo hi observed logs bs. executable su job (ws_db s) ReplayRange source lo hi observed
    \<and> decoded_logs_of_range (su_crates su) (su_rpc su) (source_ref_of source) (i64_as_u64 lo) (i64_as_u64 hi) (wk_chunk_size w) None = Ok logs
    \<and> map (booking (su_crates su) (source_ref_of source)) (log_items logs) = map Some bs
    \<and> ledger_of (db_entries (ws_db t)) = fold (book True) bs (ledger_of (orphaned_rows source lo hi (db_entries (ws_db s))))
    \<and> balances_match (ws_db t) \<and> db_checkpoints (ws_db t) = db_checkpoints (ws_db s)"
  using assms(2)
proof (cases rule: execute_job_cases)
  case refused
  then show ?thesis by simp
next
  case (ran jt source lo hi observed u)
  from ran(1) assms(3) have jt: "jt = ReplayRange"
    using job_type_from_as_str [of jt] job_type_from_as_str [of ReplayRange] by (auto simp: executable_def)
  with ran(3) obtain summ d where o: "orphan_source_range source lo hi (ws_db u) = (Ok summ, d)"
    and i: "ingest_source_range (su_crates su) (su_rpc su) (postgres_ingest_repository (su_crates su)) (source_ref_of source)
       (i64_as_u64 lo) (i64_as_u64 hi) (wk_chunk_size w) \<lparr>include_transaction_receipts = wk_include_transaction_receipts w,
       io_restore_orphaned_conflicts = True, prefetched_logs = None\<rparr> d = (Ok summary, ws_db t)"
    by (auto simp: execute_range_def execute_ingest_def seq_Ok_iff on_db_Ok)
  have "ledger_inv (ws_db u)"
    by (rule ledger_inv_view [OF assms(1)]) (use ran(2) in \<open>simp add: ledger_view_def tables_eq_iff\<close>)
  note orphan = orphan_Ok [OF this o]
  from pg.ingest_outcome [OF orphan(1) i] obtain logs bs where
        inv: "ledger_inv (ws_db t)"
    and logs: "decoded_logs_of_range (su_crates su) (su_rpc su) (source_ref_of source) (i64_as_u64 lo) (i64_as_u64 hi) (wk_chunk_size w) None = Ok logs"
    and bs: "map (booking (su_crates su) (source_ref_of source)) (log_items logs) = map Some bs"
      "ledger_of (db_entries (ws_db t)) = fold (book True) bs (ledger_of (db_entries d))"
    by (auto simp: pg.ingested_def pg_bookings_def split: sum.splits)
  have "db_checkpoints (ws_db t) = db_checkpoints d"
    using bv.quietD [OF bv_ingest i] by (simp add: base_view_def)
  moreover have "db_checkpoints d = db_checkpoints (ws_db u)"
    using orphan(6) by (simp add: ledger_frame_def)
  ultimately have "db_checkpoints (ws_db t) = db_checkpoints (ws_db s)" using ran(2) by (simp add: tables_eq_iff)
  moreover have "db_entries d = orphaned_rows source lo hi (db_entries (ws_db s))"
    using orphan(2) ran(2) by (simp add: orphaned_rows_def tables_eq_iff)
  moreover have "balances_match (ws_db t)" using inv by (simp add: ledger_inv_def)
  ultimately show ?thesis using ran(1) jt logs bs by metis
qed

definition replay_row :: job_row where
  "replay_row = (hd (db_jobs (ws_db worker_start)))\<lparr>jr_job_type := job_type_as_str ReplayRange\<rparr>"

definition replayed :: "(app_error + scan_summary) \<times> worker_state" where
  "replayed = execute_job mint_su mint_worker replay_row (snd executed)"

lemma executed_run: "execute_job mint_su mint_worker (hd (db_jobs (ws_db worker_start))) worker_start = (fst executed, snd executed)"
  by (simp add: executed_def)

lemma executed_inv: "worker_inv (snd executed)"
  by (rule soundD [OF sound_execute worker_start_inv executed_run])

lemma replay_job_ok: "is_ok (fst replayed)"
  by code_simp

text \<open>C15 at the sample queue: replaying the ingested range leaves one live mint of 7 units.\<close>

theorem replay_job_books_range_witness:
  "balances_match (ws_db (snd replayed)) \<and> db_checkpoints (ws_db (snd replayed)) = []
     \<and> map (\<lambda>r. (le_amount r, le_orphaned r)) (db_entries (ws_db (snd replayed))) = [(7, False)]"
proof -
  obtain x where run: "execute_job mint_su mint_worker replay_row (snd executed) = (Ok x, snd replayed)"
    using is_ok_pair [OF replay_job_ok] by (auto simp: replayed_def)
  have "jr_job_type replay_row = job_type_as_str ReplayRange" by (simp add: replay_row_def)
  from replay_job_books_range [OF _ run this] executed_inv
  have "balances_match (ws_db (snd replayed))" "db_checkpoints (ws_db (snd replayed)) = db_checkpoints (ws_db (snd executed))"
    by (auto simp: worker_inv_def)
  moreover have "db_checkpoints (ws_db (snd executed)) = []" by code_simp
  moreover have "map (\<lambda>r. (le_amount r, le_orphaned r)) (db_entries (ws_db (snd replayed))) = [(7, False)]" by code_simp
  ultimately show ?thesis by simp
qed

text \<open>C23: Replay is not one transaction: when the node fails or a log does not decode after the range has been orphaned,
  the job fails with the range orphaned and its movements taken out of the balances, until a later
  attempt succeeds.\<close>

theorem replay_failure_leaves_range_orphaned:
  assumes "ledger_inv (ws_db s)" and "orphan_source_range source lo hi (ws_db s) = (Ok summ, d)"
    and "decoded_logs_of_range (su_crates su) (su_rpc su) (source_ref_of source) (i64_as_u64 lo) (i64_as_u64 hi) (wk_chunk_size w) None = Err e"
  shows "execute_range su w ReplayRange source lo hi observed s = (Err e, s\<lparr>ws_db := d\<rparr>)
    \<and> (\<forall>r \<in> set (db_entries d). \<not> live_entry_in (so_id source) lo hi r) \<and> balances_match d"
proof -
  note orphan = orphan_Ok [OF assms(1,2)]
  have "on_db (orphan_source_range source lo hi) s = (Ok summ, s\<lparr>ws_db := d\<rparr>)"
    using assms(2) by (simp add: on_db_def)
  moreover have "execute_ingest su w source lo hi True (s\<lparr>ws_db := d\<rparr>) = (Err e, s\<lparr>ws_db := d\<rparr>)"
    using assms(3) by (simp add: execute_ingest_def on_db_def ingest_source_range_def)
  ultimately have "execute_range su w ReplayRange source lo hi observed s = (Err e, s\<lparr>ws_db := d\<rparr>)"
    by (simp add: execute_range_def seq_def)
  moreover have "\<forall>r \<in> set (db_entries d). \<not> live_entry_in (so_id source) lo hi r"
    unfolding orphan(2) by (auto simp: in_update_rows live_entry_in_def)
  moreover have "balances_match d" using orphan(1) by (simp add: ledger_inv_def)
  ultimately show ?thesis by blast
qed

definition silent_su :: surroundings where
  "silent_su = mint_su\<lparr>su_rpc := mint_rpc\<lparr>rpc_logs := (\<lambda>_ _ _ _. Err (RpcFailure ''timeout''))\<rparr>\<rparr>"

text \<open>C23 at two mints of which the range holds the second, with a node that answers no query for logs.\<close>

theorem replay_failure_leaves_range_orphaned_witness:
  "fst (execute_range silent_su mint_worker ReplayRange sample_source_row 11 20 20
      \<lparr>ws_db = mints_db, ws_metrics = metrics_new, ws_replay_first = True\<rparr>) = Err (RpcFailure ''timeout'')
   \<and> balances_match (snd (orphan_source_range sample_source_row 11 20 mints_db))"
proof -
  let ?s = "\<lparr>ws_db = mints_db, ws_metrics = metrics_new, ws_replay_first = True\<rparr>"
  have inv: "ledger_inv (ws_db ?s)" using ledger_reachable_inv [OF mints_db_reachable] by simp
  have "is_ok (fst (orphan_source_range sample_source_row 11 20 mints_db))" by code_simp
  then obtain summ where orphan: "orphan_source_range sample_source_row 11 20 (ws_db ?s)
      = (Ok summ, snd (orphan_source_range sample_source_row 11 20 mints_db))"
    using is_ok_pair by fastforce
  have "decoded_logs_of_range (su_crates silent_su) (su_rpc silent_su) (source_ref_of sample_source_row)
      (i64_as_u64 11) (i64_as_u64 20) (wk_chunk_size mint_worker) None = Err (RpcFailure ''timeout'')"
    by code_simp
  from replay_failure_leaves_range_orphaned [OF inv orphan this, of 20] show ?thesis by simp
qed

end
