(* ===== verification/Checkpoint_Cover.thy ===== *)
theory Checkpoint_Cover
  imports Worker_Spec
begin

text \<open>
  What a checkpoint stands for: while workers execute jobs and jobs are enqueued, every block from the start of a
  source to its processed block lies in the range of an ingest job that has succeeded.
\<close>

section \<open>Covered blocks\<close>

definition covers :: "job_row \<Rightarrow> uuid \<Rightarrow> int \<Rightarrow> bool" where
  "covers r sid b \<longleftrightarrow> jr_source_id r = Some sid \<and> jr_job_type r = ''INGEST_RANGE''
     \<and> (\<exists>f t. jr_from_block r = Some f \<and> jr_to_block r = Some t \<and> f \<le> b \<and> b \<le> t)"

definition succeeded_jobs :: "db \<Rightarrow> job_row set" where
  "succeeded_jobs d = {r \<in> set (db_jobs d). jr_status r = ''succeeded''}"

definition covered_by :: "job_row set \<Rightarrow> db \<Rightarrow> bool" where
  "covered_by rs d \<longleftrightarrow> unique_key so_id (db_sources d) \<and> (\<forall>source \<in> set (db_sources d). 0 \<le> so_start_block source)
     \<and> checkpoints_inv d
     \<and> (\<forall>ck \<in> set (db_checkpoints d). \<forall>source \<in> set (db_sources d). so_id source = ck_source_id ck \<longrightarrow>
          (\<forall>b. so_start_block source \<le> b \<longrightarrow> b \<le> ck_processed_block ck \<longrightarrow> (\<exists>r \<in> rs. covers r (so_id source) b)))"

definition checkpoints_covered :: "db \<Rightarrow> bool" where
  "checkpoints_covered d \<longleftrightarrow> covered_by (succeeded_jobs d) d"

definition catalog_view :: "db \<Rightarrow> source_row list \<times> checkpoint_row list" where
  "catalog_view d = (db_sources d, db_checkpoints d)"

interpretation cv: view catalog_view
  by unfold_locales (simp_all add: catalog_view_def rollback_def)

lemma covered_by_view:
  "covered_by rs d \<Longrightarrow> catalog_view t = catalog_view d \<Longrightarrow> covered_by rs t"
  by (simp add: covered_by_def catalog_view_def checkpoints_inv_def)

lemma covered_by_mono:
  assumes "covered_by rs d" and "\<And>r sid b. r \<in> rs \<Longrightarrow> covers r sid b \<Longrightarrow> \<exists>q \<in> qs. covers q sid b"
  shows "covered_by qs d"
  using assms unfolding covered_by_def by meson

lemma quiet_catalog: "bv.quiet m \<Longrightarrow> cv.quiet m"
  by (simp add: bv.quiet_def cv.quiet_def base_view_def catalog_view_def)

lemma finished_covers: "finished d sid None b \<longleftrightarrow> (\<exists>r \<in> succeeded_jobs d. covers r sid b)"
  by (auto simp: finished_def succeeded_jobs_def covers_def)

section \<open>The queue\<close>

lemma cv_tables: "cv.quiet (update_job i f)" "cv.quiet (get_job_for_update i)"
  by (auto simp: cv.quiet_def update_job_def get_job_for_update_def catalog_view_def split: if_splits option.splits)

lemma cv_attempts:
  "cv.quiet (update_attempt_status i n st cls msg)" "cv.quiet (insert_attempt job n w)"
  unfolding update_attempt_status_def insert_attempt_def Let_def
  by (intro cv.quiet_intros cv.quiet_writes; simp add: catalog_view_def)+

lemma cv_queue:
  "cv.quiet (lease_next_candidate locked w l jt ch)" "cv.quiet (mark_running i)" "cv.quiet (mark_succeeded i)"
  "cv.quiet (mark_failed i cls msg)"
  unfolding lease_next_candidate_def lock_next_candidate_def cancel_expired_attempt_def mark_running_def
    mark_succeeded_def mark_failed_def Let_def
  by (intro cv.quiet_intros cv_tables cv_attempts)+

lemma cv_reads: "cv.quiet (status_counts a b t)"
  unfolding status_counts_def by (intro cv.quiet_intros)

lemma replaces_succeeded:
  assumes "replaces d q r t" and "queue_inv d" and "jr_status q \<noteq> ''succeeded''"
  shows "succeeded_jobs t = succeeded_jobs d \<union> (if jr_status r = ''succeeded'' then {r} else {})"
proof -
  have "p = q" if "p \<in> set (db_jobs d)" "jr_id p = jr_id q" for p
    using job_by_id [OF assms(2) that(1) _ that(2)] assms(1) by (simp add: replaces_def)
  with assms(1,3) show ?thesis
    by (auto simp: succeeded_jobs_def replaces_def in_update_rows)
qed

lemma covered_tables: "checkpoints_covered d \<Longrightarrow> tables t = tables d \<Longrightarrow> checkpoints_covered t"
  by (simp add: checkpoints_covered_def covered_by_def succeeded_jobs_def checkpoints_inv_def tables_eq_iff)

lemma covered_replaces:
  assumes "checkpoints_covered d" and "replaces d q r t" and "queue_inv d" and "jr_status q \<noteq> ''succeeded''"
    and "catalog_view t = catalog_view d"
  shows "checkpoints_covered t"
proof -
  have "succeeded_jobs d \<subseteq> succeeded_jobs t" using replaces_succeeded [OF assms(2-4)] by auto
  with assms(1) show ?thesis
    unfolding checkpoints_covered_def by (intro covered_by_view [OF _ assms(5)]) (rule covered_by_mono, auto)
qed

lemma covered_queue_view:
  "checkpoints_covered d \<Longrightarrow> queue_view t = queue_view d \<Longrightarrow> catalog_view t = catalog_view d \<Longrightarrow> checkpoints_covered t"
  unfolding checkpoints_covered_def
  using covered_by_view by (simp add: succeeded_jobs_def queue_view_def)


section \<open>Leasing\<close>

text \<open>The invariant of a round, with a bound on the jobs that have succeeded.\<close>

definition covering :: "job_row set \<Rightarrow> db \<Rightarrow> bool" where
  "covering js d \<longleftrightarrow> queue_inv d \<and> checkpoints_covered d \<and> succeeded_jobs d \<subseteq> js"

lemma covering_calm:
  assumes "qv.calm m" and "cv.calm m" and "m s = (r, t)" and "covering js (ws_db s)"
  shows "covering js (ws_db t)"
  using assms(4) queue_inv_calm [OF assms(1,3)] covered_queue_view qv.calmD [OF assms(1,3)] cv.calmD [OF assms(2,3)]
  by (auto simp: covering_def succeeded_jobs_def queue_view_def)

lemmas backlog_covering = covering_calm [OF backlog_calm(1) cv.calm_backlog [OF cv_reads]]

lemma lease_covering:
  assumes "lease_next_candidate locked wid l jt ch d = (x, t)" and "covering js d"
  shows "covering js t \<and> (\<forall>r. x = Ok (Some r) \<longrightarrow> r \<in> set (db_jobs t) \<and> jr_status r \<noteq> ''succeeded'')"
proof -
  have inv: "queue_inv d" "checkpoints_covered d" "succeeded_jobs d \<subseteq> js" using assms(2) by (simp_all add: covering_def)
  have t: "queue_inv t" by (rule queue_step_keeps [OF step_lease [OF assms(1)] inv(1)])
  show ?thesis
  proof (cases "\<exists>r. x = Ok (Some r)")
    case True
    then obtain r where x: "x = Ok (Some r)" by blast
    obtain q where q: "replaces d q r t" "job_open q" "job_open r"
      by (rule lease_replaces [OF assms(1) [unfolded x] inv(1)])
    then have "jr_status q \<noteq> ''succeeded''" "jr_status r \<noteq> ''succeeded''" by (auto simp: job_open_def)
    with covered_replaces [OF inv(2) q(1) inv(1)] cv.quietD [OF cv_queue(1) assms(1)] replaces_member [OF q(1)]
      replaces_succeeded [OF q(1) inv(1)] inv(3) t x
    show ?thesis by (simp add: covering_def)
  next
    case False
    have "tables t = tables d"
    proof (cases x)
      case (Inl e)
      with assms(1) show ?thesis by (auto simp: lease_next_candidate_def dest: failed_tables)
    next
      case (Inr a)
      with False have "a = None" by (cases a) auto
      with lease_none assms(1) Inr show ?thesis by blast
    qed
    then have "succeeded_jobs t = succeeded_jobs d" "checkpoints_covered t"
      using covered_tables [OF inv(2)] by (simp_all add: succeeded_jobs_def tables_eq_iff)
    with inv(3) t False show ?thesis by (simp add: covering_def)
  qed
qed

lemma lease_supported_covering:
  assumes "lease_next_supported_type su w jt s = (x, t)" and "covering js (ws_db s)"
  shows "covering js (ws_db t) \<and> (\<forall>r. x = Ok (Some r) \<longrightarrow> r \<in> set (db_jobs (ws_db t)) \<and> jr_status r \<noteq> ''succeeded'')"
proof -
  obtain y d where l: "lease_next_candidate (su_locked su) (wk_worker_id w) (wk_lease_for w) (Some jt) (wk_chain_id w) (ws_db s) = (y, d)"
    by fastforce
  with assms(1) have "x = y \<and> ws_db t = d"
    by (cases "wk_chain_id w"; cases y)
       (auto simp: lease_next_supported_type_def outcome_of_def on_db_def run_if_def meter_def
         lease_next_for_type_def lease_next_for_type_and_chain_def seq_def ret_def writes_def lift_def split: if_splits)
  with lease_covering [OF l assms(2)] show ?thesis by blast
qed

lemma lease_first_covering:
  "lease_first su w jts s = (x, t) \<Longrightarrow> covering js (ws_db s) \<Longrightarrow> covering js (ws_db t)
     \<and> (\<forall>r. x = Ok (Some r) \<longrightarrow> r \<in> set (db_jobs (ws_db t)) \<and> jr_status r \<noteq> ''succeeded'')"
proof (induction jts arbitrary: s)
  case (Cons jt jts)
  obtain y u where y: "lease_next_supported_type su w jt s = (y, u)" by fastforce
  note one = lease_supported_covering [OF y Cons.prems(2)]
  show ?case
  proof (cases "y = Ok None")
    case True
    with y Cons.prems(1) have "lease_first su w jts u = (x, t)" by (simp add: seq_def)
    with Cons.IH one show ?thesis by blast
  next
    case False
    with y Cons.prems(1) have "x = y \<and> t = u" by (cases y) (auto simp: seq_def split: if_splits)
    with one show ?thesis by blast
  qed
qed simp

lemma mark_running_covering:
  assumes "mark_running (jr_id l) d = (x, t)" and "covering js d" and "l \<in> set (db_jobs d)" and "jr_status l \<noteq> ''succeeded''"
  shows "covering js t \<and> (\<forall>r. x = Ok r \<longrightarrow> r \<in> set (db_jobs t) \<and> jr_status r = ''running'')"
proof -
  have inv: "queue_inv d" "checkpoints_covered d" "succeeded_jobs d \<subseteq> js" using assms(2) by (simp_all add: covering_def)
  have t: "queue_inv t" by (rule queue_step_keeps [OF step_running [OF assms(1)] inv(1)])
  show ?thesis
  proof (cases x)
    case (Inl e)
    with assms(1) have "tables t = tables d" by (auto simp: mark_running_eq dest: failed_tables)
    then have "succeeded_jobs t = succeeded_jobs d" "checkpoints_covered t"
      using covered_tables [OF inv(2)] by (simp_all add: succeeded_jobs_def tables_eq_iff)
    with inv(3) t Inl show ?thesis by (simp add: covering_def)
  next
    case (Inr r)
    obtain q now where q: "jr_id q = jr_id l" "r = running_row now q" "replaces d q r t"
      by (rule mark_running_replaces [OF assms(1) [unfolded Inr] inv(1)])
    have "q = l" using job_by_id [OF inv(1) _ assms(3) q(1)] q(3) by (simp add: replaces_def)
    with covered_replaces [OF inv(2) q(3) inv(1)] replaces_succeeded [OF q(3) inv(1)] assms(4) inv(3) cv.quietD [OF cv_queue(2) assms(1)]
      replaces_member [OF q(3)] t Inr
    show ?thesis by (simp add: covering_def q(2) running_row_def)
  qed
qed

lemma lease_and_mark_covering:
  assumes "lease_and_mark_running su w b s = (x, t)" and "covering js (ws_db s)"
  shows "covering js (ws_db t) \<and> (\<forall>r. x = Ok (Some r) \<longrightarrow> r \<in> set (db_jobs (ws_db t)) \<and> jr_status r = ''running'')"
proof (cases "wk_chunk_size w = 0")
  case True
  with assms show ?thesis by (auto simp: lease_and_mark_running_def)
next
  case False
  let ?types = "if b then [ReplayRange, IngestRange] else [IngestRange, ReplayRange]"
  obtain y u where l: "lease_first su w ?types s = (y, u)" by fastforce
  note first = lease_first_covering [OF l assms(2)]
  show ?thesis
  proof (cases "\<exists>j. y = Ok (Some j)")
    case False
    with assms(1) l \<open>wk_chunk_size w \<noteq> 0\<close> have "t = u \<and> (\<forall>r. x \<noteq> Ok (Some r))"
      by (cases y) (auto simp: lease_and_mark_running_def seq_def split: option.splits)
    with first show ?thesis by blast
  next
    case True
    then obtain j where j: "y = Ok (Some j)" by blast
    obtain z d where m: "mark_running (jr_id j) (ws_db u) = (z, d)" by fastforce
    have marked: "covering js d \<and> (\<forall>r. z = Ok r \<longrightarrow> r \<in> set (db_jobs d) \<and> jr_status r = ''running'')"
      by (rule mark_running_covering [OF m]) (use first j in blast)+
    obtain z' v where o: "observe_job_backlog w (u\<lparr>ws_db := d\<rparr>) = (z', v)" by fastforce
    have v: "covering js (ws_db v)" "db_jobs (ws_db v) = db_jobs d"
      using backlog_covering [OF o] qv.calmD [OF backlog_calm(1) o] marked by (simp_all add: queue_view_def)
    from assms(1) l j m o \<open>wk_chunk_size w \<noteq> 0\<close>
    have "ws_db t = d \<and> (\<forall>r. x \<noteq> Ok (Some r)) \<or> t = v \<and> (\<forall>r. x = Ok (Some r) \<longrightarrow> z = Ok r)"
      by (cases z; cases z') (auto simp: lease_and_mark_running_def seq_def on_db_def)
    with v marked show ?thesis by auto
  qed
qed


section \<open>Executing a job\<close>

text \<open>The target lies above the frontier, and every block between the two is in a finished range.\<close>

lemma extend_target_covered:
  "0 \<le> target + 1 \<Longrightarrow> target < b \<Longrightarrow> b \<le> extend_target target ranges \<Longrightarrow> covered ranges b"
proof (induction target ranges rule: extend_target.induct)
  case (2 target f t ranges)
  have succ: "i64_saturating_add target 1 \<le> target + 1"
    using "2.prems"(1) by (simp add: i64_saturating_add_def i64_saturate_def int_range_defs)
  show ?case
  proof (cases "f \<le> i64_saturating_add target 1 \<and> t > target")
    case True
    with succ "2.IH"(1) [OF True] "2.prems" show ?thesis by (cases "b \<le> t") auto
  next
    case False
    then have "extend_target target ((f, t) # ranges) = extend_target target ranges" by auto
    with "2.IH"(2) [OF False] "2.prems" show ?thesis by simp
  qed
qed simp

lemma target_covered:
  assumes "next_contiguous_checkpoint_target source (Some (lo, hi)) d = (Ok (Some b), t)" and "0 \<le> frontier_of d source + 1"
  shows "frontier_of d source < b
    \<and> (\<forall>k. frontier_of d source < k \<longrightarrow> k \<le> b \<longrightarrow> finished d (so_id source) (Some (lo, hi)) k)"
proof -
  let ?F = "frontier_of d source"
  let ?rs = "sort_by range_le (succeeded_ranges (so_id source) ?F (db_jobs d) @ [(lo, hi)])"
  from assms(1) have b: "b = extend_target ?F ?rs" "?F < b"
    by (auto simp: next_contiguous_checkpoint_target_def frontier_of_def Let_def seq_Ok_iff split: option.splits if_splits)
  have "finished d (so_id source) (Some (lo, hi)) k" if "?F < k" "k \<le> b" for k
  proof -
    have "covered ?rs k" by (rule extend_target_covered [OF assms(2) that(1)]) (use that(2) b(1) in simp)
    then obtain f u where "(f, u) \<in> set ?rs" "f \<le> k" "k \<le> u" by (auto simp: covered_def)
    then show ?thesis by (auto simp: finished_def succeeded_ranges_iff)
  qed
  with b(2) show ?thesis by blast
qed

lemma frontier_next:
  assumes "covered_by rs d" and "source \<in> set (db_sources d)"
  shows "0 \<le> frontier_of d source + 1"
proof (cases "List.find (\<lambda>r. ck_source_id r = so_id source) (db_checkpoints d)")
  case None
  with assms show ?thesis by (auto simp: frontier_of_def covered_by_def)
next
  case (Some ck)
  with find_Some_set [OF Some] assms show ?thesis
    by (auto simp: frontier_of_def covered_by_def checkpoints_inv_def checkpoint_check_def)
qed

text \<open>Moving a checkpoint over covered blocks keeps all checkpoints covered.\<close>

lemma advance_covered:
  assumes "advance_checkpoint (so_id source) b hash observed d = (x, t)" and "covered_by rs d" and source: "source \<in> set (db_sources d)"
    and blocks: "\<And>k. frontier_of d source < k \<Longrightarrow> k \<le> b \<Longrightarrow> \<exists>r \<in> rs. covers r (so_id source) k"
  shows "covered_by rs t"
proof -
  from assms(2) have c: "checkpoints_inv d" "unique_key so_id (db_sources d)"
    and cov: "\<And>ck s' k. ck \<in> set (db_checkpoints d) \<Longrightarrow> s' \<in> set (db_sources d) \<Longrightarrow> so_id s' = ck_source_id ck \<Longrightarrow>
      so_start_block s' \<le> k \<Longrightarrow> k \<le> ck_processed_block ck \<Longrightarrow> \<exists>r \<in> rs. covers r (so_id s') k"
    by (auto simp: covered_by_def)
  have same: "s' = source" if "s' \<in> set (db_sources d)" "so_id s' = so_id source" for s'
    using c(2) that source by (auto intro: unique_key_eq)
  show ?thesis
  proof (cases x)
    case (Inl e)
    with assms(1) have "tables t = tables d" by (auto simp: advance_checkpoint_def dest: failed_tables split: if_splits)
    then show ?thesis by (intro covered_by_view [OF assms(2)]) (simp add: catalog_view_def tables_eq_iff)
  next
    case (Inr r)
    then have "advance_checkpoint (so_id source) b hash observed d = (Ok r, t)" using assms(1) by simp
    then show ?thesis
    proof (cases rule: advance_cases)
      case (inserted i now e)
      then have "frontier_of d source = so_start_block source - 1" "so_id source \<notin> ck_source_id ` set (db_checkpoints d)"
        using inserted(1) by (simp_all add: frontier_of_def find_source_None [symmetric])
      then have new: "\<exists>r \<in> rs. covers r (so_id source) k"
        if "s' \<in> set (db_sources d)" "so_id s' = so_id source" "so_start_block s' \<le> k" "k \<le> b" for s' k
        using same [OF that(1,2)] that(3,4) blocks [of k] by simp
      with inserted(2-5) assms(2) \<open>so_id source \<notin> ck_source_id ` set (db_checkpoints d)\<close> show ?thesis
        by (auto simp: covered_by_def checkpoints_inv_def)
    next
      case kept
      with assms(2) show ?thesis by simp
    next
      case (advanced old now e)
      from find_Some_set [OF advanced(1)] have old: "old \<in> set (db_checkpoints d)" and s: "ck_source_id old = so_id source" by auto
      have f: "frontier_of d source = ck_processed_block old" using advanced(1) by (simp add: frontier_of_def)
      have inv: "checkpoints_inv t"
        by (rule update_checkpoint_inv [OF c(1) old]) (use advanced in auto)
      have "\<exists>r \<in> rs. covers r (so_id s') k"
        if ck: "ck \<in> set (db_checkpoints t)" and s': "s' \<in> set (db_sources d)" "so_id s' = ck_source_id ck"
          and k: "so_start_block s' \<le> k" "k \<le> ck_processed_block ck" for ck s' k
      proof -
        from ck obtain q where q: "q \<in> set (db_checkpoints d)" and
          ck': "ck_source_id ck = ck_source_id q" "ck_id q = ck_id old \<and> ck_processed_block ck = max (ck_processed_block old) b \<or> ck = q"
          by (auto simp: advanced(4) in_update_rows split: if_splits)
        show ?thesis
        proof (cases "k \<le> ck_processed_block q")
          case True
          with cov [OF q s'(1)] s'(2) ck'(1) k(1) show ?thesis by simp
        next
          case False
          have "q = old" if "ck_id q = ck_id old" using c(1) q old that by (auto simp: checkpoints_inv_def intro: unique_key_eq)
          with False ck'(2) k(2) have "k \<le> b" "q = old" by auto
          then have "s' = source" "frontier_of d source < k" "k \<le> b"
            using same s' s ck'(1) f False by auto
          with blocks show ?thesis by simp
        qed
      qed
      with inv assms(2) advanced(4) show ?thesis by (simp add: covered_by_def)
    qed
  qed
qed


lemma cv_checkpoint_target: "cv.quiet (next_contiguous_checkpoint_target source completed)"
  unfolding next_contiguous_checkpoint_target_def Let_def by (intro cv.quiet_intros)

text \<open>After a job ran its checkpoint is covered by the succeeded jobs and the job itself; after one that failed, by the succeeded jobs.\<close>

lemma advance_after_covered:
  assumes "advance_after su source lo hi observed s = (x, t)" and cov: "covered_by (succeeded_jobs (ws_db s)) (ws_db s)"
    and source: "source \<in> set (db_sources (ws_db s))"
    and job: "jr_job_type job = ''INGEST_RANGE''" "jr_source_id job = Some (so_id source)" "jr_from_block job = Some lo"
      "jr_to_block job = Some hi"
  shows "covered_by (insert job (succeeded_jobs (ws_db s))) (ws_db t)
    \<and> (\<not> is_ok x \<longrightarrow> covered_by (succeeded_jobs (ws_db s)) (ws_db t))"
proof -
  let ?rs = "succeeded_jobs (ws_db s)"
  have more: "covered_by (insert job ?rs) d" if "covered_by ?rs d" for d
    using that by (rule covered_by_mono) auto
  obtain y d where n: "next_contiguous_checkpoint_target source (Some (lo, hi)) (ws_db s) = (y, d)" by fastforce
  have d: "covered_by ?rs d" by (rule covered_by_view [OF cov cv.quietD [OF cv_checkpoint_target n]])
  show ?thesis
  proof (cases "\<exists>b. y = Ok (Some b)")
    case False
    with assms(1) n have "ws_db t = d" by (cases y) (auto simp: advance_after_def seq_def on_db_def split: option.splits)
    with d more show ?thesis by simp
  next
    case True
    then obtain b where y: "y = Ok (Some b)" by blast
    note target = target_covered [OF n [unfolded y] frontier_next [OF cov source]]
    have same: "d = ws_db s"
      using n y by (auto simp: next_contiguous_checkpoint_target_def Let_def seq_Ok_iff split: if_splits)
    have blocks: "\<exists>r \<in> insert job ?rs. covers r (so_id source) k" if "frontier_of d source < k" "k \<le> b" for k
    proof -
      from target that same have "finished (ws_db s) (so_id source) None k \<or> lo \<le> k \<and> k \<le> hi"
        by (auto simp: finished_def)
      then show ?thesis using finished_covers job by (auto simp: covers_def)
    qed
    show ?thesis
    proof (cases "b > observed \<or> \<not> is_ok (rpc_block_hash (su_rpc su) (i64_as_u64 b))")
      case True
      with assms(1) n y have "ws_db t = d"
        by (cases "rpc_block_hash (su_rpc su) (i64_as_u64 b)") (auto simp: advance_after_def seq_def on_db_def lift_def ret_def split: if_splits)
      with d more show ?thesis by simp
    next
      case False
      then obtain hash where hash: "rpc_block_hash (su_rpc su) (i64_as_u64 b) = Ok hash"
        by (cases "rpc_block_hash (su_rpc su) (i64_as_u64 b)") auto
      obtain z u where a: "advance_checkpoint (so_id source) b hash observed d = (z, u)" by fastforce
      have u: "covered_by (insert job ?rs) u"
        by (rule advance_covered [OF a more [OF d]]) (use source same blocks in auto)
      have "covered_by ?rs u" if "\<not> is_ok z"
      proof -
        from that a have "tables u = tables d"
          by (cases z) (auto simp: advance_checkpoint_def dest: failed_tables split: if_splits)
        then show ?thesis by (intro covered_by_view [OF d]) (simp add: catalog_view_def tables_eq_iff)
      qed
      moreover from assms(1) n y hash a False have "ws_db t = u \<and> is_ok x = is_ok z"
        by (cases z) (auto simp: advance_after_def seq_def on_db_def lift_def meter_def writes_def split: if_splits)
      ultimately show ?thesis using u by simp
    qed
  qed
qed

lemma cv_execute_ingest: "cv.calm (execute_ingest su w source lo hi b)"
  unfolding execute_ingest_def by (rule cv.calm_on_db [OF quiet_catalog [OF bv_ingest]])

lemma qv_execute_ingest: "qv.calm (execute_ingest su w source lo hi b)"
  unfolding execute_ingest_def by (rule qv.calm_on_db [OF qv_ingest])

lemma execute_covered:
  assumes "execute_job su w job s = (x, t)" and "checkpoints_covered (ws_db s)"
  shows "covered_by (insert job (succeeded_jobs (ws_db t))) (ws_db t) \<and> (\<not> is_ok x \<longrightarrow> checkpoints_covered (ws_db t))"
proof -
  have done_same: "succeeded_jobs (ws_db t) = succeeded_jobs (ws_db s)"
    using qv.calmD [OF qv_execute assms(1)] by (simp add: succeeded_jobs_def queue_view_def)
  have more: "covered_by (insert job rs) d" if "covered_by rs d" for rs d
    using that by (rule covered_by_mono) auto
  from assms(1) show ?thesis
  proof (cases rule: execute_job_cases)
    case refused
    with covered_tables [OF assms(2)] have "checkpoints_covered (ws_db t)" by simp
    with more show ?thesis by (simp add: checkpoints_covered_def)
  next
    case (ran jt source lo hi observed u)
    have u: "covered_by (succeeded_jobs (ws_db u)) (ws_db u)" "succeeded_jobs (ws_db u) = succeeded_jobs (ws_db s)"
      "source \<in> set (db_sources (ws_db u))"
      using covered_tables [OF assms(2) ran(2)] ran(1,2)
      by (auto simp: checkpoints_covered_def succeeded_jobs_def tables_eq_iff executable_def)
    show ?thesis
    proof (cases "jt = ReplayRange")
      case True
      have "cv.calm (execute_range su w jt source lo hi observed)"
        unfolding execute_range_def True
        by (simp, intro cv.calm_seq cv.calm_on_db [OF quiet_catalog [OF bv_orphan]] cv_execute_ingest)
      then have "catalog_view (ws_db t) = catalog_view (ws_db u)" using ran(3) by (rule cv.calmD)
      with u covered_by_view done_same have "checkpoints_covered (ws_db t)" by (simp add: checkpoints_covered_def)
      with more show ?thesis by (simp add: checkpoints_covered_def)
    next
      case False
      with ran(1) have job: "jt = IngestRange" "jr_job_type job = ''INGEST_RANGE''" "jr_source_id job = Some (so_id source)"
        "jr_from_block job = Some lo" "jr_to_block job = Some hi" by (auto simp: executable_def)
      obtain y v where i: "execute_ingest su w source lo hi False u = (y, v)" by fastforce
      have v: "covered_by (succeeded_jobs (ws_db v)) (ws_db v)" "succeeded_jobs (ws_db v) = succeeded_jobs (ws_db s)"
        "source \<in> set (db_sources (ws_db v))"
        using covered_by_view [OF u(1) cv.calmD [OF cv_execute_ingest i]] qv.calmD [OF qv_execute_ingest i]
          cv.calmD [OF cv_execute_ingest i] u
        by (auto simp: succeeded_jobs_def queue_view_def catalog_view_def)
      show ?thesis
      proof (cases y)
        case (Inl e)
        with ran(3) i job(1) have "t = v" by (simp add: execute_range_def seq_def)
        with v(1) more show ?thesis by (simp add: checkpoints_covered_def)
      next
        case (Inr summary)
        obtain z r where a: "advance_after su source lo hi observed v = (z, r)" by fastforce
        with ran(3) i job(1) Inr have "t = r \<and> is_ok x = is_ok z"
          by (cases z) (auto simp: execute_range_def seq_def ret_def)
        with advance_after_covered [OF a v(1,3) job(2-5)] v(2) done_same show ?thesis
          by (simp add: checkpoints_covered_def)
      qed
    qed
  qed
qed


section \<open>Finishing and rounds\<close>

lemma mark_succeeded_total:
  assumes "queue_inv d" and "pool_available (db_env d)" and "r \<in> set (db_jobs d)"
  shows "is_ok (fst (mark_succeeded (jr_id r) d))"
proof -
  obtain q where q: "List.find (\<lambda>p. jr_id p = jr_id r) (db_jobs d) = Some q"
    using assms(3) find_None_set [of "\<lambda>p. jr_id p = jr_id r" "db_jobs d"] by (cases "List.find (\<lambda>p. jr_id p = jr_id r) (db_jobs d)") auto
  then have "job_check q" using find_Some_set [OF q] assms(1) by (auto simp: queue_inv_def)
  then have "job_check (succeeded_row now q)" for now by (simp add: job_check_def succeeded_row_def)
  with q assms(2) show ?thesis
    by (simp add: mark_succeeded_eq outcome_def update_job_def update_attempt_status_def pg_transaction_def transaction_def
        utc_now_def seq_def connection_def reads_def writes_def ret_def lift_def split: prod.split)
qed

lemma execute_pool:
  assumes "execute_job su w job s = (Ok a, t)"
  shows "pool_available (db_env (ws_db t))"
proof (rule ccontr)
  assume "\<not> pool_available (db_env (ws_db t))"
  then have "\<not> pool_available (db_env (ws_db s))"
    using qv_execute assms by (auto simp: qv.calm_def tick_def)
  then have "on_db (source_by_id sid) s = (Err PoolUnavailable, s)" for sid
    by (simp add: on_db_def source_by_id_def connection_def seq_def)
  then have "seq (on_db (source_by_id sid)) f s = (Err PoolUnavailable, s)"
    for sid and f :: "source_row option \<Rightarrow> scan_summary worker_prog"
    by (simp add: seq_def)
  with assms show False
    by (cases "job_type_from_str (jr_job_type job)"; cases "jr_source_id job"; cases "jr_from_block job"; cases "jr_to_block job")
       (auto simp: execute_job_def split: if_splits)
qed

lemma failed_not_succeeded: "jr_status (failed_row (next_status q) cls msg now q) \<noteq> ''succeeded''"
  by (simp add: failed_row_def next_status_def)

lemma finish_covering:
  assumes "finish_running_job su r result s = (x, t)" and inv: "queue_inv (ws_db s)"
    and r: "r \<in> set (db_jobs (ws_db s))" "jr_status r = ''running''"
    and cov: "covered_by (insert r (succeeded_jobs (ws_db s))) (ws_db s)"
    and failed: "\<not> is_ok result \<Longrightarrow> checkpoints_covered (ws_db s)"
    and pool: "is_ok result \<Longrightarrow> pool_available (db_env (ws_db s))"
    and ended: "succeeded_jobs (ws_db s) \<subseteq> js"
  shows "covering (js \<union> {q. is_ok result \<and> covers q = covers r}) (ws_db t)"
proof (cases result)
  case (Inr summary)
  obtain y d where m: "mark_succeeded (jr_id r) (ws_db s) = (y, d)" by fastforce
  with mark_succeeded_total [OF inv _ r(1)] pool Inr obtain r' where y: "y = Ok r'" by (cases y) auto
  obtain q now where q: "jr_id q = jr_id r" "r' = succeeded_row now q" "replaces (ws_db s) q r' d"
    by (rule mark_succeeded_replaces [OF m [unfolded y] inv])
  have "q = r" using job_by_id [OF inv _ r(1) q(1)] q(3) by (simp add: replaces_def)
  with replaces_succeeded [OF q(3) inv] q(2) r(2)
  have "succeeded_jobs d = insert (succeeded_row now r) (succeeded_jobs (ws_db s))" by (auto simp: succeeded_row_def)
  moreover have same: "covers (succeeded_row now r) = covers r" by (intro ext) (simp add: covers_def succeeded_row_def)
  ultimately have "succeeded_jobs d \<subseteq> js \<union> {q. is_ok result \<and> covers q = covers r}"
    using ended Inr by auto
  moreover have "checkpoints_covered d"
    unfolding checkpoints_covered_def \<open>succeeded_jobs d = _\<close>
    by (intro covered_by_view [OF _ cv.quietD [OF cv_queue(3) m]] covered_by_mono [OF cov]) (auto simp: same)
  moreover have "ws_db t = d"
    using assms(1) m y Inr by (auto simp: finish_running_job_def seq_def on_db_def ret_def)
  ultimately show ?thesis
    using queue_step_keeps [OF step_succeeded [OF m] inv] by (simp add: covering_def)
next
  case (Inl e)
  obtain y d where m: "mark_failed (jr_id r) ''IngestJobError'' (su_error_chain su e) (ws_db s) = (y, d)" by fastforce
  have "checkpoints_covered d \<and> succeeded_jobs d = succeeded_jobs (ws_db s)"
  proof (cases y)
    case (Inl e')
    with m have "tables d = tables (ws_db s)" by (auto simp: mark_failed_eq dest: failed_tables)
    then show ?thesis using covered_tables failed \<open>result = Inl e\<close> by (simp add: succeeded_jobs_def tables_eq_iff)
  next
    case (Inr r')
    obtain q now where q: "jr_id q = jr_id r" "replaces (ws_db s) q r' d"
      "r' = failed_row (next_status q) ''IngestJobError'' (su_error_chain su e) now q"
      by (rule mark_failed_replaces [OF m [unfolded Inr] inv])
    have "q = r" using job_by_id [OF inv _ r(1) q(1)] q(2) by (simp add: replaces_def)
    with covered_replaces [OF _ q(2) inv _ cv.quietD [OF cv_queue(4) m]] replaces_succeeded [OF q(2) inv] q(3) failed_not_succeeded failed \<open>result = Inl e\<close> r(2)
    show ?thesis by simp
  qed
  moreover have "ws_db t = d"
    using assms(1) m Inl
    by (cases y) (auto simp: finish_running_job_def seq_def on_db_def meter_def run_if_def writes_def ret_def Let_def split: if_splits)
  ultimately show ?thesis
    using queue_step_keeps [OF step_failed [OF m] inv] ended by (auto simp: covering_def)
qed

text \<open>A round either executes no job and leaves the ledger alone, or writes to the ledger by executing one, which is
  among the succeeded jobs afterwards only if the execution succeeded.\<close>

lemma round_steps:
  assumes "run_once su w s = (x, t)" and "covering js (ws_db s)"
  obtains (idle) "covering js (ws_db t)" and "ledger_view (ws_db t) = ledger_view (ws_db s)"
    | (worked) r u y v where "ledger_view (ws_db u) = ledger_view (ws_db s)" and "execute_job su w r u = (y, v)"
        and "ledger_view (ws_db t) = ledger_view (ws_db v)" and "covering (js \<union> {q. is_ok y \<and> covers q = covers r}) (ws_db t)"
proof -
  obtain a s1 where o: "observe_job_backlog w s = (a, s1)" by fastforce
  have s1: "covering js (ws_db s1)" "ledger_view (ws_db s1) = ledger_view (ws_db s)"
    using backlog_covering [OF o assms(2)] lv.calmD [OF backlog_calm(2) o] by simp_all
  obtain l s2 where l: "lease_and_mark_running su w (ws_replay_first s1) s1 = (l, s2)" by fastforce
  note s2 = lease_and_mark_covering [OF l s1(1)]
  have ledger: "ledger_view (ws_db s2) = ledger_view (ws_db s)" using lv.calmD [OF lv_lease(3) l] s1(2) by simp
  show thesis
  proof (cases "\<exists>r. a = Ok () \<and> l = Ok (Some r)")
    case False
    with assms(1) o l have "t = s1 \<or> t = s2"
      by (cases a; cases l) (auto simp: run_once_def seq_def reads_def split: option.splits)
    with s1 s2 ledger show thesis by (intro idle) auto
  next
    case True
    then obtain r where r: "a = Ok ()" "l = Ok (Some r)" by blast
    obtain y s3 where e: "execute_job su w r s2 = (y, s3)" by fastforce
    have jobs: "db_jobs (ws_db s3) = db_jobs (ws_db s2)" "queue_inv (ws_db s3)"
      using qv.calmD [OF qv_execute e] queue_inv_calm [OF qv_execute e] s2 by (auto simp: queue_view_def covering_def)
    obtain z s4 where f: "finish_running_job su r y s3 = (z, s4)" by fastforce
    let ?js = "js \<union> {q. is_ok y \<and> covers q = covers r}"
    have s4: "covering ?js (ws_db s4)"
    proof (rule finish_covering [OF f jobs(2)])
      show "r \<in> set (db_jobs (ws_db s3))" "jr_status r = ''running''" using s2 r(2) jobs(1) by auto
      have "checkpoints_covered (ws_db s2)" using s2 by (simp add: covering_def)
      note execute_covered [OF e this]
      then show "covered_by (insert r (succeeded_jobs (ws_db s3))) (ws_db s3)"
        and "\<not> is_ok y \<Longrightarrow> checkpoints_covered (ws_db s3)" by blast+
      show "is_ok y \<Longrightarrow> pool_available (db_env (ws_db s3))" using execute_pool e by (cases y) auto
      show "succeeded_jobs (ws_db s3) \<subseteq> js" using s2 jobs(1) by (simp add: covering_def succeeded_jobs_def)
    qed
    have after: "ledger_view (ws_db s4) = ledger_view (ws_db s3)" by (rule lv.calmD [OF lv_finish f])
    show thesis
    proof (cases z)
      case (Inl err)
      with assms(1) o l r e f have "t = s4" by (simp add: run_once_def seq_def reads_def outcome_of_def)
      with worked [OF ledger e] s4 after show thesis by simp
    next
      case (Inr ended)
      obtain p s5 where p: "update_priority_after_outcome r ended s4 = (p, s5)" by fastforce
      then have s5: "ws_db s5 = ws_db s4" "is_ok p" using priority_db by blast+
      obtain b s6 where o': "observe_job_backlog w s5 = (b, s6)" by fastforce
      from assms(1) o l r e f Inr p s5(2) o' have "t = s6"
        by (cases p; cases b) (auto simp: run_once_def seq_def reads_def outcome_of_def ret_def)
      with worked [OF ledger e] backlog_covering [OF o'] lv.calmD [OF backlog_calm(2) o'] s4 s5(1) after show thesis by simp
    qed
  qed
qed

lemma enqueue_covering:
  assumes "enqueue job d = (x, t)" and "covering js d"
  shows "covering js t"
proof -
  have inv: "queue_inv d" "checkpoints_covered d" "succeeded_jobs d \<subseteq> js" using assms(2) by (simp_all add: covering_def)
  have "checkpoints_covered t \<and> succeeded_jobs t = succeeded_jobs d"
  proof (cases x)
    case (Inl e)
    with assms(1) enqueue_failed have "tables t = tables d" by blast
    with covered_tables [OF inv(2)] show ?thesis by (simp add: succeeded_jobs_def tables_eq_iff)
  next
    case (Inr y)
    with assms(1) have "enqueue job d = (Ok y, t)" by simp
    then have "succeeded_jobs t = succeeded_jobs d \<and> catalog_view t = catalog_view d"
      by (cases rule: enqueue_cases) (auto simp: succeeded_jobs_def catalog_view_def new_job_row_def)
    with inv(2) covered_by_view show ?thesis by (simp add: checkpoints_covered_def)
  qed
  with queue_step_keeps [OF step_enqueue [OF assms(1)] inv(1)] inv(3) show ?thesis by (simp add: covering_def)
qed

section \<open>Working\<close>

text \<open>Any workers take turns at the queue while jobs are enqueued; a round may fail.\<close>

inductive works :: "worker_state \<Rightarrow> worker_state \<Rightarrow> bool" where
  works_start: "works s s"
| works_round: "works s t \<Longrightarrow> run_once su w t = (x, u) \<Longrightarrow> works s u"
| works_enqueue: "works s t \<Longrightarrow> on_db (enqueue job) t = (x, u) \<Longrightarrow> works s u"

lemma works_covering: "works s t \<Longrightarrow> covering UNIV (ws_db s) \<Longrightarrow> covering UNIV (ws_db t)"
proof (induction rule: works.induct)
  case (works_round s t su w x u)
  from works_round.IH [OF works_round.prems] have t: "covering UNIV (ws_db t)" .
  from works_round.hyps(2) t show ?case by (cases rule: round_steps) auto
next
  case (works_enqueue s t job x u)
  then show ?case using enqueue_covering by (auto simp: on_db_Ok)
qed simp


text \<open>The sample queue with a source that starts where its job does, after the job has succeeded and its checkpoint has
  been set; then another job is enqueued.\<close>

definition source_at_job :: db where
  "source_at_job = (ws_db worker_start)\<lparr>db_sources := map (\<lambda>r. r\<lparr>so_start_block := 10\<rparr>) (db_sources (ws_db worker_start))\<rparr>"

definition leased_once :: db where
  "leased_once = snd (lease_next_candidate (\<lambda>_. False) ''w'' 60 (Some IngestRange) None source_at_job)"

definition succeeded_once :: db where "succeeded_once = snd (mark_succeeded 70 leased_once)"

definition covered_start :: worker_state where
  "covered_start = worker_start\<lparr>ws_db := snd (advance_checkpoint 5 20 ''0xaa'' 20 succeeded_once)\<rparr>"

definition later_job :: new_job where
  "later_job = mint_job\<lparr>nw_id := 71, nw_from_block := Some 21, nw_to_block := Some 30, nw_idempotency_key := ''l''\<rparr>"

definition enqueued_later :: worker_state where "enqueued_later = snd (on_db (enqueue later_job) covered_start)"

lemma covered_start_inv: "queue_inv (ws_db covered_start)"
proof -
  have "queue_inv source_at_job"
    using queue_inv_view [of "ws_db worker_start" source_at_job] worker_start_inv
    by (simp add: worker_inv_def source_at_job_def queue_view_def)
  then have "queue_inv succeeded_once"
    unfolding succeeded_once_def leased_once_def
    by (intro queue_step_keeps [OF step_succeeded [OF surjective_pairing]] queue_step_keeps [OF step_lease [OF surjective_pairing]])
  moreover obtain x d where "advance_checkpoint 5 20 ''0xaa'' 20 succeeded_once = (x, d)" by fastforce
  ultimately show ?thesis
    using qv_checkpoints(1) by (auto simp: covered_start_def qv.quiet_def intro: queue_inv_view)
qed


end
