(* ===== verification/Node_History.thy ===== *)
theory Node_History
  imports Ingest_Spec
begin

text \<open>
  A node whose answers to queries for logs come from one history: what the ingestion service makes of a
  range is then a function of that history and of the timestamps of its blocks.
\<close>

section \<open>Queries for logs\<close>

text \<open>The logs a query for a contract and a standard asks for.\<close>

definition topic_of :: "crates \<Rightarrow> standard \<Rightarrow> rpc_log \<Rightarrow> bool" where
  "topic_of c standard l \<longleftrightarrow> first_topic l \<in> Some ` set (supported_topic0_values c standard)"

definition emitted :: "string \<Rightarrow> rpc_log \<Rightarrow> bool" where
  "emitted contract l \<longleftrightarrow> to_ascii_lowercase (log_address l) = contract"

definition within :: "u64 \<Rightarrow> u64 \<Rightarrow> rpc_log \<Rightarrow> bool" where
  "within lo hi l \<longleftrightarrow> lo \<le> block_of l \<and> block_of l \<le> hi"

definition asked :: "crates \<Rightarrow> string \<Rightarrow> standard \<Rightarrow> u64 \<Rightarrow> u64 \<Rightarrow> rpc_log \<Rightarrow> bool" where
  "asked c contract standard lo hi l \<longleftrightarrow> emitted contract l \<and> topic_of c standard l \<and> within lo hi l"

text \<open>A query that is answered, is answered with the logs it asks for, in the order of the blocks; any may fail.\<close>

definition recounts :: "crates \<Rightarrow> rpc \<Rightarrow> rpc_log list \<Rightarrow> bool" where
  "recounts c rpc history \<longleftrightarrow> sorted (map block_of history)
     \<and> (\<forall>contract standard lo hi logs. rpc_logs rpc contract standard lo hi = Ok logs
          \<longrightarrow> logs = filter (asked c contract standard lo hi) history)"

definition stamped :: "rpc \<Rightarrow> rpc_log \<Rightarrow> rpc_log" where
  "stamped rpc l = l\<lparr>log_block_timestamp :=
     (case rpc_block_timestamp rpc (block_of l) of Ok ts \<Rightarrow> Some ts | Err _ \<Rightarrow> None)\<rparr>"

lemma first_topic_timestamp [simp]: "first_topic (l\<lparr>log_block_timestamp := ts\<rparr>) = first_topic l"
  by (simp add: first_topic_def)

lemma topic_stamped [simp]: "topic_of c standard (stamped rpc l) = topic_of c standard l"
  by (simp add: stamped_def topic_of_def)

section \<open>Fetching\<close>

lemma fetch_loop_answered:
  assumes sorted: "sorted (map block history)"
    and answers: "\<And>lo hi ls. rpc_logs rpc contract standard lo hi = Ok ls
      \<Longrightarrow> filter P ls = filter (\<lambda>l. P l \<and> lo \<le> block l \<and> block l \<le> hi) history"
  shows "fetch_loop rpc contract standard f t n pre acc = Ok logs \<Longrightarrow> f \<le> t
    \<Longrightarrow> (\<And>p. pre = Some p \<Longrightarrow> filter P (pf_logs p) = filter (\<lambda>l. P l \<and> pf_from p \<le> block l \<and> block l \<le> pf_to p) history)
    \<Longrightarrow> filter P logs = filter P acc @ filter (\<lambda>l. P l \<and> f \<le> block l \<and> block l \<le> t) history"
proof (induction f t n arbitrary: pre acc rule: split_loop.induct)
  case (1 f t n)
  let ?stop = "min (u64_saturating_add f (n - 1)) t"
  let ?hit = "case pre of None \<Rightarrow> False | Some p \<Rightarrow> pf_from p = f \<and> pf_to p = ?stop"
  note stop = stop_bounds [OF "1.prems"(2), of "n - 1"]
  have sortedP: "sorted (map block (filter P history))" using sorted by (rule sorted_filter)
  have eq: "filter (\<lambda>l. P l \<and> a \<le> block l \<and> block l \<le> b) history
      = filter (\<lambda>l. a \<le> block l \<and> block l \<le> b) (filter P history)" for a b
    by (simp add: conj_commute)
  from "1.prems"(1,2) obtain chunk where
        chunk: "(case pre of Some p \<Rightarrow> if ?hit then Ok (pf_logs p) else rpc_logs rpc contract standard f ?stop
              | None \<Rightarrow> rpc_logs rpc contract standard f ?stop) = Ok chunk"
    and rest: "(if ?stop = - 1 then Ok (acc @ chunk)
      else fetch_loop rpc contract standard (?stop + 1) t n (if ?hit then None else pre) (acc @ chunk)) = Ok logs"
    unfolding fetch_loop.simps [of _ _ _ f] Let_def by (simp only: if_True and_then_Ok_iff) blast
  have "filter P chunk = filter (\<lambda>l. P l \<and> f \<le> block l \<and> block l \<le> ?stop) history"
  proof (cases ?hit)
    case True
    then obtain p where p: "pre = Some p" "pf_from p = f" "pf_to p = ?stop" by (cases pre) auto
    with chunk have "chunk = pf_logs p" by simp
    with "1.prems"(3) [OF p(1)] p show ?thesis by simp
  next
    case False
    with chunk have "rpc_logs rpc contract standard f ?stop = Ok chunk" by (cases pre) auto
    then show ?thesis by (rule answers)
  qed
  note chunk = this [unfolded eq]
  show ?case
  proof (cases "?stop = t")
    case True
    then have "fetch_loop rpc contract standard (t + 1) t n pre' a = Ok a" if "t \<noteq> - 1" for a pre'
      using unat_succ [OF that] by (simp add: fetch_loop.simps [of _ _ _ "t + 1"] word_le_nat_alt)
    with True rest have "logs = acc @ chunk" by (auto split: if_splits)
    with chunk True show ?thesis by (simp only: eq filter_append)
  next
    case False
    then have lt: "?stop < t" using stop by (metis order_le_neq_trans)
    then have max: "?stop \<noteq> - 1" by (metis not_less word_order.extremum)
    have next': "?stop + 1 \<le> t"
      using lt unat_succ [OF max] by (simp only: word_le_nat_alt word_less_nat_alt Suc_le_eq)
    from rest max have "fetch_loop rpc contract standard (?stop + 1) t n (if ?hit then None else pre) (acc @ chunk) = Ok logs"
      by simp
    moreover have "(if ?hit then None else pre) = Some p
        \<Longrightarrow> filter P (pf_logs p) = filter (\<lambda>l. P l \<and> pf_from p \<le> block l \<and> block l \<le> pf_to p) history" for p
      using "1.prems"(3) by (cases ?hit) auto
    ultimately have "filter P logs = filter P (acc @ chunk) @ filter (\<lambda>l. P l \<and> ?stop + 1 \<le> block l \<and> block l \<le> t) history"
      using "1.IH" [OF "1.prems"(2) refl max _ next'] by blast
    then show ?thesis
      using chunk filter_ranges [OF sortedP _ lt max, of f] stop(1)
      by (simp only: eq filter_append append_assoc)
  qed
qed

section \<open>Decoding\<close>

lemma decode_other_topic: "standard \<noteq> Auto \<Longrightarrow> \<not> topic_of c standard l \<Longrightarrow> decode_log c l standard = Ok None"
  by (cases standard)
     (auto simp: decode_log_def decode_log_as_def topic_of_def supported_topic0_values_def standard_is_auto_def split: option.split)

lemma decode_logs_topic: "standard \<noteq> Auto \<Longrightarrow> decode_logs c standard (filter (topic_of c standard) ls) = decode_logs c standard ls"
proof (induction ls)
  case (Cons l ls)
  have "and_then r Ok = r" for r :: "(rpc_log \<times> decoded_log) list result" by (cases r) simp_all
  with Cons show ?case by (simp add: decode_other_topic)
qed simp

lemma attached_stamped:
  assumes "attach_block_timestamps rpc logs = Ok logs'"
  shows "logs' = map (stamped rpc) logs"
proof -
  have "list_all2 (\<lambda>l l'. l' = stamped rpc l) logs logs'"
    using attach_block_timestamps_exact [OF assms]
    by (rule list_all2_mono) (auto simp: stamped_def block_of_def)
  then show ?thesis by (induction rule: list_all2_induct) auto
qed

lemma recounted: "recounts c rpc history \<Longrightarrow> rpc_logs rpc contract s lo hi = Ok ls \<Longrightarrow> ls = filter (asked c contract s lo hi) history"
  by (simp add: recounts_def)

lemma topic_auto: "topic_of c standard l \<Longrightarrow> topic_of c Auto l"
  by (cases standard) (auto simp: topic_of_def supported_topic0_values_def)

lemma answered_topics:
  assumes "recounts c rpc history" and "rpc_logs rpc contract s lo hi = Ok ls" and "s = standard \<or> s = Auto"
  shows "filter (topic_of c standard) ls = filter (\<lambda>l. topic_of c standard l \<and> lo \<le> block_of l \<and> block_of l \<le> hi)
    (filter (emitted contract) history)"
proof -
  have "asked c contract s lo hi l \<and> topic_of c standard l
      \<longleftrightarrow> emitted contract l \<and> topic_of c standard l \<and> lo \<le> block_of l \<and> block_of l \<le> hi" for l
    using assms(3) topic_auto [of c standard] by (auto simp: asked_def within_def)
  then show ?thesis unfolding recounted [OF assms(1,2)] by simp
qed

text \<open>What a range decodes to, with any prefetched chunk that a query for all kinds of transfers returned.\<close>

lemma range_decoded:
  assumes recounts: "recounts c rpc history" and standard: "standard \<noteq> Auto"
    and source: "standard_from_str (sr_token_standard source) = Ok standard" "sr_contract_address source = contract"
    and pre: "\<And>p. pre = Some p \<Longrightarrow> rpc_logs rpc contract Auto (pf_from p) (pf_to p) = Ok (pf_logs p)"
    and run: "decoded_logs_of_range c rpc source lo hi n pre = Ok decoded"
  shows "decode_logs c standard (map (stamped rpc) (filter (asked c contract standard lo hi) history)) = Ok decoded"
proof -
  from run standard source obtain logs logs' where "lo \<le> hi"
    and fetched: "fetch_loop rpc contract standard lo hi n pre [] = Ok logs"
    and attached: "attach_block_timestamps rpc logs = Ok logs'"
    and decoded: "decode_logs c standard logs' = Ok decoded"
    by (auto simp: decoded_logs_of_range_def resolve_standard_def standard_is_auto_def
        fetch_logs_in_chunks_with_progress_def split: if_splits)
  let ?history = "filter (emitted contract) history"
  have "sorted (map block_of ?history)"
    using recounts by (simp add: recounts_def sorted_filter)
  from fetch_loop_answered [OF this answered_topics [OF recounts _ disjI1 [OF refl]] fetched \<open>lo \<le> hi\<close>
      answered_topics [OF recounts pre disjI2 [OF refl]]]
  have "filter (topic_of c standard) logs = filter (\<lambda>l. topic_of c standard l \<and> lo \<le> block_of l \<and> block_of l \<le> hi) ?history"
    by simp
  also have "\<dots> = filter (asked c contract standard lo hi) history"
    by (simp add: asked_def [abs_def] within_def)
  finally have "filter (topic_of c standard) logs' = map (stamped rpc) (filter (asked c contract standard lo hi) history)"
    unfolding attached_stamped [OF attached] by (simp add: filter_map comp_def)
  then show ?thesis using decoded decode_logs_topic [OF standard, of c logs'] by simp
qed

section \<open>Detection\<close>

lemma detect_loop_found:
  "detect_loop c rpc contract f t n = Ok (Some d) \<Longrightarrow>
     (let p = sd_prefetched_logs d in
      rpc_logs rpc contract Auto (pf_from p) (pf_to p) = Ok (pf_logs p) \<and> f \<le> pf_from p \<and> pf_to p \<le> t
      \<and> detects c (pf_logs p) (sd_standard d))"
proof (induction c rpc contract f t n rule: detect_loop.induct)
  case (1 c rpc contract f t n)
  let ?stop = "min (u64_saturating_add f (n - 1)) t"
  from "1.prems" have le: "f \<le> t" by (simp add: detect_loop.simps [of _ _ _ f] split: if_splits)
  note stop = stop_bounds [OF le, of "n - 1"]
  from "1.prems" le obtain logs found where logs: "rpc_logs rpc contract Auto f ?stop = Ok logs"
    and found: "detect_token_standard_from_logs c logs = Ok found"
    and rest: "(case found of
        Some standard \<Rightarrow> Ok (Some \<lparr>sd_standard = standard, sd_prefetched_logs = \<lparr>pf_from = f, pf_to = ?stop, pf_logs = logs\<rparr>\<rparr>)
      | None \<Rightarrow> if ?stop = - 1 then Ok None else detect_loop c rpc contract (?stop + 1) t n) = Ok (Some d)"
    unfolding detect_loop.simps [of _ _ _ f] Let_def by (simp only: if_True and_then_Ok_iff) blast
  show ?case
  proof (cases found)
    case (Some s)
    with rest have d: "d = \<lparr>sd_standard = s, sd_prefetched_logs = \<lparr>pf_from = f, pf_to = ?stop, pf_logs = logs\<rparr>\<rparr>" by simp
    have "detects c logs s"
      using found Some detect_token_standard_from_logs_exact [of c logs s] by simp
    with d logs stop show ?thesis by (simp add: Let_def)
  next
    case None
    with rest have max: "?stop \<noteq> - 1" and rec: "detect_loop c rpc contract (?stop + 1) t n = Ok (Some d)"
      by (simp_all split: if_splits)
    have "f \<le> ?stop + 1" using stop unat_succ [OF max] by (simp only: word_le_nat_alt) linarith
    from "1.IH" [OF le refl max rec] this show ?thesis by (auto simp: Let_def)
  qed
qed

lemma not_detected_auto: "detect_token_standard_from_log c l \<noteq> Ok (Some Auto)"
  by (auto simp: detect_token_standard_from_log_def split: option.splits)

end
