(* ===== verification/Index_Complete.thy ===== *)
theory Index_Complete
  imports Checkpoint_Cover Node_History
begin

text \<open>
  The index is complete up to its checkpoints: while workers ingest from nodes that recount one history, every
  movement of the history up to the processed block of a source has its entry in the ledger.
\<close>

section \<open>Movements of a history\<close>

lemma decode_timestamp: "decode_log c (l\<lparr>log_block_timestamp := ts\<rparr>) standard = decode_log c l standard"
proof -
  let ?l = "l\<lparr>log_block_timestamp := ts\<rparr>"
  have same: "log_topics ?l = log_topics l" "log_data ?l = log_data l" "first_topic ?l = first_topic l"
    by (simp_all add: first_topic_def)
  have count: "require_topic_count ?l n = require_topic_count l n" for n by (simp only: require_topic_count_def same)
  have detect: "detect_token_standard_from_log c ?l = detect_token_standard_from_log c l"
    by (simp only: detect_token_standard_from_log_def same)
  then have "decode_log_as c ?l s = decode_log_as c l s" for s
    by (simp only: decode_log_as_def validate_transfer_shape_matches_standard_def decode_transfer_def
        decode_transfer_single_def decode_transfer_batch_def same count)
  with detect show ?thesis by (simp only: decode_log_def)
qed

text \<open>What a log of a source's contract moves, and whether the ledger has an entry for it.\<close>

definition moves :: "crates \<Rightarrow> source_row \<Rightarrow> rpc_log \<Rightarrow> decoded_entry \<Rightarrow> bool" where
  "moves c source l e \<longleftrightarrow> emitted (so_contract_address source) l
     \<and> (\<exists>standard decoded. standard_from_str (so_token_standard source) = Ok standard \<and> standard \<noteq> Auto
          \<and> decode_log c l standard = Ok (Some decoded) \<and> e \<in> set (dl_entries decoded))"

definition entered :: "db \<Rightarrow> source_row \<Rightarrow> rpc_log \<Rightarrow> decoded_entry \<Rightarrow> bool" where
  "entered d source l e \<longleftrightarrow>
     (\<exists>row \<in> set (db_entries d). log_entry_key (source_ref_of source) l (de_batch_index e) = Ok (entry_key row))"

definition stocked :: "crates \<Rightarrow> rpc_log list \<Rightarrow> db \<Rightarrow> job_row \<Rightarrow> bool" where
  "stocked c history d r \<longleftrightarrow> (\<forall>source \<in> set (db_sources d). \<forall>l \<in> set history. \<forall>e.
     covers r (so_id source) (uint (block_of l)) \<and> moves c source l e \<longrightarrow> entered d source l e)"

definition grows :: "db \<Rightarrow> db \<Rightarrow> bool" where
  "grows d t \<longleftrightarrow> db_sources t = db_sources d \<and> entry_key ` set (db_entries d) \<subseteq> entry_key ` set (db_entries t)"

lemma stocked_grows:
  assumes "stocked c history d r" and "grows d t" and "covers q = covers r"
  shows "stocked c history t q"
proof -
  have "entered t source l e" if "entered d source l e" for source l e
    using that assms(2) by (fastforce simp: entered_def grows_def)
  then show ?thesis using assms by (auto simp: stocked_def grows_def)
qed

lemma grows_view: "ledger_view t = ledger_view d \<Longrightarrow> grows d t"
  by (simp add: grows_def ledger_view_def)

lemma grows_trans: "grows d m \<Longrightarrow> grows m t \<Longrightarrow> grows d t"
  by (auto simp: grows_def)

section \<open>Jobs only add entries\<close>

definition growing :: "'a worker_prog \<Rightarrow> bool" where
  "growing m \<longleftrightarrow> (\<forall>s r t. ledger_inv (ws_db s) \<longrightarrow> m s = (r, t) \<longrightarrow> ledger_inv (ws_db t) \<and> grows (ws_db s) (ws_db t))"

lemma growingI:
  "(\<And>s r t. ledger_inv (ws_db s) \<Longrightarrow> m s = (r, t) \<Longrightarrow> ledger_inv (ws_db t) \<and> grows (ws_db s) (ws_db t)) \<Longrightarrow> growing m"
  unfolding growing_def by blast

lemma growingD: "growing m \<Longrightarrow> ledger_inv (ws_db s) \<Longrightarrow> m s = (r, t) \<Longrightarrow> ledger_inv (ws_db t) \<and> grows (ws_db s) (ws_db t)"
  unfolding growing_def by blast

lemma growing_calm: "lv.calm m \<Longrightarrow> growing m"
  by (rule growingI) (auto dest: lv.calmD intro: ledger_inv_view grows_view)

lemma growing_seq:
  assumes "growing m" and "\<And>a. growing (f a)"
  shows "growing (seq m f)"
proof (rule growingI)
  fix s r t assume inv: "ledger_inv (ws_db s)" and run: "seq m f s = (r, t)"
  from run show "ledger_inv (ws_db t) \<and> grows (ws_db s) (ws_db t)"
  proof (cases rule: seq_split)
    case (failed e)
    with growingD [OF assms(1) inv] show ?thesis by blast
  next
    case (went_on a u)
    from growingD [OF assms(1) inv went_on(1)] have u: "ledger_inv (ws_db u)" "grows (ws_db s) (ws_db u)" by simp_all
    with growingD [OF assms(2) u(1) went_on(2)] grows_trans show ?thesis by blast
  qed
qed

lemma growing_if: "growing m \<Longrightarrow> growing n \<Longrightarrow> growing (if b then m else n)"
  by simp

lemma fold_book_grows: "dom m \<subseteq> dom (fold (book restore) bs m)"
proof (induction bs arbitrary: m)
  case (Cons b bs)
  have "dom m \<subseteq> dom (book restore b m)" by (auto simp: book_def)
  with Cons [of "book restore b m"] show ?case by auto
qed simp

lemma growing_ingest: "growing (execute_ingest su w source lo hi restore)"
proof (rule growingI)
  fix s r t assume inv: "ledger_inv (ws_db s)" and "execute_ingest su w source lo hi restore s = (r, t)"
  then obtain options where
    run: "ingest_source_range (su_crates su) (su_rpc su) (postgres_ingest_repository (su_crates su)) (source_ref_of source)
       (i64_as_u64 lo) (i64_as_u64 hi) (wk_chunk_size w) options (ws_db s) = (r, ws_db t)"
    by (auto simp: execute_ingest_def on_db_def split: prod.splits)
  note outcome = pg.ingest_outcome [OF inv run]
  have "ledger_of (db_entries (ws_db t)) = ledger_of (db_entries (ws_db s))
      \<or> (\<exists>restore bs. ledger_of (db_entries (ws_db t)) = fold (book restore) bs (ledger_of (db_entries (ws_db s))))"
    using outcome by (auto simp: pg.ingested_def split: sum.splits if_splits)
  then have "dom (ledger_of (db_entries (ws_db s))) \<subseteq> dom (ledger_of (db_entries (ws_db t)))"
    by (elim disjE exE) (simp_all add: fold_book_grows)
  moreover have "db_sources (ws_db t) = db_sources (ws_db s)"
    using bv_ingest run by (fastforce simp: bv.quiet_def base_view_def)
  ultimately show "ledger_inv (ws_db t) \<and> grows (ws_db s) (ws_db t)"
    using outcome by (simp add: grows_def dom_ledger_of)
qed

lemma growing_orphan: "growing (on_db (orphan_source_range source lo hi))"
proof (rule growingI)
  fix s r t assume inv: "ledger_inv (ws_db s)" and "on_db (orphan_source_range source lo hi) s = (r, t)"
  then have run: "orphan_source_range source lo hi (ws_db s) = (r, ws_db t)"
    by (auto simp: on_db_def split: prod.splits)
  have "db_sources (ws_db t) = db_sources (ws_db s)"
    using bv_orphan run by (fastforce simp: bv.quiet_def base_view_def)
  moreover have "entry_key ` set (db_entries (ws_db s)) \<subseteq> entry_key ` set (db_entries (ws_db t))"
  proof (cases r)
    case (Inl e)
    with safeD [OF orphan_safe] run show ?thesis by (simp add: tables_eq_iff)
  next
    case (Inr a)
    show ?thesis
      unfolding orphan_Ok(2) [OF inv run [unfolded Inr]] by (subst update_rows_ids) (simp_all add: entry_key_def)
  qed
  ultimately show "ledger_inv (ws_db t) \<and> grows (ws_db s) (ws_db t)"
    using orphan_keeps [OF inv run] by (simp add: grows_def)
qed

lemma lv_advance_after: "lv.calm (advance_after su source lo hi observed)"
  unfolding advance_after_def by (intro lv.calm_intros lv_checkpoints)

lemma growing_execute: "growing (execute_job su w job)"
proof -
  have "lv.calm (observed_finalized_block su chain)" for chain
    unfolding observed_finalized_block_def Let_def by (intro lv.calm_intros lv_reads)
  then show ?thesis
    unfolding execute_job_def execute_range_def
    by (intro growing_seq growing_if growing_ingest growing_orphan growing_calm [OF lv_advance_after] growing_calm;
        (intro lv.calm_intros lv_reads)?)
qed

section \<open>A job that succeeds has entered its range\<close>

lemma decode_logs_member:
  "decode_logs c standard ls = Ok decoded \<Longrightarrow> l \<in> set ls \<Longrightarrow> decode_log c l standard = Ok (Some d) \<Longrightarrow> (l, d) \<in> set decoded"
  by (induction ls arbitrary: decoded) (auto split: option.splits)

lemma ingest_enters:
  assumes inv: "ledger_inv (ws_db s)" and run: "execute_ingest su w source lo hi restore s = (Ok summary, t)"
    and node: "recounts c (su_rpc su) history" "su_crates su = c"
    and range: "0 \<le> lo" "lo \<le> uint (block_of l)" "uint (block_of l) \<le> hi" "hi < 2 ^ 64"
    and l: "l \<in> set history" "moves c source l e"
  shows "entered (ws_db t) source l e"
proof -
  let ?lo = "i64_as_u64 lo" and ?hi = "i64_as_u64 hi"
  from run obtain options where
    i: "ingest_source_range c (su_rpc su) (postgres_ingest_repository c) (source_ref_of source)
       ?lo ?hi (wk_chunk_size w) options (ws_db s) = (Ok summary, ws_db t)" and none: "prefetched_logs options = None"
    by (fastforce simp: execute_ingest_def node(2) on_db_Ok)
  from pg.ingest_outcome [OF inv i] none obtain decoded bs where
        decoded: "decoded_logs_of_range c (su_rpc su) (source_ref_of source) ?lo ?hi (wk_chunk_size w) None = Ok decoded"
    and bs: "map (booking c (source_ref_of source)) (log_items decoded) = map Some bs"
    and ledger: "ledger_of (db_entries (ws_db t)) = fold (book (io_restore_orphaned_conflicts options)) bs (ledger_of (db_entries (ws_db s)))"
    by (auto simp: pg.ingested_def pg_bookings_def split: sum.splits)
  from l(2) obtain standard d where emitted: "emitted (so_contract_address source) l"
    and standard: "standard_from_str (so_token_standard source) = Ok standard" "standard \<noteq> Auto"
    and d: "decode_log c l standard = Ok (Some d)" "e \<in> set (dl_entries d)"
    by (auto simp: moves_def)
  let ?l = "stamped (su_rpc su) l"
  have "uint ?lo = lo" "uint ?hi = hi"
    using range by (simp_all add: i64_as_u64_def uint_word_of_int)
  then have "?lo \<le> block_of l" "block_of l \<le> ?hi" using range by (simp_all add: word_le_def)
  moreover have "topic_of c standard l" using decode_other_topic [OF standard(2), of c l] d(1) by auto
  ultimately have "asked c (so_contract_address source) standard ?lo ?hi l" using emitted by (simp add: asked_def within_def)
  moreover have "decode_logs c standard (map (stamped (su_rpc su))
      (filter (asked c (so_contract_address source) standard ?lo ?hi) history)) = Ok decoded"
    by (rule range_decoded [OF node(1) standard(2) _ _ _ decoded]) (simp_all add: source_ref_of_def standard(1))
  moreover have "decode_log c ?l standard = Ok (Some d)" using d(1) by (simp add: stamped_def decode_timestamp)
  ultimately have "(?l, d) \<in> set decoded" using l(1) by (intro decode_logs_member) auto
  with d(2) have "(?l, e) \<in> set (log_items decoded)" by (force simp: log_items_def)
  then have "booking c (source_ref_of source) (?l, e) \<in> set (map Some bs)" using bs by (metis image_eqI set_map)
  then obtain k m where km: "booking c (source_ref_of source) (?l, e) = Some (k, m)" "(k, m) \<in> set bs" by force
  then have "k \<in> fst ` set bs" by force
  from fold_book_defined [OF this] ledger have "k \<in> entry_key ` set (db_entries (ws_db t))"
    by (simp add: dom_ledger_of [symmetric] domIff)
  moreover have "log_entry_key (source_ref_of source) l (de_batch_index e) = Ok k"
    using km(1) by (auto simp: booking_def log_entry_key_def stamped_def split: sum.splits option.splits)
  ultimately show ?thesis by (auto simp: entered_def)
qed

lemma job_stocks:
  assumes "ledger_inv (ws_db s)" and "execute_job su w job s = (Ok summary, t)" and "recounts c (su_rpc su) history" and "su_crates su = c"
    and unique: "unique_key so_id (db_sources (ws_db s))"
  shows "stocked c history (ws_db t) job"
  unfolding stocked_def
proof (intro ballI allI impI, elim conjE)
  fix source l e
  assume source: "source \<in> set (db_sources (ws_db t))" and l: "l \<in> set history" "moves c source l e"
    and covers: "covers job (so_id source) (uint (block_of l))"
  from assms(2) show "entered (ws_db t) source l e"
  proof (cases rule: execute_job_cases)
    case refused
    then show ?thesis by simp
  next
    case (ran jt row lo hi observed u)
    have inv: "ledger_inv (ws_db u)" using assms(1) ran(2) by (auto intro: ledger_inv_same simp: tables_eq_iff)
    from covers ran(1) have jt: "jt = IngestRange" and range: "0 \<le> lo" "lo \<le> uint (block_of l)" "uint (block_of l) \<le> hi"
      and id: "so_id source = so_id row"
      by (auto simp: covers_def executable_def)
    from ran(1) obtain b :: u64 where "hi \<le> uint b" by (auto simp: executable_def)
    then have hi: "hi < 2 ^ 64" by (rule le_less_trans) simp
    from ran(3) jt obtain v where i: "execute_ingest su w row lo hi False u = (Ok summary, v)"
      and a: "advance_after su row lo hi observed v = (Ok (), t)"
      by (auto simp: execute_range_def seq_Ok_iff [of "execute_ingest _ _ _ _ _ _"] seq_Ok_iff [of "advance_after _ _ _ _ _"])
    have same: "ledger_view (ws_db t) = ledger_view (ws_db v)" by (rule lv.calmD [OF lv_advance_after a])
    have "db_sources (ws_db v) = db_sources (ws_db u)" using growingD [OF growing_ingest inv i] by (simp add: grows_def)
    with same source ran(2) have "source \<in> set (db_sources (ws_db s))" by (simp add: ledger_view_def tables_eq_iff)
    moreover have "row \<in> set (db_sources (ws_db s))" using ran(1) by (simp add: executable_def)
    ultimately have "source = row" using unique id by (auto intro: unique_key_eq)
    with ingest_enters [OF inv i assms(3,4) range hi l(1)] l(2) same show ?thesis
      by (simp add: entered_def ledger_view_def)
  qed
qed

section \<open>Working\<close>

text \<open>As \<open>works\<close>, where in every round the node may be another one, slower or failing, but recounts the same history.\<close>

inductive works_from :: "crates \<Rightarrow> rpc_log list \<Rightarrow> worker_state \<Rightarrow> worker_state \<Rightarrow> bool"
  for c history where
  from_start: "works_from c history s s"
| from_round: "works_from c history s t \<Longrightarrow> recounts c (su_rpc su) history \<Longrightarrow> su_crates su = c
    \<Longrightarrow> run_once su w t = (x, u) \<Longrightarrow> works_from c history s u"
| from_enqueue: "works_from c history s t \<Longrightarrow> on_db (enqueue job) t = (x, u) \<Longrightarrow> works_from c history s u"

definition complete :: "crates \<Rightarrow> rpc_log list \<Rightarrow> db \<Rightarrow> bool" where
  "complete c history d \<longleftrightarrow> ledger_inv d \<and> (\<exists>js. covering js d \<and> (\<forall>r \<in> js. stocked c history d r))"

lemma complete_view:
  assumes "ledger_inv d" and "ledger_view t = ledger_view d" and "covering js t" and "\<forall>r \<in> js. stocked c history d r"
  shows "complete c history t"
  using assms stocked_grows [OF _ grows_view refl] ledger_inv_view unfolding complete_def by blast

lemma round_complete:
  assumes "run_once su w s = (x, t)" and "complete c history (ws_db s)" and "recounts c (su_rpc su) history" and "su_crates su = c"
  shows "complete c history (ws_db t)"
proof -
  from assms(2) obtain js where inv: "ledger_inv (ws_db s)" and js: "covering js (ws_db s)" "\<forall>r \<in> js. stocked c history (ws_db s) r"
    by (auto simp: complete_def)
  from assms(1) js(1) show ?thesis
  proof (cases rule: round_steps)
    case idle
    with complete_view [OF inv _ _ js(2)] show ?thesis by blast
  next
    case (worked r u y v)
    have u: "ledger_inv (ws_db u)" "grows (ws_db s) (ws_db u)"
      using ledger_inv_view [OF inv worked(1)] grows_view [OF worked(1)] by simp_all
    note v = growingD [OF growing_execute u(1) worked(2)]
    have "unique_key so_id (db_sources (ws_db u))"
      using js(1) worked(1) by (simp add: covering_def checkpoints_covered_def covered_by_def ledger_view_def)
    then have "stocked c history (ws_db v) r" if "is_ok y"
      using that job_stocks [OF u(1) _ assms(3,4)] worked(2) by (cases y) auto
    moreover have "grows (ws_db s) (ws_db v)" using grows_trans u(2) v by blast
    ultimately have "\<forall>q \<in> js \<union> {q. is_ok y \<and> covers q = covers r}. stocked c history (ws_db v) q"
      using js(2) stocked_grows [OF _ _ refl] stocked_grows [OF _ grows_view [OF refl]] by blast
    with complete_view worked(3,4) v show ?thesis by blast
  qed
qed

lemma enqueue_ledger: "enqueue job d = (x, t) \<Longrightarrow> ledger_view t = ledger_view d \<and> db_checkpoints t = db_checkpoints d"
proof (cases x)
  case (Inl e)
  then show "enqueue job d = (x, t) \<Longrightarrow> ?thesis" using enqueue_failed by (simp add: ledger_view_def tables_eq_iff)
next
  case (Inr y)
  assume "enqueue job d = (x, t)"
  with Inr have "enqueue job d = (Ok y, t)" by simp
  then show ?thesis by (cases rule: enqueue_cases) (simp_all add: ledger_view_def)
qed

lemma works_from_complete: "works_from c history s t \<Longrightarrow> complete c history (ws_db s) \<Longrightarrow> complete c history (ws_db t)"
proof (induction rule: works_from.induct)
  case (from_round s t su w x u)
  then show ?case using round_complete by blast
next
  case (from_enqueue s t job x u)
  from from_enqueue.IH [OF from_enqueue.prems] obtain js where "ledger_inv (ws_db t)" "covering js (ws_db t)"
    "\<forall>r \<in> js. stocked c history (ws_db t) r" by (auto simp: complete_def)
  moreover from from_enqueue.hyps(2) have "enqueue job (ws_db t) = (x, ws_db u)" by (auto simp: on_db_def split: prod.splits)
  ultimately show ?case using complete_view enqueue_ledger enqueue_covering by blast
qed simp

text \<open>C5: The index is complete up to its checkpoints. Workers start where the movements of the jobs that have succeeded are
  entered, for instance where none has, and ingest from nodes that recount one history, any queries of which may
  fail, in any number of rounds, while jobs are enqueued: then for every movement in a log of a source's
  contract, from the start of the source up to the processed block of its checkpoint, the ledger has the entry
  with its identity. Whatever fails, no movement is missed.\<close>

theorem index_complete_to_checkpoint:
  assumes "works_from c history s t" and "worker_inv s" and "checkpoints_covered (ws_db s)"
    and "\<forall>r \<in> set (db_jobs (ws_db s)). jr_status r = ''succeeded'' \<longrightarrow> stocked c history (ws_db s) r"
    and "ck \<in> set (db_checkpoints (ws_db t))" and "source \<in> set (db_sources (ws_db t))" and "so_id source = ck_source_id ck"
    and "l \<in> set history" and "moves c source l e"
    and "so_start_block source \<le> uint (block_of l)" and "uint (block_of l) \<le> ck_processed_block ck"
  shows "\<exists>row \<in> set (db_entries (ws_db t)). log_entry_key (source_ref_of source) l (de_batch_index e) = Ok (entry_key row)"
proof -
  have "covering (succeeded_jobs (ws_db s)) (ws_db s)" using assms(2,3) by (simp add: covering_def worker_inv_def)
  then have "complete c history (ws_db s)" using assms(2,4) by (auto simp: complete_def worker_inv_def succeeded_jobs_def)
  with works_from_complete [OF assms(1)] obtain js where
    js: "covering js (ws_db t)" "\<forall>r \<in> js. stocked c history (ws_db t) r" by (auto simp: complete_def)
  then have "covered_by (succeeded_jobs (ws_db t)) (ws_db t)" by (simp add: covering_def checkpoints_covered_def)
  then obtain r where "r \<in> succeeded_jobs (ws_db t)" "covers r (so_id source) (uint (block_of l))"
    using assms(5-7,10,11) unfolding covered_by_def by meson
  with js assms(6,8,9) show ?thesis by (auto simp: covering_def stocked_def entered_def)
qed

text \<open>The sample queue after its job has ingested blocks 10 to 20 from a node that recounts a mint in block 16, and has
  succeeded; then another job is enqueued.\<close>

definition recounting :: surroundings where
  "recounting = mint_su\<lparr>su_rpc := mint_rpc\<lparr>rpc_logs :=
     (\<lambda>a s lo hi. Ok (filter (asked sample_crates a s lo hi) [mint_log]))\<rparr>\<rparr>"

definition leased_state :: worker_state where
  "leased_state = worker_start\<lparr>ws_db := leased_once\<rparr>"

definition ingesting :: "scan_summary result \<times> worker_state" where
  "ingesting = execute_job recounting mint_worker (hd (db_jobs leased_once)) leased_state"

definition stocked_start :: worker_state where
  "stocked_start = worker_start\<lparr>ws_db := snd (mark_succeeded 70 (ws_db (snd ingesting)))\<rparr>"

definition stocked_later :: worker_state where "stocked_later = snd (on_db (enqueue later_job) stocked_start)"

lemma leased_state_inv: "worker_inv leased_state"
proof -
  have "queue_inv source_at_job"
    using queue_inv_view [of "ws_db worker_start" source_at_job] worker_start_inv
    by (simp add: worker_inv_def source_at_job_def queue_view_def)
  then have "queue_inv leased_once"
    unfolding leased_once_def by (rule queue_step_keeps [OF step_lease [OF surjective_pairing]])
  moreover have "ledger_inv source_at_job"
    using worker_start_inv by (auto intro: ledger_inv_same simp: worker_inv_def source_at_job_def image_image)
  then have "ledger_inv leased_once"
    using lv_queue unfolding leased_once_def lv.quiet_def by (blast intro: ledger_inv_view surjective_pairing)
  ultimately show ?thesis by (simp add: worker_inv_def leased_state_def)
qed

lemma ingesting_run: "execute_job recounting mint_worker (hd (db_jobs leased_once)) leased_state = (fst ingesting, snd ingesting)"
  by (simp add: ingesting_def)

lemma recounting_node: "recounts sample_crates (su_rpc recounting) [mint_log]" "su_crates recounting = sample_crates"
  by (simp_all add: recounts_def recounting_def mint_su_def)

text \<open>One evaluation of the job, whose result everything else is read off.\<close>

lemma ingesting_view:
  "case ingesting of (r, t) \<Rightarrow> is_ok r
     \<and> (let d = snd (mark_succeeded 70 (ws_db t)) in
          map (\<lambda>c. (ck_processed_block c, ck_source_id c)) (db_checkpoints d) = [(20, 5)]
        \<and> map (\<lambda>s. (so_id s, so_start_block s, so_chain_id s, so_contract_address s, so_token_standard s)) (db_sources d)
            = [(5, 10, 1, ''0xc'', ''erc20'')]
        \<and> map entry_key (db_entries d) = [(1, ''0x20'', 0, 0)]
        \<and> map (\<lambda>r. (jr_status r, jr_source_id r, jr_job_type r, jr_from_block r, jr_to_block r)) (db_jobs d)
            = [(''succeeded'', Some 5, ''INGEST_RANGE'', Some 10, Some 20)]
        \<and> list_all checkpoint_check (db_checkpoints d))"
  by code_simp

lemma stocked_start_view:
  "map (\<lambda>c. (ck_processed_block c, ck_source_id c)) (db_checkpoints (ws_db stocked_start)) = [(20, 5)]"
  "map (\<lambda>s. (so_id s, so_start_block s, so_chain_id s, so_contract_address s, so_token_standard s))
     (db_sources (ws_db stocked_start)) = [(5, 10, 1, ''0xc'', ''erc20'')]"
  "map entry_key (db_entries (ws_db stocked_start)) = [(1, ''0x20'', 0, 0)]"
  "map (\<lambda>r. (jr_status r, jr_source_id r, jr_job_type r, jr_from_block r, jr_to_block r)) (db_jobs (ws_db stocked_start))
     = [(''succeeded'', Some 5, ''INGEST_RANGE'', Some 10, Some 20)]"
  "list_all checkpoint_check (db_checkpoints (ws_db stocked_start))" "is_ok (fst ingesting)"
  using ingesting_view by (simp_all add: stocked_start_def Let_def split_beta)

lemma mint_log_view:
  "(case decode_log sample_crates mint_log Erc20 of Ok (Some d) \<Rightarrow> map de_batch_index (dl_entries d) = [0] | _ \<Rightarrow> False)"
  "emitted ''0xc'' mint_log" "standard_from_str ''erc20'' = Ok Erc20" "block_of mint_log = 16"
  by code_simp+

lemma stocked_start_inv:
  "worker_inv stocked_start" "checkpoints_covered (ws_db stocked_start)"
  "\<forall>r \<in> set (db_jobs (ws_db stocked_start)). jr_status r = ''succeeded'' \<longrightarrow> stocked sample_crates [mint_log] (ws_db stocked_start) r"
proof -
  let ?d = "ws_db (snd ingesting)"
  have inv: "queue_inv ?d" "ledger_inv ?d"
    using soundD [OF sound_execute leased_state_inv ingesting_run] by (simp_all add: worker_inv_def)
  have "queue_inv (ws_db stocked_start)"
    using queue_step_keeps [OF step_succeeded [OF surjective_pairing] inv(1)] by (simp add: stocked_start_def)
  moreover have "ledger_view (ws_db stocked_start) = ledger_view ?d"
    using lv_queue by (simp add: stocked_start_def lv.quiet_def) (metis prod.collapse)
  ultimately show "worker_inv stocked_start" using ledger_inv_view [OF inv(2)] by (simp add: worker_inv_def)
  show "checkpoints_covered (ws_db stocked_start)"
    using stocked_start_view
    by (auto simp: checkpoints_covered_def covered_by_def checkpoints_inv_def succeeded_jobs_def covers_def map_eq_Cons_conv)
  obtain summary where "execute_job recounting mint_worker (hd (db_jobs leased_once)) leased_state = (Ok summary, snd ingesting)"
    using ingesting_run stocked_start_view(6) by (cases "fst ingesting") auto
  moreover have "unique_key so_id (db_sources (ws_db leased_state))"
  proof -
    have "map so_id (db_sources (ws_db leased_state)) = [5]" by code_simp
    then show ?thesis by (auto simp: map_eq_Cons_conv)
  qed
  ultimately have "stocked sample_crates [mint_log] ?d (hd (db_jobs leased_once))"
    using leased_state_inv recounting_node by (intro job_stocks) (auto simp: worker_inv_def)
  then have start: "stocked sample_crates [mint_log] (ws_db stocked_start) (hd (db_jobs leased_once))"
    by (rule stocked_grows [OF _ grows_view refl]) fact
  have "(jr_source_id j, jr_job_type j, jr_from_block j, jr_to_block j) = (Some 5, ''INGEST_RANGE'', Some 10, Some 20)"
    if "j = hd (db_jobs leased_once)" for j
    unfolding that by code_simp
  then have "covers r = covers (hd (db_jobs leased_once))" if "r \<in> set (db_jobs (ws_db stocked_start))" for r
    using that stocked_start_view(4) by (intro ext) (auto simp: covers_def map_eq_Cons_conv)
  with stocked_grows [OF start grows_view [OF refl]]
  show "\<forall>r \<in> set (db_jobs (ws_db stocked_start)). jr_status r = ''succeeded'' \<longrightarrow> stocked sample_crates [mint_log] (ws_db stocked_start) r"
    by blast
qed

text \<open>C5 at this queue: the checkpoint is at block 20, and the mint has its entry.\<close>

theorem index_complete_to_checkpoint_witness:
  "\<exists>ck row. db_checkpoints (ws_db stocked_later) = [ck] \<and> ck_processed_block ck = 20
     \<and> db_entries (ws_db stocked_later) = [row] \<and> log_entry_key sample_ref mint_log 0 = Ok (entry_key row)"
proof -
  have same: "db_checkpoints (ws_db stocked_later) = db_checkpoints (ws_db stocked_start)"
    "db_sources (ws_db stocked_later) = db_sources (ws_db stocked_start)" "db_entries (ws_db stocked_later) = db_entries (ws_db stocked_start)"
    using enqueue_ledger [of later_job "ws_db stocked_start"]
    by (simp_all add: stocked_later_def on_db_def ledger_view_def split: prod.split)
  from stocked_start_view(1) obtain ck where ck: "db_checkpoints (ws_db stocked_start) = [ck]" "ck_processed_block ck = 20" "ck_source_id ck = 5"
    by (auto simp: map_eq_Cons_conv)
  from stocked_start_view(2) obtain source where source: "db_sources (ws_db stocked_start) = [source]" "so_id source = 5"
    "so_start_block source = 10" "so_chain_id source = 1" "so_contract_address source = ''0xc''" "so_token_standard source = ''erc20''"
    by (auto simp: map_eq_Cons_conv)
  from mint_log_view(1) obtain d e where e: "decode_log sample_crates mint_log Erc20 = Ok (Some d)" "dl_entries d = [e]" "de_batch_index e = 0"
    by (auto simp: map_eq_Cons_conv split: sum.splits option.splits)
  have "works_from sample_crates [mint_log] stocked_start stocked_later"
    unfolding stocked_later_def by (rule from_enqueue [OF from_start surjective_pairing])
  moreover have "moves sample_crates source mint_log e" using e mint_log_view source by (auto simp: moves_def)
  ultimately have "\<exists>row \<in> set (db_entries (ws_db stocked_later)). log_entry_key (source_ref_of source) mint_log (de_batch_index e) = Ok (entry_key row)"
    by (intro index_complete_to_checkpoint [OF _ stocked_start_inv]) (use ck source mint_log_view same in auto)
  moreover have "log_entry_key (source_ref_of source) l b = log_entry_key sample_ref l b" for l b
    using source by (simp add: log_entry_key_def source_ref_of_def sample_ref_def sample_source_row_def)
  ultimately show ?thesis using ck same stocked_start_view(3) e(3) by (auto simp: map_eq_Cons_conv)
qed

end
