(* ===== verification/Ledger_Read.thy ===== *)
theory Ledger_Read
  imports Ledger_Write
begin

text \<open>
  The queries of the ledger repository (src/infra/postgres/ledger_repository.rs): the summary of a contract,
  holders, minters, missing receipts, and the pages of transfers and token paths. Where the SQL
  orders by less than a key, PostgreSQL may return ties in any order; the model keeps them in the
  order of the table.
\<close>

section \<open>Results\<close>

record contract_summary =
  cs_source_id :: uuid
  cs_chain_id :: int
  cs_contract_address :: string
  cs_token_standard :: string
  cs_start_block :: int
  cs_enabled :: bool
  cs_event_count :: int
  cs_ledger_entry_count :: int
  cs_holder_count :: int
  cs_minter_count :: int
  cs_first_indexed_block :: "int option"
  cs_last_indexed_block :: "int option"
  cs_checkpoint_processed_block :: "int option"
  cs_checkpoint_finalized_block :: "int option"

record holder_balance =
  hb_holder_address :: string
  hb_token_id :: string
  hb_balance :: string
  hb_first_received_block :: "int option"
  hb_last_moved_block :: "int option"

record minter_summary =
  ms_minter_address :: string
  ms_mint_count :: int
  ms_first_mint_block :: int
  ms_first_mint_timestamp :: "int option"
  ms_last_mint_block :: int
  ms_last_mint_timestamp :: "int option"

record ledger_transfer =
  lt_movement_type :: string
  lt_operator_address :: "string option"
  lt_from_address :: "string option"
  lt_to_address :: "string option"
  lt_token_id :: string
  lt_amount :: string
  lt_block_number :: int
  lt_block_timestamp :: "int option"
  lt_transaction_hash :: string
  lt_transaction_index :: "int option"
  lt_log_index :: int
  lt_batch_index :: int

record ledger_cursor =
  lc_block_number :: int
  lc_log_index :: int
  lc_batch_index :: int

record ledger_query =
  lq_limit :: int
  lq_cursor :: "ledger_cursor option"
  lq_from_block :: "int option"
  lq_to_block :: "int option"
  lq_holder :: "string option"
  lq_token_id :: "string option"
  lq_movement_type :: "string option"

record 'a ledger_page =
  lp_items :: "'a list"
  lp_next_cursor :: "ledger_cursor option"

datatype ledger_sort = Asc | Desc

definition holder_balance_from :: "crates \<Rightarrow> balance_row \<Rightarrow> holder_balance" where
  "holder_balance_from c r =
     \<lparr>hb_holder_address = ba_holder_address r, hb_token_id = ba_token_id r, hb_balance = balance_string c (ba_balance r),
      hb_first_received_block = ba_first_received_block r, hb_last_moved_block = ba_last_moved_block r\<rparr>"

definition ledger_transfer_from :: "crates \<Rightarrow> ledger_row \<Rightarrow> ledger_transfer" where
  "ledger_transfer_from c r =
     \<lparr>lt_movement_type = le_movement_type r, lt_operator_address = le_operator_address r,
      lt_from_address = le_from_address r, lt_to_address = le_to_address r, lt_token_id = le_token_id r,
      lt_amount = decimal_display c (le_amount r), lt_block_number = le_block_number r,
      lt_block_timestamp = le_block_timestamp r, lt_transaction_hash = le_transaction_hash r,
      lt_transaction_index = le_transaction_index r, lt_log_index = le_log_index r, lt_batch_index = le_batch_index r\<rparr>"

definition ledger_cursor_from :: "ledger_row \<Rightarrow> ledger_cursor" where
  "ledger_cursor_from r =
     \<lparr>lc_block_number = le_block_number r, lc_log_index = le_log_index r, lc_batch_index = le_batch_index r\<rparr>"

definition clamp_limit :: "int \<Rightarrow> int" where
  "clamp_limit limit = clamp_int limit 1 100"

section \<open>Missing receipts\<close>

definition live_entry_of :: "uuid \<Rightarrow> ledger_row \<Rightarrow> bool" where
  "live_entry_of sid r \<longleftrightarrow> le_source_id r = sid \<and> \<not> le_orphaned r"

definition least :: "int list \<Rightarrow> int" where
  "least xs = (case xs of [] \<Rightarrow> 0 | x # rest \<Rightarrow> fold min rest x)"

definition greatest :: "int list \<Rightarrow> int" where
  "greatest xs = (case xs of [] \<Rightarrow> 0 | x # rest \<Rightarrow> fold max rest x)"

text \<open>GROUP BY: the groups of a key, in the order of the keys.\<close>

definition group_rows :: "('r \<Rightarrow> 'k :: linorder) \<Rightarrow> 'r list \<Rightarrow> ('k \<times> 'r list) list" where
  "group_rows key rows = map (\<lambda>k. (k, filter (\<lambda>r. key r = k) rows)) (btree_set (map key rows))"

definition transaction_hashes_missing_receipts :: "uuid \<Rightarrow> int \<Rightarrow> string list db_prog" where
  "transaction_hashes_missing_receipts sid limit =
     seq connection (\<lambda>_. reads (\<lambda>d.
       let rows = filter (\<lambda>r. live_entry_of sid r
             \<and> list_all (\<lambda>q. receipt_key q \<noteq> (le_chain_id r, le_transaction_hash r)) (db_receipts d)) (db_entries d);
           first_block = (\<lambda>grp. least (map le_block_number (snd grp)))
       in take (nat (clamp_int limit 1 10000)) (map fst
            (sort_by (\<lambda>a b. first_block a < first_block b \<or> first_block a = first_block b \<and> fst a \<le> fst b)
              (group_rows le_transaction_hash rows)))))"

section \<open>Summaries\<close>

definition first_block_conn :: "uuid \<Rightarrow> int option db_prog" where
  "first_block_conn sid =
     reads (\<lambda>d. case sort_by (\<lambda>a b. a \<le> b) (map le_block_number (filter (live_entry_of sid) (db_entries d))) of
       [] \<Rightarrow> None | b # _ \<Rightarrow> Some b)"

definition last_block_conn :: "uuid \<Rightarrow> int option db_prog" where
  "last_block_conn sid =
     reads (\<lambda>d. case sort_by (\<lambda>a b. b \<le> a) (map le_block_number (filter (live_entry_of sid) (db_entries d))) of
       [] \<Rightarrow> None | b # _ \<Rightarrow> Some b)"

definition contract_summary_of :: "int \<Rightarrow> string \<Rightarrow> contract_summary option db_prog" where
  "contract_summary_of chain_id contract_address =
     seq connection (\<lambda>_.
     seq (source_by_contract_conn chain_id contract_address) (\<lambda>source.
     case source of
       None \<Rightarrow> ret None
     | Some source \<Rightarrow>
         seq (reads (\<lambda>d. int (count_rows (\<lambda>r. ev_source_id r = so_id source \<and> \<not> ev_orphaned r) (db_events d)))) (\<lambda>events.
         seq (reads (\<lambda>d. int (count_rows (live_entry_of (so_id source)) (db_entries d)))) (\<lambda>entries.
         seq (holder_count_conn (so_id source)) (\<lambda>holder_count.
         seq (minter_count_conn (so_id source)) (\<lambda>minter_count.
         seq (first_block_conn (so_id source)) (\<lambda>first_block.
         seq (last_block_conn (so_id source)) (\<lambda>last_block.
         seq (reads (\<lambda>d. List.find (\<lambda>r. ck_source_id r = so_id source) (db_checkpoints d))) (\<lambda>checkpoint.
           ret (Some
             \<lparr>cs_source_id = so_id source, cs_chain_id = so_chain_id source,
              cs_contract_address = so_contract_address source, cs_token_standard = so_token_standard source,
              cs_start_block = so_start_block source, cs_enabled = so_enabled source, cs_event_count = events,
              cs_ledger_entry_count = entries, cs_holder_count = holder_count, cs_minter_count = minter_count,
              cs_first_indexed_block = first_block, cs_last_indexed_block = last_block,
              cs_checkpoint_processed_block = map_option ck_processed_block checkpoint,
              cs_checkpoint_finalized_block = map_option ck_finalized_block checkpoint\<rparr>))))))))))"

definition holders :: "crates \<Rightarrow> int \<Rightarrow> string \<Rightarrow> int \<Rightarrow> holder_balance list option db_prog" where
  "holders c chain_id contract_address limit =
     seq connection (\<lambda>_.
     seq (source_by_contract_conn chain_id contract_address) (\<lambda>source.
     case source of
       None \<Rightarrow> ret None
     | Some source \<Rightarrow>
         seq (top_holders_conn (so_id source) (clamp_limit limit)) (\<lambda>rows.
           ret (Some (map (holder_balance_from c) rows)))))"

text \<open>The timestamp of the first row of a block in a given order, as the lateral joins select it.\<close>

definition timestamp_in :: "(ledger_row \<Rightarrow> ledger_row \<Rightarrow> bool) \<Rightarrow> int \<Rightarrow> ledger_row list \<Rightarrow> int option" where
  "timestamp_in le block rows =
     (case sort_by le (filter (\<lambda>r. le_block_number r = block) rows) of
        [] \<Rightarrow> None | r # _ \<Rightarrow> le_block_timestamp r)"

definition log_order :: "ledger_row \<Rightarrow> ledger_row \<Rightarrow> bool" where
  "log_order a b \<longleftrightarrow>
     le_log_index a < le_log_index b \<or> le_log_index a = le_log_index b \<and> le_batch_index a \<le> le_batch_index b"

definition minter_of_group :: "string \<times> ledger_row list \<Rightarrow> minter_summary" where
  "minter_of_group grp =
     (let rows = snd grp;
          first_block = least (map le_block_number rows);
          last_block = greatest (map le_block_number rows)
      in \<lparr>ms_minter_address = fst grp,
          ms_mint_count = int (length rows),
          ms_first_mint_block = first_block,
          ms_first_mint_timestamp = timestamp_in log_order first_block rows,
          ms_last_mint_block = last_block,
          ms_last_mint_timestamp = timestamp_in (\<lambda>a b. log_order b a) last_block rows\<rparr>)"

definition minter_order :: "minter_summary \<Rightarrow> minter_summary \<Rightarrow> bool" where
  "minter_order a b \<longleftrightarrow>
     ms_mint_count b < ms_mint_count a
     \<or> ms_mint_count a = ms_mint_count b
       \<and> (ms_first_mint_block a < ms_first_mint_block b
          \<or> ms_first_mint_block a = ms_first_mint_block b \<and> ms_minter_address a \<le> ms_minter_address b)"

definition minter_address :: "ledger_row \<Rightarrow> string" where
  "minter_address r = (case le_to_address r of Some a \<Rightarrow> a | None \<Rightarrow> [])"

definition top_minters_conn :: "uuid \<Rightarrow> int \<Rightarrow> minter_summary list db_prog" where
  "top_minters_conn sid limit =
     reads (\<lambda>d. take (nat (clamp_int limit 1 100)) (sort_by minter_order
       (map minter_of_group (group_rows minter_address (filter (live_mint sid) (db_entries d))))))"

definition minters :: "int \<Rightarrow> string \<Rightarrow> int \<Rightarrow> minter_summary list option db_prog" where
  "minters chain_id contract_address limit =
     seq connection (\<lambda>_.
     seq (source_by_contract_conn chain_id contract_address) (\<lambda>source.
     case source of
       None \<Rightarrow> ret None
     | Some source \<Rightarrow> seq (top_minters_conn (so_id source) (clamp_limit limit)) (\<lambda>rows. ret (Some rows))))"

section \<open>Pages\<close>

definition holder_matches :: "string option \<Rightarrow> ledger_row \<Rightarrow> bool" where
  "holder_matches holder r \<longleftrightarrow>
     (case holder of None \<Rightarrow> True
      | Some h \<Rightarrow> le_from_address r = Some (to_ascii_lowercase h) \<or> le_to_address r = Some (to_ascii_lowercase h))"

definition query_matches :: "uuid \<Rightarrow> ledger_query \<Rightarrow> ledger_row \<Rightarrow> bool" where
  "query_matches sid q r \<longleftrightarrow>
     live_entry_of sid r
     \<and> (case lq_from_block q of None \<Rightarrow> True | Some b \<Rightarrow> b \<le> le_block_number r)
     \<and> (case lq_to_block q of None \<Rightarrow> True | Some b \<Rightarrow> le_block_number r \<le> b)
     \<and> holder_matches (lq_holder q) r
     \<and> (case lq_token_id q of None \<Rightarrow> True | Some t \<Rightarrow> le_token_id r = t)
     \<and> (case lq_movement_type q of None \<Rightarrow> True | Some m \<Rightarrow> le_movement_type r = to_ascii_lowercase m)"

definition after_cursor :: "ledger_sort \<Rightarrow> ledger_cursor \<Rightarrow> ledger_row \<Rightarrow> bool" where
  "after_cursor dir cur r \<longleftrightarrow>
     (case dir of
        Asc \<Rightarrow>
          lc_block_number cur < le_block_number r
          \<or> le_block_number r = lc_block_number cur \<and> lc_log_index cur < le_log_index r
          \<or> le_block_number r = lc_block_number cur \<and> le_log_index r = lc_log_index cur
            \<and> lc_batch_index cur < le_batch_index r
      | Desc \<Rightarrow>
          le_block_number r < lc_block_number cur
          \<or> le_block_number r = lc_block_number cur \<and> le_log_index r < lc_log_index cur
          \<or> le_block_number r = lc_block_number cur \<and> le_log_index r = lc_log_index cur
            \<and> le_batch_index r < lc_batch_index cur)"

definition row_order :: "ledger_sort \<Rightarrow> ledger_row \<Rightarrow> ledger_row \<Rightarrow> bool" where
  "row_order dir a b \<longleftrightarrow>
     (case dir of
        Asc \<Rightarrow> position_le (entry_position a) (entry_position b)
      | Desc \<Rightarrow> position_le (entry_position b) (entry_position a))"

definition page_rows :: "uuid \<Rightarrow> ledger_query \<Rightarrow> ledger_sort \<Rightarrow> ledger_row list \<Rightarrow> ledger_row list" where
  "page_rows sid q dir rows =
     sort_by (row_order dir) (filter (\<lambda>r. query_matches sid q r
       \<and> (case lq_cursor q of None \<Rightarrow> True | Some cur \<Rightarrow> after_cursor dir cur r)) rows)"

definition ledger_page_conn ::
  "crates \<Rightarrow> uuid \<Rightarrow> ledger_query \<Rightarrow> ledger_sort \<Rightarrow> ledger_transfer ledger_page db_prog"
where
  "ledger_page_conn c sid q dir =
     reads (\<lambda>d.
       let limit = nat (clamp_limit (lq_limit q));
           rows = take (limit + 1) (page_rows sid q dir (db_entries d));
           (rows, next_cursor) =
             (if length rows > limit then (take limit rows, Some (ledger_cursor_from (last (take limit rows))))
              else (rows, None))
       in \<lparr>lp_items = map (ledger_transfer_from c) rows, lp_next_cursor = next_cursor\<rparr>)"

definition transfers_page :: "crates \<Rightarrow> int \<Rightarrow> string \<Rightarrow> ledger_query \<Rightarrow> ledger_transfer ledger_page option db_prog" where
  "transfers_page c chain_id contract_address q =
     seq connection (\<lambda>_.
     seq (source_by_contract_conn chain_id contract_address) (\<lambda>source.
     case source of
       None \<Rightarrow> ret None
     | Some source \<Rightarrow> seq (ledger_page_conn c (so_id source) q Desc) (\<lambda>page. ret (Some page))))"

definition whole_query :: "int \<Rightarrow> ledger_query" where
  "whole_query limit =
     \<lparr>lq_limit = limit, lq_cursor = None, lq_from_block = None, lq_to_block = None, lq_holder = None,
      lq_token_id = None, lq_movement_type = None\<rparr>"

definition transfers :: "crates \<Rightarrow> int \<Rightarrow> string \<Rightarrow> int \<Rightarrow> ledger_transfer list option db_prog" where
  "transfers c chain_id contract_address limit =
     seq (transfers_page c chain_id contract_address (whole_query limit)) (\<lambda>page. ret (map_option lp_items page))"

definition token_path_page ::
  "crates \<Rightarrow> int \<Rightarrow> string \<Rightarrow> string \<Rightarrow> ledger_query \<Rightarrow> ledger_transfer ledger_page option db_prog"
where
  "token_path_page c chain_id contract_address token_id q =
     seq connection (\<lambda>_.
     seq (source_by_contract_conn chain_id contract_address) (\<lambda>source.
     case source of
       None \<Rightarrow> ret None
     | Some source \<Rightarrow>
         seq (ledger_page_conn c (so_id source) (q\<lparr>lq_token_id := Some token_id\<rparr>) Asc) (\<lambda>page. ret (Some page))))"

definition token_path :: "crates \<Rightarrow> int \<Rightarrow> string \<Rightarrow> string \<Rightarrow> int \<Rightarrow> ledger_transfer list option db_prog" where
  "token_path c chain_id contract_address token_id limit =
     seq (token_path_page c chain_id contract_address token_id (whole_query limit)) (\<lambda>page. ret (map_option lp_items page))"

end
