(* ===== verification/Api.thy ===== *)
theory Api
  imports Ledger_Read
begin

text \<open>
  The HTTP interface (src/api/mod.rs): validation of paths and queries, cursors, the handlers, the
  mapping of errors to responses and the request identifier. The web framework supplies typed path
  and query parameters, so a request is a value of \<open>route\<close>; serialisation to JSON is the
  framework's, so a response keeps the structure of its body. What the framework and the header
  type do is in the record \<open>web\<close>.
\<close>

section \<open>Errors\<close>

datatype anyhow = Message string | Failure app_error

datatype api_error = BadRequest string | NotFound string | Internal anyhow

definition bad_request :: "string \<Rightarrow> api_error" where
  "bad_request message = BadRequest message"

definition not_found :: "string \<Rightarrow> api_error" where
  "not_found message = NotFound message"

definition internal :: "string \<Rightarrow> api_error" where
  "internal message = Internal (Message message)"

section \<open>Validation\<close>

definition normalize_evm_address :: "string \<Rightarrow> string \<Rightarrow> api_error + string" where
  "normalize_evm_address value field =
     (let normalized = to_ascii_lowercase value
      in if length normalized \<noteq> 42 \<or> \<not> starts_with ''0x'' normalized
            \<or> \<not> list_all is_ascii_hexdigit (drop 2 normalized)
         then Err (bad_request (''invalid EVM '' @ field @ '' address'')) else Ok normalized)"

definition normalize_contract_address :: "string \<Rightarrow> api_error + string" where
  "normalize_contract_address value = normalize_evm_address value ''contract''"

definition normalize_holder_address :: "string \<Rightarrow> api_error + string" where
  "normalize_holder_address value = normalize_evm_address value ''holder''"

definition limit_or_default :: "int option \<Rightarrow> int \<Rightarrow> api_error + int" where
  "limit_or_default limit fallback =
     (let limit = (case limit of Some l \<Rightarrow> l | None \<Rightarrow> fallback)
      in if \<not> (1 \<le> limit \<and> limit \<le> 100) then Err (bad_request ''limit must be between 1 and 100'') else Ok limit)"

definition parse_cursor :: "string \<Rightarrow> api_error + ledger_cursor" where
  "parse_cursor value =
     (case split_on (CHR '':'') value of
        [p0, p1, p2] \<Rightarrow>
          and_then (ok_or (bad_request ''invalid cursor'') (parse_i64 p0)) (\<lambda>block_number.
          and_then (ok_or (bad_request ''invalid cursor'') (parse_i32 p1)) (\<lambda>log_index.
          and_then (ok_or (bad_request ''invalid cursor'') (parse_i32 p2)) (\<lambda>batch_index.
            if block_number < 0 \<or> log_index < 0 \<or> batch_index < 0 then Err (bad_request ''invalid cursor'')
            else Ok \<lparr>lc_block_number = block_number, lc_log_index = log_index, lc_batch_index = batch_index\<rparr>)))
      | _ \<Rightarrow> Err (bad_request ''invalid cursor''))"

definition encode_cursor :: "ledger_cursor \<Rightarrow> string" where
  "encode_cursor cur =
     show_int (lc_block_number cur) @ '':'' @ show_int (lc_log_index cur) @ '':'' @ show_int (lc_batch_index cur)"

definition normalize_movement_type :: "string \<Rightarrow> api_error + string" where
  "normalize_movement_type value =
     (let value = to_ascii_lowercase value
      in if value \<noteq> ''mint'' \<and> value \<noteq> ''transfer'' \<and> value \<noteq> ''burn''
         then Err (bad_request ''movement_type must be mint, transfer, or burn'') else Ok value)"

record ledger_page_query =
  pq_limit :: "int option"
  pq_cursor :: "string option"
  pq_from_block :: "int option"
  pq_to_block :: "int option"
  pq_holder :: "string option"
  pq_token_id :: "string option"
  pq_movement_type :: "string option"

definition to_ledger_query :: "ledger_page_query \<Rightarrow> int \<Rightarrow> api_error + ledger_query" where
  "to_ledger_query q default_limit =
     and_then (limit_or_default (pq_limit q) default_limit) (\<lambda>limit.
     and_then (case pq_from_block q of
         Some b \<Rightarrow> ensure (\<not> b < 0) (bad_request ''from_block cannot be negative'') | None \<Rightarrow> Ok ()) (\<lambda>_.
     and_then (case pq_to_block q of
         Some b \<Rightarrow> ensure (\<not> b < 0) (bad_request ''to_block cannot be negative'') | None \<Rightarrow> Ok ()) (\<lambda>_.
     and_then (case (pq_from_block q, pq_to_block q) of
         (Some a, Some b) \<Rightarrow> ensure (\<not> a > b) (bad_request ''from_block cannot be greater than to_block'')
       | _ \<Rightarrow> Ok ()) (\<lambda>_.
     and_then (transpose (map_option parse_cursor (pq_cursor q))) (\<lambda>cursor.
     and_then (transpose (map_option normalize_holder_address (pq_holder q))) (\<lambda>holder.
     and_then (transpose (map_option normalize_movement_type (pq_movement_type q))) (\<lambda>movement_type.
       Ok \<lparr>lq_limit = limit, lq_cursor = cursor, lq_from_block = pq_from_block q, lq_to_block = pq_to_block q,
           lq_holder = holder, lq_token_id = pq_token_id q, lq_movement_type = movement_type\<rparr>)))))))"

section \<open>Handlers\<close>

record 'a page_response =
  pr_items :: "'a list"
  pr_next_cursor :: "string option"

definition page_response_from :: "'a ledger_page \<Rightarrow> 'a page_response" where
  "page_response_from page =
     \<lparr>pr_items = lp_items page, pr_next_cursor = map_option encode_cursor (lp_next_cursor page)\<rparr>"

text \<open>
  What lies outside: the runtime may fail to finish a blocking task (\<open>join_error\<close>), an error
  has a text, the metrics have an encoding, and the header type accepts some values.
\<close>

record web =
  join_error :: "string option"
  error_text :: "app_error \<Rightarrow> string"
  encoded_metrics :: "string + string"
  header_to_str :: "string \<Rightarrow> string option"
  header_from_str :: "string \<Rightarrow> bool"
  w_crates :: crates

type_synonym 'a handler = "db \<Rightarrow> (api_error + 'a) \<times> db"

definition blocking :: "web \<Rightarrow> 'a db_prog \<Rightarrow> 'a handler" where
  "blocking w operation = (\<lambda>d.
     case join_error w of
       Some error \<Rightarrow> (Err (internal (''blocking task failed: '' @ error)), d)
     | None \<Rightarrow> (case operation d of (Err e, t) \<Rightarrow> (Err (Internal (Failure e)), t) | (Ok a, t) \<Rightarrow> (Ok a, t)))"

definition found :: "'a option \<Rightarrow> api_error + 'a" where
  "found x = ok_or (not_found ''contract source not found'') x"

definition contract_summary_handler :: "web \<Rightarrow> int \<Rightarrow> string \<Rightarrow> contract_summary handler" where
  "contract_summary_handler w chain_id contract_address =
     seq (lift (normalize_contract_address contract_address)) (\<lambda>contract_address.
     seq (blocking w (contract_summary_of chain_id contract_address)) (\<lambda>summary.
       lift (found summary)))"

definition contract_holders :: "web \<Rightarrow> int \<Rightarrow> string \<Rightarrow> int option \<Rightarrow> holder_balance list handler" where
  "contract_holders w chain_id contract_address query =
     seq (lift (normalize_contract_address contract_address)) (\<lambda>contract_address.
     seq (lift (limit_or_default query 50)) (\<lambda>limit.
     seq (blocking w (holders (w_crates w) chain_id contract_address limit)) (\<lambda>rows.
       lift (found rows))))"

definition contract_minters :: "web \<Rightarrow> int \<Rightarrow> string \<Rightarrow> int option \<Rightarrow> minter_summary list handler" where
  "contract_minters w chain_id contract_address query =
     seq (lift (normalize_contract_address contract_address)) (\<lambda>contract_address.
     seq (lift (limit_or_default query 50)) (\<lambda>limit.
     seq (blocking w (minters chain_id contract_address limit)) (\<lambda>rows.
       lift (found rows))))"

definition contract_transfers ::
  "web \<Rightarrow> int \<Rightarrow> string \<Rightarrow> ledger_page_query \<Rightarrow> ledger_transfer page_response handler"
where
  "contract_transfers w chain_id contract_address query =
     seq (lift (normalize_contract_address contract_address)) (\<lambda>contract_address.
     seq (lift (to_ledger_query query 50)) (\<lambda>query.
     seq (blocking w (transfers_page (w_crates w) chain_id contract_address query)) (\<lambda>page.
     seq (lift (found page)) (\<lambda>page.
       ret (page_response_from page)))))"

definition token_path_handler ::
  "web \<Rightarrow> int \<Rightarrow> string \<Rightarrow> string \<Rightarrow> ledger_page_query \<Rightarrow> ledger_transfer page_response handler"
where
  "token_path_handler w chain_id contract_address token_id query =
     seq (lift (normalize_contract_address contract_address)) (\<lambda>contract_address.
     seq (lift (to_ledger_query query 100)) (\<lambda>query.
     seq (blocking w (token_path_page (w_crates w) chain_id contract_address token_id query)) (\<lambda>page.
     seq (lift (found page)) (\<lambda>page.
       ret (page_response_from page)))))"

section \<open>Responses\<close>

datatype body =
    HealthBody string
  | MetricsBody string
  | SummaryBody contract_summary
  | HoldersBody "holder_balance list"
  | MintersBody "minter_summary list"
  | PageBody "ledger_transfer page_response"
  | ErrorBody (error_class: string) (error_message: string) (error_request_id: string)

record response =
  rs_status :: int
  rs_body :: body
  rs_request_id :: "string option"

definition json :: "body \<Rightarrow> response" where
  "json b = \<lparr>rs_status = 200, rs_body = b, rs_request_id = None\<rparr>"

definition anyhow_text :: "web \<Rightarrow> anyhow \<Rightarrow> string" where
  "anyhow_text w e = (case e of Message m \<Rightarrow> m | Failure f \<Rightarrow> error_text w f)"

text \<open>\<open>into_response\<close> reads the identifier of the current request, or none outside one.\<close>

definition error_response :: "web \<Rightarrow> string option \<Rightarrow> api_error \<Rightarrow> response" where
  "error_response w current e =
     (let request_id = (case current of Some i \<Rightarrow> i | None \<Rightarrow> ''unknown'');
          (status, class, message) =
            (case e of
               BadRequest message \<Rightarrow> (400, ''BadRequest'', message)
             | NotFound message \<Rightarrow> (404, ''NotFound'', message)
             | Internal error \<Rightarrow> (500, ''Internal'', anyhow_text w error))
      in \<lparr>rs_status = status, rs_body = ErrorBody class message request_id, rs_request_id = None\<rparr>)"

definition prometheus_response :: "web \<Rightarrow> response" where
  "prometheus_response w =
     (case encoded_metrics w of
        Inr text \<Rightarrow> json (MetricsBody text)
      | Inl error \<Rightarrow> \<lparr>rs_status = 500, rs_body = MetricsBody (''encode metrics: '' @ error), rs_request_id = None\<rparr>)"

definition respond :: "web \<Rightarrow> string option \<Rightarrow> ('a \<Rightarrow> body) \<Rightarrow> 'a handler \<Rightarrow> db \<Rightarrow> response \<times> db" where
  "respond w current wrap h d =
     (case h d of
        (Ok a, t) \<Rightarrow> (json (wrap a), t)
      | (Err e, t) \<Rightarrow> (error_response w current e, t))"

datatype route =
    Health
  | MetricsRoute
  | Summary int string
  | Holders int string "int option"
  | Minters int string "int option"
  | Transfers int string ledger_page_query
  | TokenPath int string string ledger_page_query

fun serve :: "web \<Rightarrow> string option \<Rightarrow> route \<Rightarrow> db \<Rightarrow> response \<times> db" where
  "serve w current Health d = (json (HealthBody ''ok''), d)"
| "serve w current MetricsRoute d = (prometheus_response w, d)"
| "serve w current (Summary chain contract) d =
     respond w current SummaryBody (contract_summary_handler w chain contract) d"
| "serve w current (Holders chain contract limit) d =
     respond w current HoldersBody (contract_holders w chain contract limit) d"
| "serve w current (Minters chain contract limit) d =
     respond w current MintersBody (contract_minters w chain contract limit) d"
| "serve w current (Transfers chain contract query) d =
     respond w current PageBody (contract_transfers w chain contract query) d"
| "serve w current (TokenPath chain contract token query) d =
     respond w current PageBody (token_path_handler w chain contract token query) d"

text \<open>\<open>given\<close> is the value of the request's header, \<open>fresh\<close> the identifier drawn if it is not usable.\<close>

definition request_id_of :: "web \<Rightarrow> string option \<Rightarrow> string \<Rightarrow> string" where
  "request_id_of w given fresh =
     (case Option.bind given (header_to_str w) of
        Some value \<Rightarrow> if trim value = [] then fresh else value
      | None \<Rightarrow> fresh)"

definition request_id_middleware ::
  "web \<Rightarrow> string option \<Rightarrow> string \<Rightarrow> route \<Rightarrow> db \<Rightarrow> response \<times> db"
where
  "request_id_middleware w given fresh route d =
     (let request_id = request_id_of w given fresh;
          (response, t) = serve w (Some request_id) route d
      in (if header_from_str w request_id then response\<lparr>rs_request_id := Some request_id\<rparr> else response, t))"

end
