(* ===== verification/Ledger_Pages.thy ===== *)
theory Ledger_Pages
  imports Ledger_Read
begin

text \<open>
  The pages of the ledger. Filtering commutes with the stable sort, so the rows after the cursor
  of a page are the rest of the sorted rows; a client that follows the cursors therefore sees
  every row once, in order. The argument about following is stated for any source of pages
  (\<open>follow_pages\<close>), so that the repository and the HTTP interface share it.
\<close>

section \<open>Filtering and sorting\<close>

lemma insert_by_all: "(\<And>y. y \<in> set ys \<Longrightarrow> le x y) \<Longrightarrow> insert_by le x ys = x # ys"
  by (cases ys) auto

lemma filter_insert_by:
  assumes "\<And>a b c. le a b \<Longrightarrow> le b c \<Longrightarrow> le a c" and "sorted_wrt le ys"
  shows "filter P (insert_by le x ys) = (if P x then insert_by le x (filter P ys) else filter P ys)"
  using assms(2)
proof (induction ys)
  case Nil
  show ?case by simp
next
  case (Cons y ys)
  show ?case
  proof (cases "le x y")
    case True
    have "le x z" if "z \<in> set (filter P (y # ys))" for z
      using that True Cons.prems assms(1) [OF True, of z] by (auto split: if_splits)
    then have "insert_by le x (filter P (y # ys)) = x # filter P (y # ys)" by (rule insert_by_all)
    with True show ?thesis by simp
  next
    case False
    with Cons show ?thesis by simp
  qed
qed

lemma filter_sort_by:
  assumes "\<And>a b. le a b \<or> le b a" and "\<And>a b c. le a b \<Longrightarrow> le b c \<Longrightarrow> le a c"
  shows "filter P (sort_by le xs) = sort_by le (filter P xs)"
proof (induction xs)
  case Nil
  show ?case by (simp add: sort_by_def)
next
  case (Cons x xs)
  have "sort_by le (x # xs) = insert_by le x (sort_by le xs)" by (simp add: sort_by_def)
  with Cons filter_insert_by [OF assms(2) sorted_sort_by [OF assms], where P = P and x = x] show ?case
    by (simp add: sort_by_def)
qed

section \<open>Following cursors\<close>

fun follow_pages ::
  "nat \<Rightarrow> ('cur option \<Rightarrow> ('a list \<times> 'cur option) option) \<Rightarrow> 'cur option \<Rightarrow> 'a list list option"
where
  "follow_pages 0 get cur = None"
| "follow_pages (Suc n) get cur =
     (case get cur of
        None \<Rightarrow> None
      | Some (items, None) \<Rightarrow> Some [items]
      | Some (items, Some cursor) \<Rightarrow> map_option ((#) items) (follow_pages n get (Some cursor)))"

text \<open>What a sequence of pages of a list is: full pages, and a last one with the rest.\<close>

definition paginates :: "nat \<Rightarrow> 'a list list \<Rightarrow> 'a list \<Rightarrow> bool" where
  "paginates m ps xs \<longleftrightarrow>
     concat ps = xs \<and> ps \<noteq> [] \<and> list_all (\<lambda>p. length p = m) (butlast ps) \<and> length (last ps) \<le> m"

lemma paginates_last: "length xs \<le> m \<Longrightarrow> paginates m [xs] xs"
  by (simp add: paginates_def)

lemma paginates_cons: "paginates m ps xs \<Longrightarrow> length p = m \<Longrightarrow> paginates m (p # ps) (p @ xs)"
  by (auto simp: paginates_def)

lemma follow_pages_covers:
  fixes left :: "'cur option \<Rightarrow> 'r list"
  assumes page: "\<And>cur. valid cur \<Longrightarrow> get cur = Some (map g (take m (left cur)),
      if m < length (left cur) then Some (e (left cur ! (m - 1))) else None)"
    and resume: "\<And>cur. valid cur \<Longrightarrow> m < length (left cur) \<Longrightarrow>
      valid (Some (e (left cur ! (m - 1)))) \<and> left (Some (e (left cur ! (m - 1)))) = drop m (left cur)"
    and m: "0 < m" and start: "valid cur" and fuel: "length (left cur) < n"
  shows "\<exists>ps. follow_pages n get cur = Some ps \<and> paginates m ps (map g (left cur))"
  using start fuel
proof (induction n arbitrary: cur)
  case 0
  then show ?case by simp
next
  case (Suc n)
  show ?case
  proof (cases "m < length (left cur)")
    case False
    with page [OF Suc.prems(1)] show ?thesis by (simp add: paginates_last)
  next
    case True
    let ?next = "Some (e (left cur ! (m - 1)))"
    from resume [OF Suc.prems(1) True] have v: "valid ?next" and rest: "left ?next = drop m (left cur)" by auto
    moreover have "length (left ?next) < n" using rest Suc.prems(2) True m by simp
    ultimately obtain ps where ps: "follow_pages n get ?next = Some ps" "paginates m ps (map g (left ?next))"
      using Suc.IH by blast
    have "follow_pages (Suc n) get cur = Some (map g (take m (left cur)) # ps)"
      using page [OF Suc.prems(1)] True ps(1) by simp
    moreover have "paginates m (map g (take m (left cur)) # ps) (map g (take m (left cur)) @ map g (left ?next))"
      by (rule paginates_cons [OF ps(2)]) (use True in simp)
    ultimately show ?thesis using rest by (metis append_take_drop_id map_append)
  qed
qed

section \<open>The rows after a cursor\<close>

lemma row_order_total: "row_order dir a b \<or> row_order dir b a"
  by (cases dir) (auto simp: row_order_def position_le_def entry_position_def)

lemma row_order_trans: "row_order dir a b \<Longrightarrow> row_order dir b c \<Longrightarrow> row_order dir a c"
  by (cases dir) (auto simp: row_order_def position_le_def entry_position_def)

lemma after_cursor_iff: "after_cursor dir (ledger_cursor_from a) b \<longleftrightarrow> \<not> row_order dir b a"
  by (cases dir) (auto simp: row_order_def position_le_def entry_position_def after_cursor_def ledger_cursor_from_def)

lemma after_cursor_trans:
  "after_cursor dir cur a \<Longrightarrow> after_cursor dir (ledger_cursor_from a) b \<Longrightarrow> after_cursor dir cur b"
  by (cases dir) (auto simp: after_cursor_def ledger_cursor_from_def)

lemma row_order_antisym: "row_order dir a b \<Longrightarrow> row_order dir b a \<Longrightarrow> entry_position a = entry_position b"
  by (cases dir) (auto simp: row_order_def position_le_def entry_position_def)

lemma filter_after_nth:
  assumes "sorted_wrt (row_order dir) xs" and "distinct (map entry_position xs)" and "i < length xs"
  shows "filter (after_cursor dir (ledger_cursor_from (xs ! i))) xs = drop (Suc i) xs"
proof -
  let ?P = "after_cursor dir (ledger_cursor_from (xs ! i))"
  have "\<not> ?P r" if "r \<in> set (take (Suc i) xs)" for r
  proof -
    from that assms(3) obtain j where j: "j \<le> i" "r = xs ! j"
      by (auto simp: in_set_conv_nth less_Suc_eq_le)
    with assms(1,3) row_order_total [of dir r r] have "row_order dir r (xs ! i)"
      by (cases "j = i") (auto simp: sorted_wrt_iff_nth_less)
    then show ?thesis by (simp add: after_cursor_iff)
  qed
  moreover have "?P r" if "r \<in> set (drop (Suc i) xs)" for r
  proof -
    from that obtain j where "j < length (drop (Suc i) xs)" "r = drop (Suc i) xs ! j"
      by (metis in_set_conv_nth)
    then have j: "i < Suc i + j" "Suc i + j < length xs" "r = xs ! (Suc i + j)" by auto
    then have "row_order dir (xs ! i) r" "entry_position (xs ! i) \<noteq> entry_position r"
      using assms(1) nth_eq_iff_index_eq [OF assms(2), of i "Suc i + j"] by (auto simp: sorted_wrt_iff_nth_less)
    then show ?thesis using row_order_antisym by (auto simp: after_cursor_iff)
  qed
  moreover have "filter ?P xs = filter ?P (take (Suc i) xs) @ filter ?P (drop (Suc i) xs)"
    by (metis append_take_drop_id filter_append)
  ultimately show ?thesis by simp
qed

lemma query_matches_cursor [simp]: "query_matches sid (q\<lparr>lq_cursor := cur\<rparr>) = query_matches sid q"
  by (rule ext) (simp add: query_matches_def)

lemma page_rows_filter:
  "page_rows sid (q\<lparr>lq_cursor := Some cur\<rparr>) dir rows
     = filter (after_cursor dir cur) (page_rows sid (q\<lparr>lq_cursor := None\<rparr>) dir rows)"
proof -
  have "page_rows sid (q\<lparr>lq_cursor := Some cur\<rparr>) dir rows
      = sort_by (row_order dir) (filter (after_cursor dir cur) (filter (query_matches sid q) rows))"
    by (simp add: page_rows_def conj_commute)
  also have "\<dots> = filter (after_cursor dir cur) (sort_by (row_order dir) (filter (query_matches sid q) rows))"
    by (rule filter_sort_by [symmetric]) (rule row_order_total, rule row_order_trans)
  finally show ?thesis by (simp add: page_rows_def)
qed

text \<open>The matching rows of a query without its cursor, in page order, and that their positions differ.\<close>

definition matching_rows :: "uuid \<Rightarrow> ledger_query \<Rightarrow> ledger_sort \<Rightarrow> ledger_row list \<Rightarrow> ledger_row list" where
  "matching_rows sid q dir rows = page_rows sid (q\<lparr>lq_cursor := None\<rparr>) dir rows"

definition positions_differ :: "uuid \<Rightarrow> ledger_query \<Rightarrow> ledger_row list \<Rightarrow> bool" where
  "positions_differ sid q rows \<longleftrightarrow> distinct (map entry_position (filter (query_matches sid q) rows))"

lemma matching_rows_sorted: "sorted_wrt (row_order dir) (matching_rows sid q dir rows)"
  unfolding matching_rows_def page_rows_def by (rule sorted_sort_by) (rule row_order_total, rule row_order_trans)

lemma set_matching_rows: "set (matching_rows sid q dir rows) = {r \<in> set rows. query_matches sid q r}"
  by (auto simp: matching_rows_def page_rows_def)

lemma distinct_map_sort_by: "distinct (map f (sort_by le xs)) = distinct (map f xs)"
  by (simp add: distinct_map)

lemma matching_rows_distinct:
  "positions_differ sid q rows \<Longrightarrow> distinct (map entry_position (matching_rows sid q dir rows))"
  by (simp add: positions_differ_def matching_rows_def page_rows_def distinct_map_sort_by)

lemma page_rows_resume:
  assumes "positions_differ sid q rows" and i: "i < length (page_rows sid (q\<lparr>lq_cursor := cur\<rparr>) dir rows)"
    and suffix: "page_rows sid (q\<lparr>lq_cursor := cur\<rparr>) dir rows = drop k (matching_rows sid q dir rows)"
  shows "page_rows sid (q\<lparr>lq_cursor := Some (ledger_cursor_from (page_rows sid (q\<lparr>lq_cursor := cur\<rparr>) dir rows ! i))\<rparr>) dir rows
    = drop (Suc i) (page_rows sid (q\<lparr>lq_cursor := cur\<rparr>) dir rows)"
proof -
  let ?all = "matching_rows sid q dir rows"
  have at: "page_rows sid (q\<lparr>lq_cursor := cur\<rparr>) dir rows ! i = ?all ! (k + i)"
    using i suffix by (simp add: add.commute)
  have "filter (after_cursor dir (ledger_cursor_from (?all ! (k + i)))) ?all = drop (Suc (k + i)) ?all"
    by (rule filter_after_nth [OF matching_rows_sorted matching_rows_distinct [OF assms(1)]]) (use i suffix in simp)
  then show ?thesis
    using suffix at by (simp add: page_rows_filter matching_rows_def [symmetric] add.commute)
qed

section \<open>The page of a query\<close>

lemma clamp_limit_bounds: "1 \<le> clamp_limit limit" "clamp_limit limit \<le> 100"
  using clamp_int_bounds [of 1 100 limit] by (auto simp: clamp_limit_def)

lemma ledger_page_conn_run:
  fixes q d sid dir
  defines "m \<equiv> nat (clamp_limit (lq_limit q))" and "xs \<equiv> page_rows sid q dir (db_entries d)"
  shows "ledger_page_conn c sid q dir d =
    (Ok \<lparr>lp_items = map (ledger_transfer_from c) (take m xs),
         lp_next_cursor = (if m < length xs then Some (ledger_cursor_from (xs ! (m - 1))) else None)\<rparr>, d)"
proof -
  have "0 < m" using clamp_limit_bounds(1) [of "lq_limit q"] by (simp add: m_def)
  then have "m < length xs \<Longrightarrow> last (take m xs) = xs ! (m - 1)"
    by (subst last_conv_nth) (auto simp: min_def)
  then show ?thesis
    unfolding ledger_page_conn_def reads_def Let_def m_def [symmetric] xs_def [symmetric] by auto
qed

lemma transfers_page_run:
  assumes "pool_available (db_env d)" and "List.find (\<lambda>r. source_key r = (chain, to_ascii_lowercase contract)) (db_sources d) = Some s"
  shows "transfers_page c chain contract q d
    = (case ledger_page_conn c (so_id s) q Desc d of (Ok p, t) \<Rightarrow> (Ok (Some p), t) | (Err e, t) \<Rightarrow> (Err e, t))"
  using assms by (auto simp: transfers_page_def source_by_contract_conn_def seq_def ret_def reads_def connection_def
    split: prod.splits sum.splits)

lemma token_path_page_run:
  assumes "pool_available (db_env d)" and "List.find (\<lambda>r. source_key r = (chain, to_ascii_lowercase contract)) (db_sources d) = Some s"
  shows "token_path_page c chain contract token q d
    = (case ledger_page_conn c (so_id s) (q\<lparr>lq_token_id := Some token\<rparr>) Asc d of (Ok p, t) \<Rightarrow> (Ok (Some p), t) | (Err e, t) \<Rightarrow> (Err e, t))"
  using assms by (auto simp: token_path_page_def source_by_contract_conn_def seq_def ret_def reads_def connection_def
    split: prod.splits sum.splits)

end
