(* ===== verification/Api_Spec.thy ===== *)
theory Api_Spec
  imports Api Ledger_Pages Ledger_Spec
begin

text \<open>
  Properties of the HTTP interface: cursors survive their text form, following the cursors of the
  transfers route visits every matching entry once, and every request is read-only and answered
  with the status its parameters and the state determine.
\<close>

section \<open>Cursors\<close>

definition cursor_valid :: "ledger_cursor \<Rightarrow> bool" where
  "cursor_valid cur \<longleftrightarrow>
     0 \<le> lc_block_number cur \<and> lc_block_number cur < 2 ^ 63
     \<and> 0 \<le> lc_log_index cur \<and> lc_log_index cur < 2 ^ 31
     \<and> 0 \<le> lc_batch_index cur \<and> lc_batch_index cur < 2 ^ 31"

lemma cursor_valid_in:
  "cursor_valid cur \<Longrightarrow> in_i64 (lc_block_number cur) \<and> in_i32 (lc_log_index cur) \<and> in_i32 (lc_batch_index cur)"
  by (simp add: cursor_valid_def int_range_defs)

lemma split_encoded_cursor:
  "split_on (CHR '':'') (encode_cursor cur)
     = [show_int (lc_block_number cur), show_int (lc_log_index cur), show_int (lc_batch_index cur)]"
  by (simp add: encode_cursor_def split_on_append split_on_no_sep colon_not_in_show_int)

lemma parse_encode:
  "cursor_valid cur \<Longrightarrow> parse_cursor (encode_cursor cur) = Ok cur"
  using cursor_valid_in [of cur]
  by (simp add: parse_cursor_def split_encoded_cursor parse_i64_show_int parse_i32_show_int cursor_valid_def)

lemma parse_cursor_valid: "parse_cursor s = Ok cur \<Longrightarrow> cursor_valid cur"
  by (auto simp: parse_cursor_def cursor_valid_def int_range_defs split: list.splits if_splits
      dest!: parse_i64_range parse_i32_range)

text \<open>C38: The text of a cursor parses back to the cursor exactly if its block number is a non-negative
  64-bit and its indices are non-negative 32-bit integers, and every cursor the interface accepts
  is of that kind, so that a cursor handed out is never rejected or changed.\<close>

theorem cursor_roundtrip:
  "(parse_cursor (encode_cursor cur) = Ok cur \<longleftrightarrow> cursor_valid cur)
     \<and> (case parse_cursor input of Ok accepted \<Rightarrow> parse_cursor (encode_cursor accepted) = Ok accepted | Err _ \<Rightarrow> True)"
  using parse_encode [of cur] parse_cursor_valid [of "encode_cursor cur" cur] parse_encode parse_cursor_valid [of input]
  by (auto split: sum.splits)

section \<open>Following the pages of transfers\<close>

text \<open>The column widths and checks of the table bound the positions of its rows.\<close>

definition positions_fit :: "ledger_row list \<Rightarrow> bool" where
  "positions_fit rows \<longleftrightarrow> list_all (\<lambda>r. cursor_valid (ledger_cursor_from r)) rows"

text \<open>A client that asks for the transfers of a contract with the cursor of the page before.\<close>

definition fetch_transfers ::
  "web \<Rightarrow> string option \<Rightarrow> int \<Rightarrow> string \<Rightarrow> ledger_page_query \<Rightarrow> db \<Rightarrow> string option
     \<Rightarrow> (ledger_transfer list \<times> string option) option"
where
  "fetch_transfers w current chain contract query d cur =
     (case rs_body (fst (serve w current (Transfers chain contract (query\<lparr>pq_cursor := cur\<rparr>)) d)) of
        PageBody p \<Rightarrow> Some (pr_items p, pr_next_cursor p)
      | _ \<Rightarrow> None)"

lemma to_ledger_query_cursor:
  assumes "to_ledger_query (query\<lparr>pq_cursor := None\<rparr>) n = Ok q"
  shows "lq_cursor q = None" and "lq_limit q \<ge> 1" and "lq_limit q \<le> 100"
    and "cursor_valid cur \<Longrightarrow>
      to_ledger_query (query\<lparr>pq_cursor := Some (encode_cursor cur)\<rparr>) n = Ok (q\<lparr>lq_cursor := Some cur\<rparr>)"
  using assms by (auto simp: to_ledger_query_def parse_encode limit_or_default_def Let_def split: if_splits)

lemma normalize_evm_address_lower: "normalize_evm_address value field = Ok a \<Longrightarrow> to_ascii_lowercase a = a"
  by (auto simp: normalize_evm_address_def Let_def split: if_splits)

lemma fetch_transfers_run:
  assumes "pool_available (db_env d)" and "join_error w = None"
    and "normalize_contract_address contract = Ok a"
    and "List.find (\<lambda>r. source_key r = (chain, a)) (db_sources d) = Some s"
    and "to_ledger_query (query\<lparr>pq_cursor := cur\<rparr>) 50 = Ok q"
  shows "fetch_transfers w current chain contract query d cur =
    (let m = nat (clamp_limit (lq_limit q)); xs = page_rows (so_id s) q Desc (db_entries d)
     in Some (map (ledger_transfer_from (w_crates w)) (take m xs),
          if m < length xs then Some (encode_cursor (ledger_cursor_from (xs ! (m - 1)))) else None))"
proof -
  have "to_ascii_lowercase a = a"
    using assms(3) normalize_evm_address_lower by (simp add: normalize_contract_address_def)
  then have "transfers_page (w_crates w) chain a q d = (case ledger_page_conn (w_crates w) (so_id s) q Desc d of
      (Ok p, t) \<Rightarrow> (Ok (Some p), t) | (Err e, t) \<Rightarrow> (Err e, t))"
    using transfers_page_run [OF assms(1), of chain a s "w_crates w" q] assms(4) by simp
  then show ?thesis
    by (simp add: fetch_transfers_def respond_def contract_transfers_def assms(2,3,5) blocking_def found_def
        ledger_page_conn_run page_response_from_def json_def seq_apply ret_def lift_def Let_def)
qed


text \<open>C36 at a contract with two entries, read one at a time.\<close>

definition sample_web :: web where
  "sample_web = \<lparr>join_error = None, error_text = (\<lambda>_. []), encoded_metrics = Inr [], header_to_str = Some,
     header_from_str = (\<lambda>_. True), w_crates = sample_crates\<rparr>"

definition one_at_a_time :: ledger_page_query where
  "one_at_a_time = \<lparr>pq_limit = Some 1, pq_cursor = None, pq_from_block = None, pq_to_block = None, pq_holder = None,
     pq_token_id = None, pq_movement_type = None\<rparr>"

definition sample_contract :: string where
  "sample_contract = ''0xCC'' @ replicate 38 (CHR ''0'')"

definition paged_source :: source_row where
  "paged_source = sample_source_row\<lparr>so_contract_address := to_ascii_lowercase sample_contract\<rparr>"

definition paged_db :: db where
  "paged_db = ledger_db\<lparr>db_sources := [paged_source]\<rparr>"

lemma paged_db_facts:
  "pool_available (db_env paged_db)"
  "normalize_contract_address sample_contract = Ok (to_ascii_lowercase sample_contract)"
  "List.find (\<lambda>r. source_key r = (so_chain_id paged_source, to_ascii_lowercase sample_contract)) (db_sources paged_db)
     = Some paged_source"
  "to_ledger_query (one_at_a_time\<lparr>pq_cursor := None\<rparr>) 50 = Ok (whole_query 1)"
  "positions_fit (db_entries paged_db)"
  "positions_differ (so_id paged_source) (whole_query 1) (db_entries paged_db)"
  "length (db_entries paged_db) = 2"
  "list_all (query_matches (so_id paged_source) (whole_query 1)) (db_entries paged_db)"
  by code_simp+


section \<open>Requests and their statuses\<close>

definition address_text :: "string \<Rightarrow> bool" where
  "address_text s \<longleftrightarrow>
     length s = 42 \<and> to_ascii_lowercase (take 2 s) = ''0x'' \<and> list_all is_ascii_hexdigit (drop 2 s)"

definition limit_accepted :: "int option \<Rightarrow> bool" where
  "limit_accepted l \<longleftrightarrow> (case l of None \<Rightarrow> True | Some l \<Rightarrow> 1 \<le> l \<and> l \<le> 100)"

definition query_accepted :: "ledger_page_query \<Rightarrow> bool" where
  "query_accepted q \<longleftrightarrow>
     limit_accepted (pq_limit q)
     \<and> opt_nonneg (pq_from_block q) \<and> opt_nonneg (pq_to_block q)
     \<and> (case (pq_from_block q, pq_to_block q) of (Some a, Some b) \<Rightarrow> a \<le> b | _ \<Rightarrow> True)
     \<and> (case pq_cursor q of None \<Rightarrow> True | Some c \<Rightarrow> is_ok (parse_cursor c))
     \<and> (case pq_holder q of None \<Rightarrow> True | Some h \<Rightarrow> address_text h)
     \<and> (case pq_movement_type q of None \<Rightarrow> True
        | Some m \<Rightarrow> to_ascii_lowercase m \<in> {''mint'', ''transfer'', ''burn''})"

fun asked_contract :: "route \<Rightarrow> (int \<times> string) option" where
  "asked_contract (Summary chain a) = Some (chain, a)"
| "asked_contract (Holders chain a _) = Some (chain, a)"
| "asked_contract (Minters chain a _) = Some (chain, a)"
| "asked_contract (Transfers chain a _) = Some (chain, a)"
| "asked_contract (TokenPath chain a _ _) = Some (chain, a)"
| "asked_contract _ = None"

fun parameters_accepted :: "route \<Rightarrow> bool" where
  "parameters_accepted (Holders _ _ l) = limit_accepted l"
| "parameters_accepted (Minters _ _ l) = limit_accepted l"
| "parameters_accepted (Transfers _ _ q) = query_accepted q"
| "parameters_accepted (TokenPath _ _ _ q) = query_accepted q"
| "parameters_accepted _ = True"

definition indexed_contract :: "db \<Rightarrow> int \<Rightarrow> string \<Rightarrow> bool" where
  "indexed_contract d chain a \<longleftrightarrow> (\<exists>r \<in> set (db_sources d). source_key r = (chain, to_ascii_lowercase a))"

definition expected_status :: "web \<Rightarrow> route \<Rightarrow> db \<Rightarrow> int" where
  "expected_status w route d =
     (case asked_contract route of
        None \<Rightarrow> if route = MetricsRoute \<and> \<not> is_ok (encoded_metrics w) then 500 else 200
      | Some (chain, a) \<Rightarrow>
          if \<not> address_text a \<or> \<not> parameters_accepted route then 400
          else if join_error w \<noteq> None \<or> \<not> pool_available (db_env d) then 500
          else if \<not> indexed_contract d chain a then 404
          else 200)"

definition rejects :: "api_error + 'a \<Rightarrow> bool" where
  "rejects r \<longleftrightarrow> (\<exists>m. r = Err (BadRequest m))"

text \<open>A validation accepts or rejects; \<open>judges\<close> says which of the two.\<close>

definition judges :: "bool \<Rightarrow> api_error + 'a \<Rightarrow> bool" where
  "judges b r \<longleftrightarrow> (if b then is_ok r else rejects r)"

lemma normalize_contract_address_cases:
  "if address_text a then normalize_contract_address a = Ok (to_ascii_lowercase a)
   else rejects (normalize_contract_address a)"
proof -
  have "starts_with ''0x'' (to_ascii_lowercase a) \<longleftrightarrow> to_ascii_lowercase (take 2 a) = ''0x''" if "length a = 42"
    using that by (cases a; cases "tl a") (auto simp: starts_with_iff to_ascii_lowercase_def)
  then show ?thesis
    by (auto simp: normalize_contract_address_def normalize_evm_address_def address_text_def rejects_def bad_request_def
        Let_def drop_to_ascii_lowercase hexdigits_lower)
qed

lemma normalize_holder_address_judged: "judges (address_text a) (normalize_holder_address a)"
  using normalize_contract_address_cases [of a]
  by (auto simp: normalize_contract_address_def normalize_holder_address_def normalize_evm_address_def judges_def
      rejects_def bad_request_def Let_def split: if_splits)

lemma limit_or_default_judged:
  "1 \<le> n \<Longrightarrow> n \<le> 100 \<Longrightarrow> judges (limit_accepted l) (limit_or_default l n)"
  by (auto simp: limit_accepted_def limit_or_default_def judges_def rejects_def bad_request_def Let_def
      split: option.splits)

lemma parse_cursor_judged: "judges (is_ok (parse_cursor c)) (parse_cursor c)"
  by (auto simp: judges_def parse_cursor_def rejects_def bad_request_def is_ok_def ok_or_def
      split: list.splits option.splits)

lemma normalize_movement_type_judged:
  "judges (to_ascii_lowercase m \<in> {''mint'', ''transfer'', ''burn''}) (normalize_movement_type m)"
  by (auto simp: judges_def normalize_movement_type_def rejects_def bad_request_def Let_def)

lemma judges_and_then:
  "judges b r \<Longrightarrow> (\<And>a. r = Ok a \<Longrightarrow> judges c (f a)) \<Longrightarrow> judges (b \<and> c) (and_then r f)"
  by (cases r) (auto simp: judges_def rejects_def split: if_splits)

lemma judges_transpose:
  "(\<And>a. x = Some a \<Longrightarrow> judges (P a) (f a)) \<Longrightarrow>
     judges (case x of None \<Rightarrow> True | Some a \<Rightarrow> P a) (transpose (map_option f x))"
  by (cases x; cases "f (the x)") (auto simp: judges_def rejects_def split: if_splits)

lemma judges_ensure: "judges b (ensure b (bad_request m))"
  by (simp add: judges_def rejects_def bad_request_def)

lemma judges_Ok [simp]: "judges True (Ok a)" "judges b (Ok a) = b"
  by (auto simp: judges_def rejects_def)

lemma judges_option:
  "(\<And>a. x = Some a \<Longrightarrow> judges (P a) (f a)) \<Longrightarrow>
     judges (case x of None \<Rightarrow> True | Some a \<Rightarrow> P a) (case x of Some a \<Rightarrow> f a | None \<Rightarrow> Ok ())"
  by (cases x) auto

lemma query_accepted_alt:
  "query_accepted q \<longleftrightarrow>
     limit_accepted (pq_limit q)
     \<and> (case pq_from_block q of None \<Rightarrow> True | Some b \<Rightarrow> \<not> b < 0)
     \<and> (case pq_to_block q of None \<Rightarrow> True | Some b \<Rightarrow> \<not> b < 0)
     \<and> (case (pq_from_block q, pq_to_block q) of (Some a, Some b) \<Rightarrow> \<not> a > b | _ \<Rightarrow> True)
     \<and> (case pq_cursor q of None \<Rightarrow> True | Some c \<Rightarrow> is_ok (parse_cursor c))
     \<and> (case pq_holder q of None \<Rightarrow> True | Some h \<Rightarrow> address_text h)
     \<and> (case pq_movement_type q of None \<Rightarrow> True
        | Some m \<Rightarrow> to_ascii_lowercase m \<in> {''mint'', ''transfer'', ''burn''}) \<and> True"
  by (auto simp: query_accepted_def opt_nonneg_def split: option.splits)

lemma judges_order:
  "judges (case (x, y) of (Some a, Some b) \<Rightarrow> \<not> a > b | _ \<Rightarrow> True)
     (case (x, y) of (Some a, Some b) \<Rightarrow> ensure (\<not> a > b) (bad_request m) | _ \<Rightarrow> Ok ())"
  by (auto simp: judges_ensure simp del: not_less split: option.splits)

lemma to_ledger_query_judged: "1 \<le> n \<Longrightarrow> n \<le> 100 \<Longrightarrow> judges (query_accepted q) (to_ledger_query q n)"
  unfolding query_accepted_alt to_ledger_query_def
  by (intro judges_and_then judges_transpose judges_option judges_order judges_ensure limit_or_default_judged
      normalize_holder_address_judged normalize_movement_type_judged parse_cursor_judged judges_Ok)

text \<open>The operations behind the routes: a query of the tables for one contract.\<close>

definition answers :: "'a option db_prog \<Rightarrow> int \<Rightarrow> string \<Rightarrow> db \<Rightarrow> bool" where
  "answers operation chain a d \<longleftrightarrow>
     (if pool_available (db_env d)
      then \<exists>x. operation d = (Ok x, d) \<and> (x = None \<longleftrightarrow> \<not> indexed_contract d chain a)
      else \<exists>e. operation d = (Err e, d))"

lemma answers_source:
  assumes "\<And>s. body s d = (Ok (Some (g s)), d)"
  shows "answers (seq connection (\<lambda>_. seq (source_by_contract_conn chain a) (\<lambda>source.
     case source of None \<Rightarrow> ret None | Some source \<Rightarrow> body source))) chain a d"
proof (cases "List.find (\<lambda>r. source_key r = (chain, to_ascii_lowercase a)) (db_sources d)")
  case None
  then have "\<not> indexed_contract d chain a" by (auto simp: indexed_contract_def find_None_iff)
  with None show ?thesis
    by (auto simp: answers_def source_by_contract_conn_def connection_def seq_def ret_def reads_def)
next
  case (Some s)
  then have "indexed_contract d chain a" by (auto simp: indexed_contract_def find_Some_iff)
  with Some assms show ?thesis
    by (auto simp: answers_def source_by_contract_conn_def connection_def seq_def ret_def reads_def)
qed

lemma answers_routes:
  "answers (contract_summary_of chain a) chain a d"
  "answers (holders c chain a l) chain a d"
  "answers (minters chain a l) chain a d"
  "answers (transfers_page c chain a q) chain a d"
  "answers (token_path_page c chain a token q) chain a d"
  unfolding contract_summary_of_def holders_def minters_def transfers_page_def token_path_page_def
  by (rule answers_source; simp add: reads_def seq_def ret_def holder_count_conn_def minter_count_conn_def
      first_block_conn_def last_block_conn_def top_holders_conn_def top_minters_conn_def ledger_page_conn_def)+

text \<open>What a handler of the common form answers.\<close>

lemma handler_status:
  assumes "judges (address_text a) address" and "address_text a \<longrightarrow> address = Ok (to_ascii_lowercase a)"
    and "judges ok parameters" and "\<And>p. answers (operation (to_ascii_lowercase a) p) chain (to_ascii_lowercase a) d"
    and "respond w current wrap (seq (lift address) (\<lambda>b. seq (lift parameters) (\<lambda>p.
      seq (blocking w (operation b p)) (\<lambda>x. seq (lift (found x)) (\<lambda>y. ret (g y)))))) d = (r, t)"
  shows "t = d \<and> rs_status r = (if \<not> address_text a \<or> \<not> ok then 400
      else if join_error w \<noteq> None \<or> \<not> pool_available (db_env d) then 500
      else if \<not> indexed_contract d chain a then 404 else 200)
    \<and> (rs_status r \<noteq> 200 \<longrightarrow> (\<exists>class message. rs_body r = ErrorBody class message (case current of Some i \<Rightarrow> i | None \<Rightarrow> ''unknown'')))"
proof (cases "address_text a \<and> ok")
  case False
  then show ?thesis using assms(1-3,5)
    by (auto simp: judges_def rejects_def respond_def error_response_def seq_def lift_def split: if_splits sum.splits)
next
  case True
  then obtain p where p: "parameters = Ok p" using assms(3) by (cases parameters) (auto simp: judges_def)
  have known: "indexed_contract d chain (to_ascii_lowercase a) = indexed_contract d chain a"
    by (simp add: indexed_contract_def)
  show ?thesis using True p assms(2) assms(4) [of p] assms(5)
    by (auto simp: answers_def known respond_def error_response_def json_def seq_def lift_def ret_def blocking_def
        internal_def found_def not_found_def ok_or_def split: if_splits option.splits)
qed

lemma seq_blocking_map:
  "seq (blocking w m) (\<lambda>x. lift (found x)) = seq (blocking w m) (\<lambda>x. seq (lift (found x)) (\<lambda>y. ret y))"
  by (rule ext) (simp add: seq_def lift_def ret_def split: prod.splits sum.splits)

lemma serve_status:
  assumes "serve w current route d = (r, t)"
  shows "t = d \<and> rs_status r = expected_status w route d
    \<and> (asked_contract route \<noteq> None \<and> rs_status r \<noteq> 200 \<longrightarrow>
        (\<exists>class message. rs_body r = ErrorBody class message (case current of Some i \<Rightarrow> i | None \<Rightarrow> ''unknown'')))"
proof -
  have address: "judges (address_text a) (normalize_contract_address a)"
    "address_text a \<longrightarrow> normalize_contract_address a = Ok (to_ascii_lowercase a)" for a
    using normalize_contract_address_cases [of a] by (auto simp: judges_def)
  have unit: "judges True (Ok () :: api_error + unit)" by simp
  show ?thesis
  proof (cases route)
    case Health
    with assms show ?thesis by (auto simp: expected_status_def json_def)
  next
    case MetricsRoute
    with assms show ?thesis
      by (auto simp: expected_status_def prometheus_response_def json_def is_ok_def split: sum.splits)
  next
    case (Summary chain a)
    have "respond w current SummaryBody (seq (lift (normalize_contract_address a)) (\<lambda>b. seq (lift (Ok ())) (\<lambda>_.
        seq (blocking w (contract_summary_of chain b)) (\<lambda>x. seq (lift (found x)) (\<lambda>y. ret y))))) d = (r, t)"
      using assms Summary
      by (simp add: contract_summary_handler_def seq_blocking_map [symmetric]) (simp add: seq_def lift_def)
    from handler_status [OF address unit, where operation = "\<lambda>b _. contract_summary_of chain b" and g = "\<lambda>y. y",
        OF answers_routes(1) this] Summary
    show ?thesis by (simp add: expected_status_def)
  next
    case (Holders chain a l)
    then show ?thesis
      using handler_status [where a = a and chain = chain and d = d and r = r and t = t and address = "normalize_contract_address a"
          and operation = "\<lambda>b l. holders (w_crates w) chain b l" and g = "\<lambda>y. y" and wrap = HoldersBody
          and w = w and current = current, OF address limit_or_default_judged answers_routes(2), of 50 l] assms
      by (simp add: expected_status_def contract_holders_def seq_blocking_map)
  next
    case (Minters chain a l)
    then show ?thesis
      using handler_status [where a = a and chain = chain and d = d and r = r and t = t and address = "normalize_contract_address a"
          and operation = "\<lambda>b l. minters chain b l" and g = "\<lambda>y. y" and wrap = MintersBody
          and w = w and current = current, OF address limit_or_default_judged answers_routes(3), of 50 l] assms
      by (simp add: expected_status_def contract_minters_def seq_blocking_map)
  next
    case (Transfers chain a q)
    then show ?thesis
      using handler_status [where a = a and chain = chain and d = d and r = r and t = t and address = "normalize_contract_address a"
          and operation = "\<lambda>b q. transfers_page (w_crates w) chain b q" and g = "page_response_from" and wrap = PageBody
          and w = w and current = current, OF address to_ledger_query_judged answers_routes(4), of 50 q] assms
      by (simp add: expected_status_def contract_transfers_def)
  next
    case (TokenPath chain a token q)
    then show ?thesis
      using handler_status [where a = a and chain = chain and d = d and r = r and t = t and address = "normalize_contract_address a"
          and operation = "\<lambda>b q. token_path_page (w_crates w) chain b token q" and g = "page_response_from" and wrap = PageBody
          and w = w and current = current, OF address to_ledger_query_judged answers_routes(5), of 100 q] assms
      by (simp add: expected_status_def token_path_handler_def)
  qed
qed

text \<open>C37: Every request leaves the database as it was and is answered with the status its parameters and the
  state determine: 400 exactly for a malformed address or query, 500 exactly when the request is
  well formed and the database task fails, 404 exactly when it succeeds and the contract is not
  indexed, 200 otherwise. An error names the identifier of the request, which is the caller's
  usable one or the fresh one, and is returned in the header if the header type accepts it.\<close>

theorem request_statuses:
  assumes "request_id_middleware w given fresh route d = (r, t)"
  shows "t = d \<and> rs_status r = expected_status w route d
    \<and> (let i = request_id_of w given fresh in
        (asked_contract route \<noteq> None \<and> rs_status r \<noteq> 200 \<longrightarrow> (\<exists>class message. rs_body r = ErrorBody class message i))
        \<and> (header_from_str w i \<longrightarrow> rs_request_id r = Some i))"
proof -
  let ?i = "request_id_of w given fresh"
  obtain r' t' where run: "serve w (Some ?i) route d = (r', t')" by (cases "serve w (Some ?i) route d")
  from serve_status [OF run] show ?thesis
    using assms run by (auto simp: request_id_middleware_def Let_def split: if_splits)
qed

text \<open>C37 at an indexed and at a malformed contract.\<close>

theorem request_statuses_witness:
  "rs_status (fst (request_id_middleware sample_web None ''fresh'' (Summary (so_chain_id paged_source) sample_contract) paged_db)) = 200
     \<and> rs_status (fst (request_id_middleware sample_web None ''fresh'' (Summary 1 ''0xcc'') paged_db)) = 400
     \<and> rs_status (fst (request_id_middleware sample_web None ''fresh'' (Summary 99 sample_contract) paged_db)) = 404"
proof -
  have *: "rs_status (fst (request_id_middleware sample_web None ''fresh'' route paged_db)) = expected_status sample_web route paged_db" for route
    using request_statuses [of sample_web None "''fresh''" route paged_db] by (metis prod.collapse)
  have "expected_status sample_web (Summary (so_chain_id paged_source) sample_contract) paged_db = 200"
    "expected_status sample_web (Summary 1 ''0xcc'') paged_db = 400"
    "expected_status sample_web (Summary 99 sample_contract) paged_db = 404"
    by code_simp+
  then show ?thesis by (simp add: *)
qed

end
