(* ===== verification/Cli.thy ===== *)
theory Cli
  imports Worker Backfill Ledger_Read Reorg
begin

text \<open>
  The commands of the program (src/main.rs), over the state of the worker. A command is given its
  surroundings: the environment variables, the node behind a URL (the client of \<open>Rpc_Client\<close>, which keeps
  the count of its errors apart), whether a pool can be built for a database URL and a listener bound to an
  address, and what the worker is given. What a command prints is its result; progress lines are left out.
\<close>

record console =
  co_env :: "string \<Rightarrow> string option"
  co_node :: "string \<Rightarrow> rpc"
  co_pool :: "string \<Rightarrow> bool"
  co_bind :: "string \<Rightarrow> bool"
  co_su :: surroundings

definition co_crates :: "console \<Rightarrow> crates" where
  "co_crates co = su_crates (co_su co)"

section \<open>The node URL\<close>

definition chain_rpc_env_name :: "int option \<Rightarrow> string option" where
  "chain_rpc_env_name chain_id =
     (case chain_id of
        Some n \<Rightarrow> if n = 1 then Some ''ETH_MAINNET_RPC_URL'' else if n = 137 then Some ''POLYGON_MAINNET_RPC_URL'' else None
      | None \<Rightarrow> None)"

definition rpc_url_from_env :: "(string \<Rightarrow> string option) \<Rightarrow> int option \<Rightarrow> string result" where
  "rpc_url_from_env env chain_id =
     (case Option.bind (chain_rpc_env_name chain_id) env of
        Some value \<Rightarrow> Ok value
      | None \<Rightarrow>
          (case env ''EVM_RPC_URL'' of
             Some value \<Rightarrow> Ok value
           | None \<Rightarrow> ok_or (ConfigError (''missing RPC URL; set --rpc-url, ''
                 @ (case chain_rpc_env_name chain_id of Some name \<Rightarrow> name @ '', '' | None \<Rightarrow> [])
                 @ ''EVM_RPC_URL, or ETH_RPC_URL'')) (env ''ETH_RPC_URL'')))"

definition validate_rpc_url_chain_hint :: "string \<Rightarrow> int option \<Rightarrow> unit result" where
  "validate_rpc_url_chain_hint value chain_id =
     (let lower = to_ascii_lowercase value
      in if chain_id = Some 1 \<and> str_contains ''polygon'' lower
         then Err (ConfigError ''selected RPC URL looks like Polygon, but --chain-id is 1'')
         else if chain_id = Some 137 \<and> (str_contains ''eth-mainnet'' lower \<or> str_contains ''ethereum'' lower)
         then Err (ConfigError ''selected RPC URL looks like Ethereum mainnet, but --chain-id is 137'')
         else Ok ())"

definition rpc_url_from_args :: "(string \<Rightarrow> string option) \<Rightarrow> string option \<Rightarrow> int option \<Rightarrow> string result" where
  "rpc_url_from_args env value chain_id =
     and_then (case value of Some value \<Rightarrow> Ok value | None \<Rightarrow> rpc_url_from_env env chain_id) (\<lambda>value.
     and_then (validate_rpc_url_chain_hint value chain_id) (\<lambda>_. Ok value))"

section \<open>Shared steps\<close>

definition bail_if :: "bool \<Rightarrow> string \<Rightarrow> unit worker_prog" where
  "bail_if b message = lift (ensure (\<not> b) (ConfigError message))"

definition build_pool :: "console \<Rightarrow> string \<Rightarrow> unit worker_prog" where
  "build_pool co database_url = lift (ensure (co_pool co database_url) PoolUnavailable)"

definition existing_source :: "int \<Rightarrow> string \<Rightarrow> source_row worker_prog" where
  "existing_source chain_id contract =
     seq (on_db (source_by_contract chain_id contract)) (\<lambda>source.
       lift (ok_or (ConfigError ''contract source not found'') source))"

definition record_resolved_range_metrics :: "int \<Rightarrow> resolved_range \<Rightarrow> unit worker_prog" where
  "record_resolved_range_metrics chain_id r =
     seq (meter (set_head_block (show_int chain_id) (rr_head r))) (\<lambda>_.
       meter (set_finalized_block (show_int chain_id) (rr_finalized_head r)))"

definition record_source_progress_metric :: "crates \<Rightarrow> uuid \<Rightarrow> int \<Rightarrow> int \<Rightarrow> int \<Rightarrow> unit worker_prog" where
  "record_source_progress_metric c source_id chain_id start_block finalized =
     seq (outcome_of (on_db (checkpoint_row_for_source source_id))) (\<lambda>checkpoint.
     let processed = (case checkpoint of
           Ok (Some row) \<Rightarrow> ck_processed_block row
         | _ \<Rightarrow> i64_saturating_sub start_block 1)
     in meter (set_source_progress (show_int chain_id) (uuid_display c source_id) processed finalized))"

definition resolve_requested_standard :: "crates \<Rightarrow> rpc \<Rightarrow> string \<Rightarrow> standard \<Rightarrow> u64 \<Rightarrow> u64 \<Rightarrow> u64 \<Rightarrow> standard result" where
  "resolve_requested_standard c rpc contract requested from to chunk_size =
     (if \<not> standard_is_auto requested then Ok requested
      else detect_token_standard c rpc contract from to chunk_size)"

definition resolve_requested_standard_for_scan ::
  "crates \<Rightarrow> rpc \<Rightarrow> string \<Rightarrow> standard \<Rightarrow> u64 \<Rightarrow> u64 \<Rightarrow> u64 \<Rightarrow> (standard \<times> prefetched_chunk option) result"
where
  "resolve_requested_standard_for_scan c rpc contract requested from to chunk_size =
     (if \<not> standard_is_auto requested then Ok (requested, None)
      else and_then (detect_token_standard_with_prefetched_logs c rpc contract from to chunk_size) (\<lambda>detection.
        Ok (sd_standard detection, Some (sd_prefetched_logs detection))))"

definition auto_detect_chunk_size :: u64 where
  "auto_detect_chunk_size = 10"

text \<open>What the commands that register a contract are given; the URL is resolved when they begin.\<close>

record contract_options =
  ca_database_url :: string
  ca_chain_name :: string
  ca_chain_id :: int
  ca_finality_confirmations :: int
  ca_contract :: string
  ca_standard :: string
  ca_from_block :: "string option"
  ca_to_block :: string
  ca_lookback :: u64

record contract_args = contract_options +
  ca_rpc_url :: string

text \<open>Resolution of the range and of the contract, as \<open>scan_contract\<close>, \<open>enqueue_contract\<close> and
  \<open>backfill_contract\<close> begin; \<open>guards\<close> are the command's own.\<close>

definition resolve_contract ::
  "console \<Rightarrow> contract_args \<Rightarrow> unit worker_prog \<Rightarrow> (standard \<times> string \<times> resolved_range) worker_prog"
where
  "resolve_contract co a guards =
     seq (lift (standard_from_str (ca_standard a))) (\<lambda>requested.
     seq (lift (normalize_address (ca_contract a))) (\<lambda>contract.
     seq (bail_if (ca_chain_id a \<le> 0) ''chain-id must be greater than zero'') (\<lambda>_.
     seq guards (\<lambda>_.
     let rpc = co_node co (ca_rpc_url a) in
     seq (lift (resolve_finalized_range rpc (ca_from_block a) (ca_to_block a) (ca_lookback a)
           (ca_finality_confirmations a))) (\<lambda>r.
     seq (record_resolved_range_metrics (ca_chain_id a) r) (\<lambda>_.
     seq (lift (validate_contract_code_at_boundaries rpc contract (rr_from r) (rr_to r))) (\<lambda>_.
       ret (requested, contract, r))))))))"

definition register_source :: "console \<Rightarrow> contract_args \<Rightarrow> string \<Rightarrow> standard \<Rightarrow> resolved_range \<Rightarrow> source_row worker_prog" where
  "register_source co a contract standard r =
     seq (build_pool co (ca_database_url a)) (\<lambda>_.
     seq (on_db (ensure_chain (ca_chain_name a) (ca_chain_id a) (redact_rpc_url (ca_rpc_url a))
           (ca_finality_confirmations a))) (\<lambda>_.
       on_db (ensure_source (ca_chain_id a) (standard_as_str standard @ ''-'' @ contract) contract standard
         (u64_as_i64 (rr_from r)))))"

section \<open>Scanning and enqueueing\<close>

definition scan_contract :: "console \<Rightarrow> contract_args \<Rightarrow> u64 \<Rightarrow> bool \<Rightarrow> scan_summary worker_prog" where
  "scan_contract co a chunk_size include_receipts =
     seq (resolve_contract co a (ret ())) (\<lambda>(requested, contract, r).
     let rpc = co_node co (ca_rpc_url a) in
     seq (lift (resolve_requested_standard_for_scan (co_crates co) rpc contract requested (rr_from r) (rr_to r)
           chunk_size)) (\<lambda>(standard, prefetched).
     seq (register_source co a contract standard r) (\<lambda>source.
       on_db (ingest_source_range (co_crates co) rpc (postgres_ingest_repository (co_crates co)) (source_ref_of source)
         (rr_from r) (rr_to r) chunk_size
         \<lparr>include_transaction_receipts = include_receipts, io_restore_orphaned_conflicts = False,
          prefetched_logs = prefetched\<rparr>))))"

definition enqueue_contract :: "console \<Rightarrow> contract_args \<Rightarrow> int \<Rightarrow> enqueued worker_prog" where
  "enqueue_contract co a max_attempts =
     seq (resolve_contract co a (bail_if (max_attempts \<le> 0) ''max-attempts must be greater than zero'')) (\<lambda>(requested, contract, r).
     seq (lift (resolve_requested_standard (co_crates co) (co_node co (ca_rpc_url a)) contract requested
           (rr_from r) (rr_to r) auto_detect_chunk_size)) (\<lambda>standard.
     seq (register_source co a contract standard r) (\<lambda>source.
     let key = ''ingest:'' @ uuid_display (co_crates co) (so_id source) @ '':'' @ show_u64 (rr_from r) @ '':'' @ show_u64 (rr_to r)
     in on_db (seq (new_job_new IngestRange (ca_chain_id a) key) (\<lambda>job.
          enqueue (with_max_attempts max_attempts (with_range (u64_as_i64 (rr_from r)) (u64_as_i64 (rr_to r))
            (with_source (so_id source) job))))))))"

definition backfill_contract :: "console \<Rightarrow> contract_args \<Rightarrow> u64 \<Rightarrow> int \<Rightarrow> backfill_plan worker_prog" where
  "backfill_contract co a range_size max_attempts =
     seq (resolve_contract co a
           (seq (bail_if (range_size = 0) ''range-size must be greater than zero'') (\<lambda>_.
             bail_if (max_attempts \<le> 0) ''max-attempts must be greater than zero''))) (\<lambda>(requested, contract, r).
     seq (lift (resolve_requested_standard (co_crates co) (co_node co (ca_rpc_url a)) contract requested
           (rr_from r) (rr_to r) auto_detect_chunk_size)) (\<lambda>standard.
     seq (register_source co a contract standard r) (\<lambda>source.
     seq (on_db (plan_backfill_jobs postgres_backfill_repository (co_crates co) (source_ref_of source)
           (rr_from r) (rr_to r) range_size max_attempts)) (\<lambda>plan.
     seq (record_source_progress_metric (co_crates co) (so_id source) (so_chain_id source) (so_start_block source)
           (u64_as_i64 (rr_to r))) (\<lambda>_.
       ret plan)))))"

section \<open>Replaying and repairing\<close>

definition job_status_is_terminal :: "string \<Rightarrow> bool" where
  "job_status_is_terminal status \<longleftrightarrow> status = ''succeeded'' \<or> status = ''dead_lettered'' \<or> status = ''cancelled''"

text \<open>The job, and how many reorg events were linked to it.\<close>

definition enqueue_replay ::
  "console \<Rightarrow> string \<Rightarrow> int \<Rightarrow> string \<Rightarrow> u64 \<Rightarrow> u64 \<Rightarrow> int \<Rightarrow> (enqueued \<times> nat) worker_prog"
where
  "enqueue_replay co database_url chain_id contract from_block to_block max_attempts =
     seq (lift (normalize_address contract)) (\<lambda>contract.
     seq (bail_if (chain_id \<le> 0) ''chain-id must be greater than zero'') (\<lambda>_.
     if from_block > to_block then throw (InvertedRange from_block to_block)
     else
       seq (bail_if (max_attempts \<le> 0) ''max-attempts must be greater than zero'') (\<lambda>_.
       seq (lift (ok_or (BlockTooLarge from_block) (i64_try_from_u64 from_block))) (\<lambda>from_i64.
       seq (lift (ok_or (BlockTooLarge to_block) (i64_try_from_u64 to_block))) (\<lambda>to_i64.
       seq (build_pool co database_url) (\<lambda>_.
       seq (existing_source chain_id contract) (\<lambda>source.
       let key = ''replay:'' @ uuid_display (co_crates co) (so_id source) @ '':'' @ show_u64 from_block @ '':'' @ show_u64 to_block in
       seq (on_db (seq (new_job_new ReplayRange chain_id key) (\<lambda>job.
             enqueue (with_max_attempts max_attempts (with_range from_i64 to_i64 (with_source (so_id source) job)))))) (\<lambda>result.
       let (replay_job, should_link) = (case result of
             EnqInserted job \<Rightarrow> (job, True)
           | EnqExisting job \<Rightarrow> (job, \<not> job_status_is_terminal (jr_status job))) in
       if should_link
       then seq (on_db (link_reorg_events_to_replay_job (so_id source) from_i64 to_i64 (jr_id replay_job))) (\<lambda>linked.
              ret (result, linked))
       else ret (result, 0)))))))))"

record metadata_report =
  mr_rpc_logs_seen :: nat
  mr_events_updated :: nat
  mr_ledger_entries_updated :: nat

text \<open>The metadata of the logs of one block, then of the blocks in turn.\<close>

fun repair_logs :: "source_row \<Rightarrow> int \<Rightarrow> rpc_log list \<Rightarrow> metadata_report \<Rightarrow> metadata_report worker_prog" where
  "repair_logs source timestamp [] report = ret report"
| "repair_logs source timestamp (log # logs) report =
     seq (on_db (update_log_metadata source (log\<lparr>log_block_timestamp := Some timestamp\<rparr>))) (\<lambda>update.
     repair_logs source timestamp logs
       (report\<lparr>mr_events_updated := mr_events_updated report + mu_events_updated update,
               mr_ledger_entries_updated := mr_ledger_entries_updated report + mu_ledger_entries_updated update\<rparr>))"

fun repair_blocks :: "rpc \<Rightarrow> source_row \<Rightarrow> standard \<Rightarrow> int list \<Rightarrow> metadata_report \<Rightarrow> metadata_report worker_prog" where
  "repair_blocks rpc source standard [] report = ret report"
| "repair_blocks rpc source standard (block # blocks) report =
     seq (lift (ok_or (CannotBeNegative ''indexed block number'') (u64_try_from_i64 block))) (\<lambda>block.
     seq (lift (rpc_block_timestamp rpc block)) (\<lambda>timestamp.
     seq (lift (rpc_logs rpc (so_contract_address source) standard block block)) (\<lambda>logs.
     seq (repair_logs source timestamp logs (report\<lparr>mr_rpc_logs_seen := mr_rpc_logs_seen report + length logs\<rparr>)) (\<lambda>report.
       repair_blocks rpc source standard blocks report))))"

definition backfill_event_metadata ::
  "console \<Rightarrow> string \<Rightarrow> string \<Rightarrow> int \<Rightarrow> string \<Rightarrow> int \<Rightarrow> metadata_report worker_prog"
where
  "backfill_event_metadata co rpc_url database_url chain_id contract limit_blocks =
     seq (lift (normalize_address contract)) (\<lambda>contract.
     seq (bail_if (chain_id \<le> 0) ''chain-id must be greater than zero'') (\<lambda>_.
     seq (bail_if (limit_blocks \<le> 0) ''limit-blocks must be greater than zero'') (\<lambda>_.
     seq (build_pool co database_url) (\<lambda>_.
     seq (existing_source chain_id contract) (\<lambda>source.
     seq (lift (standard_from_str (so_token_standard source))) (\<lambda>standard.
     seq (on_db (event_blocks_missing_metadata (so_id source) limit_blocks)) (\<lambda>blocks.
       repair_blocks (co_node co rpc_url) source standard blocks
         \<lparr>mr_rpc_logs_seen = 0, mr_events_updated = 0, mr_ledger_entries_updated = 0\<rparr>)))))))"

text \<open>Receipts are fetched one by one and persisted whenever a batch is full; \<open>(fetched, persisted)\<close> is counted.\<close>

fun receipt_batches ::
  "crates \<Rightarrow> rpc \<Rightarrow> int \<Rightarrow> nat \<Rightarrow> string list \<Rightarrow> transaction_receipt list \<Rightarrow> nat \<Rightarrow> nat \<Rightarrow> (nat \<times> nat) worker_prog"
where
  "receipt_batches c rpc chain_id batch_size [] batch fetched persisted =
     (if batch \<noteq> []
      then seq (on_db (persist_transaction_receipts c chain_id batch)) (\<lambda>n. ret (fetched, persisted + n))
      else ret (fetched, persisted))"
| "receipt_batches c rpc chain_id batch_size (hash # hashes) batch fetched persisted =
     seq (lift (rpc_transaction_receipt rpc hash)) (\<lambda>receipt.
     if length (batch @ [receipt]) \<ge> batch_size
     then seq (on_db (persist_transaction_receipts c chain_id (batch @ [receipt]))) (\<lambda>n.
            receipt_batches c rpc chain_id batch_size hashes [] (fetched + 1) (persisted + n))
     else receipt_batches c rpc chain_id batch_size hashes (batch @ [receipt]) (fetched + 1) persisted)"

definition backfill_transaction_receipts ::
  "console \<Rightarrow> string \<Rightarrow> string \<Rightarrow> int \<Rightarrow> string \<Rightarrow> int \<Rightarrow> nat \<Rightarrow> (nat \<times> nat) worker_prog"
where
  "backfill_transaction_receipts co rpc_url database_url chain_id contract limit batch_size =
     seq (lift (normalize_address contract)) (\<lambda>contract.
     seq (bail_if (chain_id \<le> 0) ''chain-id must be greater than zero'') (\<lambda>_.
     seq (bail_if (limit \<le> 0) ''limit must be greater than zero'') (\<lambda>_.
     seq (bail_if (batch_size = 0) ''persist-batch-size must be greater than zero'') (\<lambda>_.
     seq (build_pool co database_url) (\<lambda>_.
     seq (existing_source chain_id contract) (\<lambda>source.
     seq (on_db (transaction_hashes_missing_receipts (so_id source) limit)) (\<lambda>hashes.
       receipt_batches (co_crates co) (co_node co rpc_url) chain_id batch_size hashes [] 0 0)))))))"

definition verify_reorg ::
  "console \<Rightarrow> string \<Rightarrow> string \<Rightarrow> int \<Rightarrow> string \<Rightarrow> u64 \<Rightarrow> u64 \<Rightarrow> reorg_verification worker_prog"
where
  "verify_reorg co rpc_url database_url chain_id contract from_block to_block =
     seq (lift (normalize_address contract)) (\<lambda>contract.
     seq (bail_if (chain_id \<le> 0) ''chain-id must be greater than zero'') (\<lambda>_.
     if from_block > to_block then throw (InvertedRange from_block to_block)
     else
       seq (build_pool co database_url) (\<lambda>_.
       seq (existing_source chain_id contract) (\<lambda>source.
       seq (on_db (verify_source_reorgs (co_node co rpc_url) postgres_reorg_repository (source_ref_of source)
             from_block to_block)) (\<lambda>verification.
       seq (meter (inc_reorgs_detected (show_int chain_id) (uuid_display (co_crates co) (so_id source))
             (word_of_nat (length (rv_mismatches verification))))) (\<lambda>_.
         ret verification))))))"

section \<open>The worker commands\<close>

definition build_worker ::
  "console \<Rightarrow> string \<Rightarrow> string \<Rightarrow> int option \<Rightarrow> int \<Rightarrow> u64 \<Rightarrow> bool \<Rightarrow> ingest_worker worker_prog"
where
  "build_worker co database_url worker_id chain_id lease_seconds chunk_size include_receipts =
     seq (bail_if (lease_seconds \<le> 0) ''lease-seconds must be greater than zero'') (\<lambda>_.
     seq (bail_if (chunk_size = 0) ''chunk-size must be greater than zero'') (\<lambda>_.
     seq (build_pool co database_url) (\<lambda>_.
     seq (lift (ensure (lease_seconds \<le> i64_max div 1000) (Panic ''TimeDelta::seconds out of bounds''))) (\<lambda>_.
     let worker = with_transaction_receipts include_receipts (worker_new worker_id (lease_seconds * 1000000) chunk_size) in
     case chain_id of
       Some chain_id \<Rightarrow>
         seq (bail_if (chain_id \<le> 0) ''chain-id must be greater than zero'') (\<lambda>_.
           ret (with_chain_id chain_id worker))
     | None \<Rightarrow> ret worker))))"

text \<open>\<open>answered\<close> is the node as far as it answered before a shutdown request, if there was one.\<close>

definition worker_run_once ::
  "console \<Rightarrow> string \<Rightarrow> string \<Rightarrow> string \<Rightarrow> int option \<Rightarrow> int \<Rightarrow> u64 \<Rightarrow> bool \<Rightarrow> rpc option
     \<Rightarrow> worker_outcome worker_prog"
where
  "worker_run_once co rpc_url database_url worker_id chain_id lease_seconds chunk_size include_receipts answered =
     seq (bail_if (lease_seconds \<le> 0) ''lease-seconds must be greater than zero'') (\<lambda>_.
     seq (build_worker co database_url worker_id chain_id lease_seconds chunk_size include_receipts) (\<lambda>worker.
     seq (run_once_until_shutdown ((co_su co)\<lparr>su_rpc := co_node co rpc_url\<rparr>) worker answered) (\<lambda>ended.
     if is_terminal_failure ended
     then (case ended of
         FailedJob job_id _ _ \<Rightarrow>
           throw (ConfigError (''ingest job '' @ uuid_display (co_crates co) job_id @ '' is dead-lettered''))
       | _ \<Rightarrow> ret ended)
     else ret ended)))"

text \<open>
  The loop of the continuous worker. In round \<open>k\<close> the surroundings are \<open>sg_su k\<close>, a shutdown during
  a job is \<open>sg_answered k\<close>, and a shutdown while the worker sleeps on an empty queue is \<open>sg_idle_stop k\<close>. The result
  is the number of attempted jobs; \<open>None\<close> is a run that does not end.
\<close>

record signals =
  sg_su :: "nat \<Rightarrow> surroundings"
  sg_answered :: "nat \<Rightarrow> rpc option"
  sg_idle_stop :: "nat \<Rightarrow> bool"
  sg_node :: "nat \<Rightarrow> string \<Rightarrow> rpc"

partial_function (option) worker_loop ::
  "signals \<Rightarrow> ingest_worker \<Rightarrow> nat option \<Rightarrow> bool \<Rightarrow> nat \<Rightarrow> nat \<Rightarrow> worker_state \<Rightarrow> (nat result \<times> worker_state) option"
where
  "worker_loop sg w max_jobs stop_when_idle k attempted s =
     (if (case max_jobs of Some n \<Rightarrow> attempted \<ge> n | None \<Rightarrow> False) then Some (Ok attempted, s)
      else
        (case run_once_until_shutdown (sg_su sg k) w (sg_answered sg k) s of
           (Err e, t) \<Rightarrow> Some (Err e, t)
         | (Ok NoJob, t) \<Rightarrow>
             if stop_when_idle \<or> sg_idle_stop sg k then Some (Ok attempted, t)
             else worker_loop sg w max_jobs stop_when_idle (k + 1) attempted t
         | (Ok (Processed _ _), t) \<Rightarrow> worker_loop sg w max_jobs stop_when_idle (k + 1) (attempted + 1) t
         | (Ok (FailedJob _ _ _), t) \<Rightarrow> worker_loop sg w max_jobs stop_when_idle (k + 1) (attempted + 1) t
         | (Ok (Interrupted _ _), t) \<Rightarrow> Some (Ok attempted, t)))"

text \<open>The listener of the metrics is bound before the first round; the rounds of a URL ask the node behind it.\<close>

definition start_metrics_server :: "console \<Rightarrow> string \<Rightarrow> unit worker_prog" where
  "start_metrics_server co bind =
     lift (ensure (co_bind co bind) (ConfigError (''bind worker metrics listener on '' @ bind)))"

definition with_node :: "string \<Rightarrow> signals \<Rightarrow> signals" where
  "with_node rpc_url sg = sg\<lparr>sg_su := (\<lambda>k. (sg_su sg k)\<lparr>su_rpc := sg_node sg k rpc_url\<rparr>)\<rparr>"

definition worker_run ::
  "console \<Rightarrow> signals \<Rightarrow> string \<Rightarrow> string \<Rightarrow> string \<Rightarrow> int option \<Rightarrow> int \<Rightarrow> u64 \<Rightarrow> nat option \<Rightarrow> bool \<Rightarrow> bool
     \<Rightarrow> string option \<Rightarrow> worker_state \<Rightarrow> (nat result \<times> worker_state) option"
where
  "worker_run co sg rpc_url database_url worker_id chain_id lease_seconds chunk_size max_jobs stop_when_idle
     include_receipts metrics_bind s =
     (if max_jobs = Some 0 then Some (Err (ConfigError ''max-jobs must be greater than zero when provided''), s)
      else
        (case seq (build_worker co database_url worker_id chain_id lease_seconds chunk_size include_receipts) (\<lambda>worker.
              seq (case metrics_bind of Some bind \<Rightarrow> start_metrics_server co bind | None \<Rightarrow> ret ()) (\<lambda>_. ret worker)) s of
           (Err e, t) \<Rightarrow> Some (Err e, t)
         | (Ok worker, t) \<Rightarrow> worker_loop (with_node rpc_url sg) worker max_jobs stop_when_idle 0 0 t))"

section \<open>The job counts\<close>

definition job_count :: "(string \<times> nat) list \<Rightarrow> job_status \<Rightarrow> int" where
  "job_count counts status =
     (case List.find (\<lambda>row. fst row = job_status_as_str status) counts of Some row \<Rightarrow> int (snd row) | None \<Rightarrow> 0)"

text \<open>What \<open>print_job_status_counts\<close> prints: a line per status and the total. The rows are collected into a map, in
  which a later row of a status replaces an earlier one.\<close>

definition job_status_report :: "(string \<times> nat) list \<Rightarrow> (string \<times> int) list \<times> int" where
  "job_status_report counts =
     (let count_of = (\<lambda>status. case map_of (rev counts) (job_status_as_str status) of Some n \<Rightarrow> int n | None \<Rightarrow> 0);
          lines = map (\<lambda>status. (job_status_as_str status, count_of status))
            [Queued, Leased, Running, Succeeded, Failed, DeadLettered, Cancelled]
      in (lines, sum_list (map snd lines)))"

definition jobs_status ::
  "console \<Rightarrow> string \<Rightarrow> int option \<Rightarrow> string option \<Rightarrow> string option \<Rightarrow> ((string \<times> int) list \<times> int) worker_prog"
where
  "jobs_status co database_url chain_id contract job_type =
     seq (build_pool co database_url) (\<lambda>_.
     seq (lift (transpose (map_option normalize_address contract))) (\<lambda>contract.
     seq (case contract of
           Some contract \<Rightarrow>
             seq (lift (ok_or (ConfigError ''--chain-id is required when --contract is used'') chain_id)) (\<lambda>chain_id.
             seq (existing_source chain_id contract) (\<lambda>source. ret (Some (so_id source))))
         | None \<Rightarrow> ret None) (\<lambda>source_id.
     seq (lift (transpose (map_option (\<lambda>value. case job_type_from_str value of
           Err e \<Rightarrow> Err (DomainFailure e) | Ok t \<Rightarrow> Ok t) job_type))) (\<lambda>job_type.
     seq (on_db (status_counts chain_id source_id job_type)) (\<lambda>counts.
       ret (job_status_report counts))))))"

end
