(* ===== verification/Doctor.thy ===== *)
theory Doctor
  imports Cli
begin

text \<open>
  The health report (\<open>doctor\<close> in src/main.rs). It reads the database and the node and prints a
  list of checks, of which a failing one makes the command fail. The outcomes of connecting,
  of listing the pending migrations and of building the pool, and the texts of errors, are given.
\<close>

datatype doctor_status = Healthy | Warn | Fail

record doctor_check =
  dc_name :: string
  dc_status :: doctor_status
  dc_message :: string

definition check_ok :: "string \<Rightarrow> string \<Rightarrow> doctor_check" where
  "check_ok name message = \<lparr>dc_name = name, dc_status = Healthy, dc_message = message\<rparr>"

definition check_warn :: "string \<Rightarrow> string \<Rightarrow> doctor_check" where
  "check_warn name message = \<lparr>dc_name = name, dc_status = Warn, dc_message = message\<rparr>"

definition check_fail :: "string \<Rightarrow> string \<Rightarrow> doctor_check" where
  "check_fail name message = \<lparr>dc_name = name, dc_status = Fail, dc_message = message\<rparr>"

definition status_label :: "doctor_status \<Rightarrow> string" where
  "status_label s = (case s of Healthy \<Rightarrow> ''ok'' | Warn \<Rightarrow> ''warn'' | Fail \<Rightarrow> ''fail'')"

record probes =
  pb_connect :: "string + unit"
  pb_pending :: "string + string list"
  pb_pool :: "string + unit"
  pb_error_text :: "app_error \<Rightarrow> string"

fun join :: "string \<Rightarrow> string list \<Rightarrow> string" where
  "join sep [] = []"
| "join sep [x] = x"
| "join sep (x # xs) = x @ sep @ join sep xs"

definition skipped :: "string list \<Rightarrow> string \<Rightarrow> doctor_check list" where
  "skipped names reason = map (\<lambda>name. check_fail name reason) names"

section \<open>Connection and node\<close>

definition migration_check :: "probes \<Rightarrow> doctor_check" where
  "migration_check pb =
     (case pb_pending pb of
        Inr [] \<Rightarrow> check_ok ''migrations applied'' ''no pending migrations''
      | Inr names \<Rightarrow> check_fail ''migrations applied'' (''pending migrations: '' @ join '', '' names)
      | Inl error \<Rightarrow> check_fail ''migrations applied'' (''could not inspect migrations: '' @ error))"

definition connection_checks :: "probes \<Rightarrow> doctor_check list" where
  "connection_checks pb =
     (case pb_connect pb of
        Inr _ \<Rightarrow> [check_ok ''DB connection'' ''connected to Postgres'', migration_check pb]
      | Inl error \<Rightarrow>
          check_fail ''DB connection'' (''could not connect to Postgres: '' @ error)
          # skipped [''migrations applied''] ''skipped because DB connection failed'')"

definition node_checks :: "probes \<Rightarrow> rpc \<Rightarrow> doctor_check list" where
  "node_checks pb rpc =
     (case rpc_block_number rpc of
        Ok head \<Rightarrow> [check_ok ''RPC reachable'' ''eth_blockNumber succeeded'',
                    check_ok ''chain head readable'' (''head block '' @ show_u64 head)]
      | Err error \<Rightarrow>
          check_fail ''RPC reachable'' (''eth_blockNumber failed: '' @ pb_error_text pb error)
          # skipped [''chain head readable''] ''skipped because RPC head read failed'')"

section \<open>The source\<close>

definition source_errors :: "probes \<Rightarrow> bool \<Rightarrow> int \<Rightarrow> string \<Rightarrow> source_row \<Rightarrow> string list" where
  "source_errors pb chain_missing chain_id contract source =
     (if chain_missing then [''chain '' @ show_int chain_id @ '' missing''] else [])
     @ (if so_contract_address source \<noteq> contract
        then [''stored contract '' @ so_contract_address source @ '' does not match '' @ contract] else [])
     @ (case standard_from_str (so_token_standard source) of
          Ok standard \<Rightarrow>
            if standard_is_auto standard then [''token standard must be detected before persistence''] else []
        | Err error \<Rightarrow> [''invalid token standard: '' @ pb_error_text pb error])
     @ (if so_start_block source < 0 then [''start_block '' @ show_int (so_start_block source) @ '' is negative''] else [])
     @ (if \<not> so_enabled source then [''source is disabled''] else [])"

definition source_config_check :: "crates \<Rightarrow> probes \<Rightarrow> bool \<Rightarrow> int \<Rightarrow> string \<Rightarrow> source_row \<Rightarrow> doctor_check" where
  "source_config_check c pb chain_missing chain_id contract source =
     (let errors = source_errors pb chain_missing chain_id contract source
      in if errors = []
         then check_ok ''source config valid''
           (''source '' @ uuid_display c (so_id source) @ '' '' @ so_token_standard source @ '' from block ''
              @ show_int (so_start_block source))
         else check_fail ''source config valid'' (join ''; '' errors))"

definition checkpoint_check_of :: "probes \<Rightarrow> checkpoint_row option result \<Rightarrow> doctor_check" where
  "checkpoint_check_of pb found =
     (case found of
        Ok (Some checkpoint) \<Rightarrow>
          check_ok ''checkpoint exists''
            (''processed block '' @ show_int (ck_processed_block checkpoint) @ '' finalized block ''
               @ show_int (ck_finalized_block checkpoint))
      | Ok None \<Rightarrow> check_fail ''checkpoint exists'' ''source has no checkpoint''
      | Err error \<Rightarrow> check_fail ''checkpoint exists'' (''could not load checkpoint: '' @ pb_error_text pb error))"

definition job_checks :: "probes \<Rightarrow> (string \<times> nat) list result \<Rightarrow> doctor_check list" where
  "job_checks pb loaded =
     (case loaded of
        Ok counts \<Rightarrow>
          (let backlog = job_count counts Queued + job_count counts Leased + job_count counts Running
                 + job_count counts Failed;
               dead_letters = job_count counts DeadLettered
           in [if backlog = 0 then check_ok ''job backlog'' ''no active backlog''
               else check_warn ''job backlog'' (show_int backlog @ '' queued/leased/running/failed job(s)''),
               if dead_letters = 0 then check_ok ''dead-letter counts'' ''no dead-lettered jobs''
               else check_warn ''dead-letter counts'' (show_int dead_letters @ '' dead-lettered job(s)'')])
      | Err error \<Rightarrow>
          skipped [''job backlog'', ''dead-letter counts''] (''could not load job status counts: '' @ pb_error_text pb error))"

text \<open>The chain's check is there only if the chain was not found.\<close>

definition chain_checks :: "probes \<Rightarrow> int \<Rightarrow> chain_row option result \<Rightarrow> doctor_check list" where
  "chain_checks pb chain_id loaded =
     (case loaded of
        Ok (Some _) \<Rightarrow> []
      | Ok None \<Rightarrow> [check_fail ''source config valid'' (''chain '' @ show_int chain_id @ '' is not configured'')]
      | Err error \<Rightarrow> [check_fail ''source config valid'' (''could not load chain config: '' @ pb_error_text pb error)])"

definition source_missing_check :: "probes \<Rightarrow> int \<Rightarrow> string \<Rightarrow> source_row option result \<Rightarrow> doctor_check list" where
  "source_missing_check pb chain_id contract loaded =
     (case loaded of
        Ok (Some _) \<Rightarrow> []
      | Ok None \<Rightarrow> [check_fail ''source config valid''
          (''source for '' @ contract @ '' on chain '' @ show_int chain_id @ '' was not found'')]
      | Err error \<Rightarrow> [check_fail ''source config valid'' (''could not load source config: '' @ pb_error_text pb error)])"

definition present :: "'a option result \<Rightarrow> 'a option" where
  "present r = (case r of Ok x \<Rightarrow> x | Err _ \<Rightarrow> None)"

definition source_check_names :: "string list" where
  "source_check_names = [''checkpoint exists'', ''job backlog'', ''dead-letter counts'']"

definition doctor_source_checks ::
  "crates \<Rightarrow> probes \<Rightarrow> int \<Rightarrow> string option \<Rightarrow> doctor_check list worker_prog"
where
  "doctor_source_checks c pb chain_id contract =
     (case contract of
        None \<Rightarrow> ret (skipped source_check_names ''skipped because contract address is invalid'')
      | Some contract \<Rightarrow>
          seq (outcome_of (on_db (chain_by_chain_id chain_id))) (\<lambda>chain.
          seq (outcome_of (on_db (source_by_contract chain_id contract))) (\<lambda>found.
          let checks = chain_checks pb chain_id chain @ source_missing_check pb chain_id contract found in
          case present found of
            None \<Rightarrow> ret (checks @ skipped source_check_names ''skipped because source config is missing'')
          | Some source \<Rightarrow>
              seq (outcome_of (on_db (checkpoint_row_for_source (so_id source)))) (\<lambda>checkpoint.
              seq (outcome_of (on_db (status_counts (Some chain_id) (Some (so_id source)) None))) (\<lambda>counts.
                ret (checks
                  @ [source_config_check c pb (present chain = None) chain_id contract source,
                     checkpoint_check_of pb checkpoint]
                  @ job_checks pb counts))))))"

section \<open>The report\<close>

definition repository_checks :: "console \<Rightarrow> probes \<Rightarrow> int \<Rightarrow> string option \<Rightarrow> doctor_check list worker_prog" where
  "repository_checks co pb chain_id contract =
     (if is_ok (pb_connect pb) then
        (case pb_pool pb of
           Inr _ \<Rightarrow> doctor_source_checks (co_crates co) pb chain_id contract
         | Inl error \<Rightarrow>
             ret (check_fail ''source config valid'' (''could not build Postgres pool: '' @ error)
               # skipped source_check_names ''skipped because repository pool failed''))
      else ret (skipped (''source config valid'' # source_check_names) ''skipped because DB connection failed''))"

text \<open>The checks in the order of the report; the command fails if one of them fails.\<close>

definition doctor_checks :: "console \<Rightarrow> probes \<Rightarrow> string \<Rightarrow> int \<Rightarrow> string \<Rightarrow> doctor_check list worker_prog" where
  "doctor_checks co pb rpc_url chain_id contract =
     (let address = normalize_address contract;
          first = (case address of
              Ok _ \<Rightarrow> []
            | Err error \<Rightarrow> [check_fail ''source config valid'' (pb_error_text pb error)])
      in seq (repository_checks co pb chain_id (case address of Ok a \<Rightarrow> Some a | Err _ \<Rightarrow> None)) (\<lambda>checks.
           ret (first @ connection_checks pb @ node_checks pb (co_node co rpc_url) @ checks)))"

definition doctor :: "console \<Rightarrow> probes \<Rightarrow> string \<Rightarrow> int \<Rightarrow> string \<Rightarrow> doctor_check list worker_prog" where
  "doctor co pb rpc_url chain_id contract =
     seq (bail_if (chain_id \<le> 0) ''chain-id must be greater than zero'') (\<lambda>_.
     seq (doctor_checks co pb rpc_url chain_id contract) (\<lambda>checks.
     let failures = length (filter (\<lambda>check. dc_status check = Fail) checks) in
     if failures > 0 then throw (ConfigError (''doctor found '' @ show_nat failures @ '' failing check(s)''))
     else ret checks))"

text \<open>A line of the printed report.\<close>

definition report_line :: "doctor_check \<Rightarrow> string" where
  "report_line check = ''- ['' @ status_label (dc_status check) @ ''] '' @ dc_name check @ '': '' @ dc_message check"

end
