(* ===== verification/Cli_Worker_Spec.thy ===== *)
theory Cli_Worker_Spec
  imports Cli Worker_Spec
begin

text \<open>
  The continuous worker: when it stops on an idle queue it has drained it. The measure of a round is the
  one of \<open>run_once_progress\<close>; what an idle round tells is what an empty lease tells.
\<close>

section \<open>An idle round\<close>

definition supported :: "job_type list \<Rightarrow> ingest_worker \<Rightarrow> job_row \<Rightarrow> bool" where
  "supported types w r \<longleftrightarrow> jr_job_type r \<in> job_type_as_str ` set types
     \<and> (case wk_chain_id w of None \<Rightarrow> True | Some chain \<Rightarrow> jr_chain_id r = chain)"

definition waiting :: "surroundings \<Rightarrow> job_type list \<Rightarrow> ingest_worker \<Rightarrow> db \<Rightarrow> job_row \<Rightarrow> bool" where
  "waiting su types w d r \<longleftrightarrow>
     r \<in> set (db_jobs d) \<and> supported types w r \<and> jr_status r = job_status_as_str Queued \<and> \<not> su_locked su (jr_id r)"

lemma lease_none_waiting:
  assumes "lease_next_candidate (su_locked su) wid l (Some jt) (wk_chain_id w) d = (Ok None, t)"
  shows "db_jobs t = db_jobs d \<and> \<not> waiting su [jt] w d r"
proof -
  from lease_none [OF assms] have "filter (\<lambda>r. \<not> su_locked su (jr_id r)
      \<and> lease_eligible (Some jt) (wk_chain_id w) (clock (db_env d) (clock_reads (db_env d))) r) (db_jobs d) = []"
    and same: "tables t = tables d" by (simp_all add: lease_pool_def)
  then show ?thesis
    by (auto simp: waiting_def supported_def lease_eligible_def filter_empty_conv tables_eq_iff)
qed

lemma lease_first_none:
  "lease_first su w jts s = (Ok None, t) \<Longrightarrow>
     db_jobs (ws_db t) = db_jobs (ws_db s) \<and> (queue_inv (ws_db s) \<longrightarrow> queue_inv (ws_db t)) \<and> \<not> waiting su jts w (ws_db s) r"
proof (induction jts arbitrary: s)
  case Nil
  then show ?case by (simp add: waiting_def supported_def)
next
  case (Cons jt jts)
  then obtain u where u: "lease_next_supported_type su w jt s = (Ok None, u)" and rest: "lease_first su w jts u = (Ok None, t)"
    by (auto simp: seq_Ok_iff split: if_splits)
  note one = lease_none_waiting [OF supported_Ok [OF u], of r]
  have "queue_inv (ws_db s) \<Longrightarrow> queue_inv (ws_db u)" by (rule queue_step_keeps [OF step_lease [OF supported_Ok [OF u]]])
  with Cons.IH [OF rest] one show ?case by (auto simp: waiting_def supported_def)
qed

lemma run_once_no_job:
  assumes "run_once su w s = (Ok NoJob, t)" and "queue_inv (ws_db s)"
  shows "queue_inv (ws_db t) \<and> \<not> waiting su [ReplayRange, IngestRange] w (ws_db t) r"
proof -
  from assms(1) obtain s1 x u where
        o: "observe_job_backlog w s = (Ok (), s1)"
    and l: "lease_and_mark_running su w (ws_replay_first s1) s1 = (Ok x, u)"
    and rest: "(case x of None \<Rightarrow> ret NoJob | Some q \<Rightarrow>
        seq (outcome_of (execute_job su w q)) (\<lambda>result. seq (finish_running_job su q result) (\<lambda>ended.
        seq (update_priority_after_outcome q ended) (\<lambda>_. seq (observe_job_backlog w) (\<lambda>_. ret ended))))) u = (Ok NoJob, t)"
    by (auto simp: run_once_def seq_Ok_iff)
  have "x = None \<and> u = t"
  proof (cases x)
    case None
    with rest show ?thesis by simp
  next
    case (Some q)
    with rest obtain result v v' where "finish_running_job su q result v = (Ok NoJob, v')"
      by (auto simp: seq_Ok_iff)
    then have False
      by (cases result) (auto simp: finish_running_job_def seq_Ok_iff Let_def)
    then show ?thesis ..
  qed
  with l have "lease_and_mark_running su w (ws_replay_first s1) s1 = (Ok None, t)" by simp
  then have "lease_first su w (if ws_replay_first s1 then [ReplayRange, IngestRange] else [IngestRange, ReplayRange]) s1 = (Ok None, t)"
    by (auto simp: lease_and_mark_running_def seq_Ok_iff split: if_splits option.splits)
  from lease_first_none [OF this, of r] queue_inv_calm [OF backlog_calm(1) o assms(2)] show ?thesis
    by (auto simp: waiting_def supported_def split: if_splits)
qed

lemma run_once_until_quiet: "run_once_until_shutdown su w None = run_once su w"
  by (simp add: run_once_until_shutdown_def run_once_def cong: option.case_cong)

section \<open>Draining\<close>

lemma worker_loop_drains:
  assumes "queue_inv (ws_db s)" and "\<And>k. sg_answered sg k = None"
  shows "\<exists>x t. worker_loop sg w None True k n s = Some (x, t) \<and> (\<forall>m. x = Ok m \<longrightarrow>
     int m \<le> int n + queue_work (ws_db s) \<and> queue_inv (ws_db t)
     \<and> (\<exists>j. \<forall>r. \<not> waiting (sg_su sg j) [ReplayRange, IngestRange] w (ws_db t) r))"
  using assms(1)
proof (induction "nat (queue_work (ws_db s))" arbitrary: s n k rule: less_induct)
  case less
  note loop = worker_loop.simps [of sg w None True k n s]
  obtain y t where run: "run_once (sg_su sg k) w s = (y, t)" by (cases "run_once (sg_su sg k) w s")
  show ?case
  proof (cases y)
    case (Inl e)
    with loop run assms(2) show ?thesis by (simp add: run_once_until_quiet)
  next
    case (Inr ended)
    note run = run [unfolded Inr]
    show ?thesis
    proof (cases "ended = NoJob")
      case True
      with loop run assms(2) run_once_no_job [OF run [unfolded True] less.prems] queue_work_nonneg [of "ws_db s"]
      show ?thesis by (auto simp: run_once_until_quiet)
    next
      case job: False
      note one = run_once_progress [OF run less.prems job]
      then have "nat (queue_work (ws_db t)) < nat (queue_work (ws_db s))"
        using queue_work_nonneg [of "ws_db t"] by simp
      from less.hyps [OF this] one obtain x t' where
            r: "worker_loop sg w None True (k + 1) (n + 1) t = Some (x, t')"
        and x: "\<forall>m. x = Ok m \<longrightarrow> int m \<le> int (n + 1) + queue_work (ws_db t) \<and> queue_inv (ws_db t')
          \<and> (\<exists>j. \<forall>r. \<not> waiting (sg_su sg j) [ReplayRange, IngestRange] w (ws_db t') r)"
        by blast
      have "worker_loop sg w None True k n s = Some (x, t')"
        using loop run one r assms(2) by (cases ended) (simp_all add: run_once_until_quiet)
      moreover have "int (n + 1) + queue_work (ws_db t) \<le> int n + queue_work (ws_db s)" using one by simp
      ultimately show ?thesis using x by (intro exI [of _ x] exI [of _ t']) force
    qed
  qed
qed

lemma lift_run: "lift r s = (r, s)"
  by (simp add: lift_def)

lemma bail_if_run: "bail_if b m s = (if b then Err (ConfigError m) else Ok (), s)"
  by (simp add: bail_if_def lift_run ensure_def)

lemma build_worker_result:
  assumes "build_worker co database_url worker_id chain_id lease_seconds chunk_size include_receipts s = (x, t)"
  shows "t = s \<and> (\<forall>w. x = Ok w \<longrightarrow> wk_chain_id w = chain_id)"
  using assms
  by (auto simp: build_worker_def build_pool_def seq_def bail_if_run lift_run ensure_def Let_def with_chain_id_def
      with_transaction_receipts_def worker_new_def split: if_splits option.splits)

lemma start_result:
  assumes "seq (build_worker co database_url worker_id chain_id lease_seconds chunk_size include_receipts) (\<lambda>worker.
      seq (case metrics_bind of Some bind \<Rightarrow> start_metrics_server co bind | None \<Rightarrow> ret ()) (\<lambda>_. ret worker)) s = (x, t)"
  shows "t = s \<and> (\<forall>w. x = Ok w \<longrightarrow> wk_chain_id w = chain_id)"
proof -
  obtain y u where build: "build_worker co database_url worker_id chain_id lease_seconds chunk_size include_receipts s = (y, u)"
    by (cases "build_worker co database_url worker_id chain_id lease_seconds chunk_size include_receipts s")
  with build_worker_result [OF build] assms show ?thesis
    by (cases y; cases metrics_bind)
       (auto simp: seq_def start_metrics_server_def lift_run ensure_def ret_def split: if_splits)
qed

lemma not_waiting_locked:
  assumes "\<And>r. \<not> waiting su [ReplayRange, IngestRange] w d r" and "wk_chain_id w = chain_id"
    and "r \<in> set (db_jobs d)" and "jr_status r = ''queued''" and "jr_job_type r \<in> {''INGEST_RANGE'', ''REPLAY_RANGE''}"
    and "case chain_id of None \<Rightarrow> True | Some chain \<Rightarrow> jr_chain_id r = chain"
  shows "su_locked su (jr_id r)"
  using assms(1) [of r] assms(2-) by (auto simp: waiting_def supported_def split: option.splits)

text \<open>C13: A continuous worker that stops on an idle queue, and is asked for neither a maximum number of jobs nor a
  shutdown, ends on every queue that satisfies the invariant, whatever its arguments, the answers
  of the node and the locks of others are. If it does not end with an error, it has attempted at most
  the rounds that the open jobs had left, and it has drained the queue: an ingest or replay job
  of its chain that is still queued is one that another transaction holds locked in its last round.\<close>

theorem worker_run_drains:
  assumes "queue_inv (ws_db s)" and "\<And>k. sg_answered sg k = None"
  shows "\<exists>x t. worker_run co sg rpc_url database_url worker_id chain_id lease_seconds chunk_size None True
         include_receipts metrics_bind s = Some (x, t) \<and> (\<forall>m. x = Ok m \<longrightarrow>
     int m \<le> queue_work (ws_db s) \<and> queue_inv (ws_db t)
     \<and> (\<exists>last. \<forall>r \<in> set (db_jobs (ws_db t)).
          jr_status r = ''queued'' \<and> jr_job_type r \<in> {''INGEST_RANGE'', ''REPLAY_RANGE''}
            \<and> (case chain_id of None \<Rightarrow> True | Some chain \<Rightarrow> jr_chain_id r = chain)
          \<longrightarrow> su_locked (sg_su sg last) (jr_id r)))"
proof -
  let ?start = "seq (build_worker co database_url worker_id chain_id lease_seconds chunk_size include_receipts) (\<lambda>worker.
      seq (case metrics_bind of Some bind \<Rightarrow> start_metrics_server co bind | None \<Rightarrow> ret ()) (\<lambda>_. ret worker))"
  obtain y u where start: "?start s = (y, u)" by (cases "?start s")
  note u = start_result [OF start]
  show ?thesis
  proof (cases y)
    case (Inl e)
    with start show ?thesis by (simp add: worker_run_def)
  next
    case (Inr w)
    have "sg_answered (with_node rpc_url sg) k = None" for k using assms(2) by (simp add: with_node_def)
    from worker_loop_drains [OF assms(1) this, of w 0 0] obtain x t where
          run: "worker_loop (with_node rpc_url sg) w None True 0 0 s = Some (x, t)"
      and x: "\<forall>m. x = Ok m \<longrightarrow> int m \<le> queue_work (ws_db s) \<and> queue_inv (ws_db t)
        \<and> (\<exists>j. \<forall>r. \<not> waiting (sg_su (with_node rpc_url sg) j) [ReplayRange, IngestRange] w (ws_db t) r)"
      by auto
    have "wk_chain_id w = chain_id" using u Inr by simp
    moreover have "su_locked (sg_su (with_node rpc_url sg) j) = su_locked (sg_su sg j)" for j by (simp add: with_node_def)
    ultimately have "\<forall>m. x = Ok m \<longrightarrow> int m \<le> queue_work (ws_db s) \<and> queue_inv (ws_db t)
        \<and> (\<exists>last. \<forall>r \<in> set (db_jobs (ws_db t)).
          jr_status r = ''queued'' \<and> jr_job_type r \<in> {''INGEST_RANGE'', ''REPLAY_RANGE''}
            \<and> (case chain_id of None \<Rightarrow> True | Some chain \<Rightarrow> jr_chain_id r = chain)
          \<longrightarrow> su_locked (sg_su sg last) (jr_id r))"
      using x not_waiting_locked by metis
    moreover have "worker_run co sg rpc_url database_url worker_id chain_id lease_seconds chunk_size None True
        include_receipts metrics_bind s = Some (x, t)"
      using start run u Inr by (simp add: worker_run_def)
    ultimately show ?thesis by blast
  qed
qed

definition sample_console :: console where
  "sample_console = \<lparr>co_env = (\<lambda>_. None), co_node = (\<lambda>_. mint_rpc), co_pool = (\<lambda>_. True), co_bind = (\<lambda>_. True),
     co_su = mint_su\<rparr>"

definition steady :: signals where
  "steady = \<lparr>sg_su = (\<lambda>_. mint_su), sg_answered = (\<lambda>_. None), sg_idle_stop = (\<lambda>_. False),
     sg_node = (\<lambda>_ _. mint_rpc)\<rparr>"

text \<open>C13 at the sample queue, which has one job with two attempts.\<close>

theorem worker_run_drains_witness:
  "\<exists>x t. worker_run sample_console steady ''url'' ''db'' ''w'' (Some 1) 60 4 None True False None worker_start = Some (x, t)
     \<and> (\<forall>m. x = Ok m \<longrightarrow> m \<le> 3 \<and> list_all (\<lambda>r. jr_chain_id r = 1 \<longrightarrow> jr_job_type r = ''INGEST_RANGE''
          \<longrightarrow> jr_status r \<noteq> ''queued'') (db_jobs (ws_db t)))"
proof -
  have "queue_work (ws_db worker_start) = 3" by code_simp
  moreover have "queue_inv (ws_db worker_start)" using worker_start_inv by (simp add: worker_inv_def)
  moreover have "su_locked (sg_su steady k) i = False" for k i by (simp add: steady_def mint_su_def)
  ultimately show ?thesis
    using worker_run_drains [of worker_start steady sample_console "''url''" "''db''" "''w''" "Some 1" 60 4 False None]
    by (fastforce simp: steady_def list_all_iff)
qed

end
