(* ===== verification/Doctor_Spec.thy ===== *)
theory Doctor_Spec
  imports Doctor Cli_Worker_Spec
begin

text \<open>
  What the health report promises: when it passes and what it warns of, with the sample program of the
  command line's theories.
\<close>

section \<open>Reads\<close>

lemma read_run:
  "on_db (seq connection (\<lambda>_. reads g)) s
     = (if pool_available (db_env (ws_db s)) then Ok (g (ws_db s)) else Err PoolUnavailable, s)"
  by (simp add: on_db_def reads_def)

lemma seq_outcome_of: "seq (outcome_of m) f s = (case m s of (r, t) \<Rightarrow> f r t)"
  by (simp add: outcome_of_def seq_def split: prod.split)

definition pooled :: "worker_state \<Rightarrow> 'a \<Rightarrow> 'a result" where
  "pooled s a = (if pool_available (db_env (ws_db s)) then Ok a else Err PoolUnavailable)"

lemma lookup_runs:
  "on_db (chain_by_chain_id i) s = (pooled s (List.find (\<lambda>r. ch_chain_id r = i) (db_chains (ws_db s))), s)"
  "on_db (source_by_contract i a) s
     = (pooled s (List.find (\<lambda>r. source_key r = (i, to_ascii_lowercase a)) (db_sources (ws_db s))), s)"
  "on_db (checkpoint_row_for_source sid) s
     = (pooled s (List.find (\<lambda>r. ck_source_id r = sid) (db_checkpoints (ws_db s))), s)"
  by (simp_all add: chain_by_chain_id_def source_by_contract_def source_by_contract_conn_def checkpoint_row_for_source_def
      read_run pooled_def)

lemma find_keyed:
  "List.find (\<lambda>p. fst p = k) (map (\<lambda>s. (s, f s)) xs) = (if k \<in> set xs then Some (k, f k) else None)"
  by (induction xs) auto

definition counts_of :: "job_row list \<Rightarrow> (string \<times> nat) list" where
  "counts_of rows = map (\<lambda>s. (s, count_rows (\<lambda>r. jr_status r = s) rows)) (btree_set (map jr_status rows))"

lemma job_count_counts:
  "job_count (counts_of rows) status = int (count_rows (\<lambda>r. jr_status r = job_status_as_str status) rows)"
  by (auto simp: job_count_def counts_of_def find_keyed count_rows_def filter_empty_conv image_iff)

lemma status_counts_run:
  "on_db (status_counts chain sid jt) s
     = (pooled s (counts_of (filter (job_matches chain sid jt) (db_jobs (ws_db s)))), s)"
  by (simp add: status_counts_def read_run counts_of_def Let_def pooled_def)

section \<open>The health report\<close>

text \<open>What the report asks of the source of a contract.\<close>

definition fit_source :: "source_row \<Rightarrow> bool" where
  "fit_source source \<longleftrightarrow>
     (\<exists>standard. standard_from_str (so_token_standard source) = Ok standard \<and> standard \<noteq> Auto)
     \<and> 0 \<le> so_start_block source \<and> so_enabled source"

definition healthy_source :: "db \<Rightarrow> int \<Rightarrow> string \<Rightarrow> source_row \<Rightarrow> bool" where
  "healthy_source d chain_id contract source \<longleftrightarrow>
     normalize_address contract = Ok (so_contract_address source)
     \<and> (\<exists>c \<in> set (db_chains d). ch_chain_id c = chain_id)
     \<and> List.find (\<lambda>r. source_key r = (chain_id, so_contract_address source)) (db_sources d) = Some source
     \<and> fit_source source \<and> (\<exists>k \<in> set (db_checkpoints d). ck_source_id k = so_id source)"

definition passing :: "doctor_check list \<Rightarrow> bool" where
  "passing checks \<longleftrightarrow> (\<forall>check \<in> set checks. dc_status check \<noteq> Fail)"

lemma passing_simps [simp]:
  "passing []" "passing (check_ok n m # cs) \<longleftrightarrow> passing cs" "passing (check_warn n m # cs) \<longleftrightarrow> passing cs"
  "\<not> passing (check_fail n m # cs)" "passing (cs @ cs') \<longleftrightarrow> passing cs \<and> passing cs'"
  "names \<noteq> [] \<Longrightarrow> \<not> passing (skipped names reason)"
  by (auto simp: passing_def check_ok_def check_warn_def check_fail_def skipped_def)

lemma source_config_passes:
  "passing (source_config_check c pb missing chain contract source # cs) \<longleftrightarrow>
     \<not> missing \<and> so_contract_address source = contract \<and> fit_source source \<and> passing cs"
proof -
  have "source_errors pb missing chain contract source = [] \<longleftrightarrow>
      \<not> missing \<and> so_contract_address source = contract \<and> fit_source source"
    by (auto simp: source_errors_def fit_source_def standard_is_auto_def split: sum.split)
  then show ?thesis by (auto simp: source_config_check_def Let_def)
qed

text \<open>The jobs the report counts as a backlog.\<close>

definition backlog_job :: "int \<Rightarrow> source_row \<Rightarrow> job_row \<Rightarrow> bool" where
  "backlog_job chain_id source r \<longleftrightarrow>
     jr_chain_id r = chain_id \<and> jr_source_id r = Some (so_id source)
     \<and> jr_status r \<in> {''queued'', ''leased'', ''running'', ''failed''}"

lemma no_backlog:
  "job_count (counts_of rows) Queued + job_count (counts_of rows) Leased + job_count (counts_of rows) Running
     + job_count (counts_of rows) Failed = 0
   \<longleftrightarrow> (\<forall>r \<in> set rows. jr_status r \<notin> {''queued'', ''leased'', ''running'', ''failed''})"
proof -
  have "int a + int b + int c + int d = 0 \<longleftrightarrow> a = 0 \<and> b = 0 \<and> c = 0 \<and> d = 0" for a b c d by arith
  then show ?thesis by (auto simp: job_count_counts count_rows_def filter_empty_conv)
qed

definition backlog_warned :: "doctor_check list \<Rightarrow> bool" where
  "backlog_warned checks \<longleftrightarrow> (\<exists>check \<in> set checks. dc_name check = ''job backlog'' \<and> dc_status check = Warn)"

lemma backlog_warned_simps [simp]:
  "\<not> backlog_warned []" "backlog_warned (cs @ cs') \<longleftrightarrow> backlog_warned cs \<or> backlog_warned cs'"
  "backlog_warned (check_ok n m # cs) \<longleftrightarrow> backlog_warned cs" "backlog_warned (check_fail n m # cs) \<longleftrightarrow> backlog_warned cs"
  "backlog_warned (check_warn n m # cs) \<longleftrightarrow> n = ''job backlog'' \<or> backlog_warned cs"
  "backlog_warned (skipped names reason) \<longleftrightarrow> False"
  by (auto simp: backlog_warned_def check_ok_def check_warn_def check_fail_def skipped_def)

lemma backlog_warned_checks [simp]:
  "backlog_warned (source_config_check c pb missing chain contract source # cs) \<longleftrightarrow> backlog_warned cs"
  "backlog_warned (checkpoint_check_of pb k # cs) \<longleftrightarrow> backlog_warned cs"
  "passing (checkpoint_check_of pb k # cs) \<longleftrightarrow> present k \<noteq> None \<and> passing cs"
  by (auto simp: source_config_check_def Let_def checkpoint_check_of_def present_def split: sum.split option.split)

lemma find_ex: "(\<exists>y. List.find P xs = Some y) \<longleftrightarrow> (\<exists>y \<in> set xs. P y)"
  by (induction xs) auto

lemma doctor_source_outcome:
  "\<exists>checks. doctor_source_checks c pb chain_id contract s = (Ok checks, s)
     \<and> (passing checks \<longleftrightarrow> pool_available (db_env (ws_db s))
          \<and> (\<exists>a source. contract = Some a \<and> so_contract_address source = a
               \<and> (\<exists>k \<in> set (db_chains (ws_db s)). ch_chain_id k = chain_id)
               \<and> List.find (\<lambda>r. source_key r = (chain_id, to_ascii_lowercase a)) (db_sources (ws_db s)) = Some source
               \<and> fit_source source \<and> (\<exists>k \<in> set (db_checkpoints (ws_db s)). ck_source_id k = so_id source)))
     \<and> (\<forall>a source. contract = Some a \<longrightarrow> passing checks
          \<longrightarrow> List.find (\<lambda>r. source_key r = (chain_id, to_ascii_lowercase a)) (db_sources (ws_db s)) = Some source
          \<longrightarrow> (backlog_warned checks \<longleftrightarrow> (\<exists>r \<in> set (db_jobs (ws_db s)). backlog_job chain_id source r)))"
proof (cases contract)
  case None
  then show ?thesis by (simp add: doctor_source_checks_def source_check_names_def)
next
  case (Some a)
  let ?d = "ws_db s"
  let ?found = "List.find (\<lambda>r. source_key r = (chain_id, to_ascii_lowercase a)) (db_sources ?d)"
  let ?chain = "List.find (\<lambda>r. ch_chain_id r = chain_id) (db_chains ?d)"
  note runs = seq_outcome_of lookup_runs status_counts_run
  show ?thesis
  proof (cases "pool_available (db_env ?d)")
    case False
    with Some show ?thesis
      by (simp add: doctor_source_checks_def runs pooled_def Let_def chain_checks_def present_def source_check_names_def)
  next
    case True
    note pool = this
    show ?thesis
    proof (cases ?found)
      case None
      with Some True show ?thesis
        by (simp add: doctor_source_checks_def runs pooled_def Let_def present_def source_check_names_def)
    next
      case (Some source)
      let ?rows = "filter (job_matches (Some chain_id) (Some (so_id source)) None) (db_jobs ?d)"
      have chain: "passing (chain_checks pb chain_id (Ok ?chain)) \<longleftrightarrow> (\<exists>k \<in> set (db_chains ?d). ch_chain_id k = chain_id)"
        "backlog_warned (chain_checks pb chain_id (Ok ?chain)) \<longleftrightarrow> False"
        by (auto simp: chain_checks_def find_None_set split: option.split dest: find_Some_set)
      have "(\<forall>r \<in> set ?rows. jr_status r \<notin> {''queued'', ''leased'', ''running'', ''failed''})
          \<longleftrightarrow> \<not> (\<exists>r \<in> set (db_jobs ?d). backlog_job chain_id source r)"
        by (auto simp: backlog_job_def job_matches_def)
      note jobs = no_backlog [of ?rows, unfolded this]
      have "?chain = None \<longleftrightarrow> \<not> (\<exists>k \<in> set (db_chains ?d). ch_chain_id k = chain_id)"
        by (auto simp: find_None_set)
      with Some \<open>contract = Some a\<close> pool chain show ?thesis
        by (simp add: doctor_source_checks_def runs pooled_def present_def source_missing_check_def source_config_passes job_checks_def
            Let_def jobs find_ex) blast
    qed
  qed
qed

lemma connection_passes:
  "passing (connection_checks pb) \<longleftrightarrow> is_ok (pb_connect pb) \<and> pb_pending pb = Inr []"
  "backlog_warned (connection_checks pb) \<longleftrightarrow> False"
  by (auto simp: connection_checks_def migration_check_def split: sum.split list.split)

lemma node_passes:
  "passing (node_checks pb rpc) \<longleftrightarrow> is_ok (rpc_block_number rpc)" "backlog_warned (node_checks pb rpc) \<longleftrightarrow> False"
  by (auto simp: node_checks_def split: sum.split)

lemma normalized_lower: "normalize_address contract = Ok a \<Longrightarrow> to_ascii_lowercase a = a"
  by (auto simp: normalize_address_def Let_def split: if_splits)

lemma repository_outcome:
  assumes "\<And>a. contract = Some a \<Longrightarrow> to_ascii_lowercase a = a"
  shows "\<exists>checks. repository_checks co pb chain_id contract s = (Ok checks, s)
     \<and> (passing checks \<longleftrightarrow> is_ok (pb_connect pb) \<and> is_ok (pb_pool pb) \<and> pool_available (db_env (ws_db s))
          \<and> (\<exists>source. contract = Some (so_contract_address source)
               \<and> (\<exists>k \<in> set (db_chains (ws_db s)). ch_chain_id k = chain_id)
               \<and> List.find (\<lambda>r. source_key r = (chain_id, so_contract_address source)) (db_sources (ws_db s)) = Some source
               \<and> fit_source source \<and> (\<exists>k \<in> set (db_checkpoints (ws_db s)). ck_source_id k = so_id source)))
     \<and> (\<forall>source. passing checks \<longrightarrow> contract = Some (so_contract_address source)
          \<longrightarrow> List.find (\<lambda>r. source_key r = (chain_id, so_contract_address source)) (db_sources (ws_db s)) = Some source
          \<longrightarrow> (backlog_warned checks \<longleftrightarrow> (\<exists>r \<in> set (db_jobs (ws_db s)). backlog_job chain_id source r)))"
proof (cases "is_ok (pb_connect pb) \<and> is_ok (pb_pool pb)")
  case True
  then have "repository_checks co pb chain_id contract = doctor_source_checks (co_crates co) pb chain_id contract"
    by (auto simp: repository_checks_def is_ok_def split: sum.splits)
  with True doctor_source_outcome [of "co_crates co" pb chain_id contract s] assms show ?thesis by fastforce
next
  case False
  then show ?thesis
    by (auto simp: repository_checks_def is_ok_def source_check_names_def split: sum.splits)
qed

lemma doctor_report:
  "\<exists>checks. doctor_checks co pb rpc_url chain_id contract s = (Ok checks, s)
    \<and> (passing checks \<longleftrightarrow> is_ok (pb_connect pb) \<and> pb_pending pb = Inr [] \<and> is_ok (pb_pool pb)
         \<and> pool_available (db_env (ws_db s)) \<and> is_ok (rpc_block_number (co_node co rpc_url))
         \<and> (\<exists>source. healthy_source (ws_db s) chain_id contract source))
    \<and> (\<forall>source. passing checks \<longrightarrow> healthy_source (ws_db s) chain_id contract source
         \<longrightarrow> (backlog_warned checks \<longleftrightarrow> (\<exists>r \<in> set (db_jobs (ws_db s)). backlog_job chain_id source r)))"
proof -
  let ?address = "case normalize_address contract of Ok a \<Rightarrow> Some a | Err _ \<Rightarrow> None"
  have lower: "to_ascii_lowercase a = a" if "?address = Some a" for a
    using that normalized_lower by (auto split: sum.splits)
  obtain checks where repo: "repository_checks co pb chain_id ?address s = (Ok checks, s)"
    and passes: "passing checks \<longleftrightarrow> is_ok (pb_connect pb) \<and> is_ok (pb_pool pb) \<and> pool_available (db_env (ws_db s))
      \<and> (\<exists>source. ?address = Some (so_contract_address source)
           \<and> (\<exists>k \<in> set (db_chains (ws_db s)). ch_chain_id k = chain_id)
           \<and> List.find (\<lambda>r. source_key r = (chain_id, so_contract_address source)) (db_sources (ws_db s)) = Some source
           \<and> fit_source source \<and> (\<exists>k \<in> set (db_checkpoints (ws_db s)). ck_source_id k = so_id source))"
    and warns: "\<forall>source. passing checks \<longrightarrow> ?address = Some (so_contract_address source)
          \<longrightarrow> List.find (\<lambda>r. source_key r = (chain_id, so_contract_address source)) (db_sources (ws_db s)) = Some source
          \<longrightarrow> (backlog_warned checks \<longleftrightarrow> (\<exists>r \<in> set (db_jobs (ws_db s)). backlog_job chain_id source r))"
    using repository_outcome [where co = co and pb = pb and chain_id = chain_id and s = s, OF lower] by blast
  have healthy: "?address = Some (so_contract_address source)
           \<and> (\<exists>k \<in> set (db_chains (ws_db s)). ch_chain_id k = chain_id)
           \<and> List.find (\<lambda>r. source_key r = (chain_id, so_contract_address source)) (db_sources (ws_db s)) = Some source
           \<and> fit_source source \<and> (\<exists>k \<in> set (db_checkpoints (ws_db s)). ck_source_id k = so_id source)
      \<longleftrightarrow> healthy_source (ws_db s) chain_id contract source" for source
    by (auto simp: healthy_source_def split: sum.splits)
  define first where "first = (case normalize_address contract of Ok _ \<Rightarrow> []
      | Err error \<Rightarrow> [check_fail ''source config valid'' (pb_error_text pb error)])"
  define all where "all = first @ connection_checks pb @ node_checks pb (co_node co rpc_url) @ checks"
  have first: "passing first \<longleftrightarrow> ?address \<noteq> None" "\<not> backlog_warned first"
    by (auto simp: first_def split: sum.split)
  have "doctor_checks co pb rpc_url chain_id contract s = (Ok all, s)"
    by (simp add: doctor_checks_def Let_def seq_def repo all_def first_def ret_def)
  moreover have "passing all \<longleftrightarrow> is_ok (pb_connect pb) \<and> pb_pending pb = Inr [] \<and> is_ok (pb_pool pb)
         \<and> pool_available (db_env (ws_db s)) \<and> is_ok (rpc_block_number (co_node co rpc_url))
         \<and> (\<exists>source. healthy_source (ws_db s) chain_id contract source)"
    by (simp only: all_def passing_simps first connection_passes node_passes passes healthy) (auto simp: healthy_source_def)
  moreover have "backlog_warned all \<longleftrightarrow> backlog_warned checks" "passing all \<Longrightarrow> passing checks"
    by (simp_all add: all_def first connection_passes node_passes)
  ultimately show ?thesis using warns healthy by blast
qed


section \<open>A sample program\<close>

definition sample_probes :: probes where
  "sample_probes = \<lparr>pb_connect = Inr (), pb_pending = Inr [], pb_pool = Inr (), pb_error_text = (\<lambda>_. ''error'')\<rparr>"

definition sample_options :: contract_options where
  "sample_options = \<lparr>ca_database_url = ''db'', ca_chain_name = ''mainnet'', ca_chain_id = 1, ca_finality_confirmations = 0,
     ca_contract = ''0x'' @ sample_digits, ca_standard = ''auto'', ca_from_block = Some ''10'', ca_to_block = ''20'',
     ca_lookback = 5\<rparr>"

definition fresh_state :: worker_state where
  "fresh_state = \<lparr>ws_db = empty_db, ws_metrics = metrics_new, ws_replay_first = True\<rparr>"

text \<open>The indexer of one contract with a checkpoint and two reorg events, one of them in blocks 12 and 13.\<close>

definition reorg_of :: "uuid \<Rightarrow> int \<Rightarrow> int \<Rightarrow> reorg_row" where
  "reorg_of i lo hi = \<lparr>re_id = i, re_source_id = 5, re_chain_id = 1, re_from_block = lo, re_to_block = hi,
     re_expected_block_hash = None, re_actual_block_hash = None, re_detected_at = 0, re_replay_job_id = None,
     re_mismatches = JArray []\<rparr>"

definition indexed_state :: worker_state where
  "indexed_state = fresh_state\<lparr>ws_db := empty_db
     \<lparr>db_chains := [\<lparr>ch_id = 1, ch_name = ''c'', ch_chain_id = 1, ch_rpc_url = ''u'', ch_finality_confirmations = 0, ch_created_at = 0\<rparr>],
      db_sources := [\<lparr>so_id = 5, so_chain_id = 1, so_name = ''s'', so_contract_address = ''0x'' @ sample_digits,
        so_token_standard = ''erc20'', so_start_block = 0, so_enabled = True, so_created_at = 0\<rparr>],
      db_checkpoints := [\<lparr>ck_id = 8, ck_source_id = 5, ck_processed_block = 20, ck_processed_block_hash = ''0x1'',
        ck_finalized_block = 20, ck_updated_at = 0\<rparr>],
      db_reorgs := [reorg_of 11 12 13, reorg_of 12 30 31]\<rparr>\<rparr>"

definition without_checkpoint :: worker_state where
  "without_checkpoint = indexed_state\<lparr>ws_db := (ws_db indexed_state)\<lparr>db_checkpoints := []\<rparr>\<rparr>"


end
