(* ===== verification/Cli_Spec.thy ===== *)
theory Cli_Spec
  imports Doctor_Spec Ledger_Pages
begin

text \<open>
  What the commands about an indexed source promise: the enqueueing of a replay with the reorg events it
  resolves, the completion of receipts, and a backfill behind the checkpoint.
\<close>

section \<open>Enqueueing a replay\<close>

definition unlinked :: "uuid \<Rightarrow> int \<Rightarrow> int \<Rightarrow> reorg_row \<Rightarrow> bool" where
  "unlinked sid lo hi e \<longleftrightarrow>
     re_source_id e = sid \<and> lo \<le> re_from_block e \<and> re_to_block e \<le> hi \<and> re_replay_job_id e = None"

lemma link_outcome:
  assumes "on_db (link_reorg_events_to_replay_job sid lo hi i) s = (Ok n, t)"
  shows "db_jobs (ws_db t) = db_jobs (ws_db s) \<and> n = count_rows (unlinked sid lo hi) (db_reorgs (ws_db s))
    \<and> db_reorgs (ws_db t) = update_rows (unlinked sid lo hi) (\<lambda>e. e\<lparr>re_replay_job_id := Some i\<rparr>) (db_reorgs (ws_db s))"
proof -
  have u: "unlinked sid lo hi = (\<lambda>r. re_source_id r = sid \<and> lo \<le> re_from_block r \<and> re_to_block r \<le> hi \<and> re_replay_job_id r = None)"
    by (rule ext) (simp add: unlinked_def)
  from assms show ?thesis
    by (cases "pool_available (db_env (ws_db s))")
       (auto simp: on_db_def link_reorg_events_to_replay_job_def u Let_def split: if_splits)
qed

definition replay_row :: "uuid \<Rightarrow> int \<Rightarrow> u64 \<Rightarrow> u64 \<Rightarrow> job_row \<Rightarrow> bool" where
  "replay_row sid chain_id lo hi r \<longleftrightarrow>
     jr_job_type r = ''REPLAY_RANGE'' \<and> jr_status r = ''queued'' \<and> jr_chain_id r = chain_id \<and> jr_source_id r = Some sid
     \<and> jr_from_block r = Some (uint lo) \<and> jr_to_block r = Some (uint hi) \<and> jr_attempts r = 0"

lemma replay_job_outcome:
  assumes "on_db (seq (new_job_new ReplayRange chain_id key) (\<lambda>job.
      enqueue (with_max_attempts k (with_range (uint lo) (uint hi) (with_source sid job))))) s = (Ok result, t)"
  shows "db_reorgs (ws_db t) = db_reorgs (ws_db s) \<and>
    (case result of
       EnqInserted job \<Rightarrow> replay_row sid chain_id lo hi job \<and> db_jobs (ws_db t) = db_jobs (ws_db s) @ [job]
         \<and> (\<forall>r \<in> set (db_jobs (ws_db s)). jr_idempotency_key r \<noteq> key \<and> \<not> same_range r job)
     | EnqExisting job \<Rightarrow> job \<in> set (db_jobs (ws_db s)) \<and> db_jobs (ws_db t) = db_jobs (ws_db s))"
proof -
  from assms obtain d j where e: "enqueue j d = (Ok result, ws_db t)"
    and d: "db_jobs d = db_jobs (ws_db s)" "db_reorgs d = db_reorgs (ws_db s)"
    and j: "nw_job_type j = ReplayRange" "nw_chain_id j = chain_id" "nw_source_id j = Some sid" "nw_from_block j = Some (uint lo)"
      "nw_to_block j = Some (uint hi)" "nw_idempotency_key j = key"
    by (auto simp: on_db_Ok new_job_new_def seq_assoc with_max_attempts_def
        with_range_def with_source_def)
  from e show ?thesis
  proof (cases rule: enqueue_cases)
    case (inserted row e)
    then have "replay_row sid chain_id lo hi row" "jr_idempotency_key row = key"
      using j by (simp_all add: replay_row_def new_job_row_def)
    moreover have "\<forall>r \<in> set (db_jobs d). jr_idempotency_key r \<noteq> jr_idempotency_key row \<and> \<not> same_range r row"
      using inserted(4) by (auto simp: job_conflict_def list_ex_iff)
    ultimately show ?thesis using inserted(1,6) d by simp
  next
    case (existing row r e)
    then show ?thesis using d by simp
  qed
qed

lemma seq_lift_Ok: "seq (lift r) f s = (Ok x, t) \<longleftrightarrow> (\<exists>a. r = Ok a \<and> f a s = (Ok x, t))"
  by (cases r) (auto simp: seq_def lift_def)

lemma seq_bail_Ok: "seq (bail_if b m) f s = (Ok x, t) \<longleftrightarrow> \<not> b \<and> f () s = (Ok x, t)"
  by (auto simp: seq_def bail_if_run)

lemma seq_pool_Ok: "seq (build_pool co url) f s = (Ok x, t) \<longleftrightarrow> co_pool co url \<and> f () s = (Ok x, t)"
  by (auto simp: build_pool_def seq_lift_Ok ensure_def split: if_splits)

lemma existing_source_Ok:
  "seq (existing_source chain_id contract) f s = (Ok x, t) \<longleftrightarrow> pool_available (db_env (ws_db s))
     \<and> (\<exists>source. List.find (\<lambda>r. source_key r = (chain_id, to_ascii_lowercase contract)) (db_sources (ws_db s)) = Some source
          \<and> f source s = (Ok x, t))"
  by (auto simp: existing_source_def seq_assoc seq_Ok_iff [of "on_db _"] seq_lift_Ok lookup_runs pooled_def ok_or_def
      split: if_splits option.splits)

definition link_step :: "source_row \<Rightarrow> int \<Rightarrow> int \<Rightarrow> enqueued \<Rightarrow> (enqueued \<times> nat) worker_prog" where
  "link_step source lo hi result =
     (let (replay_job, should_link) = (case result of
           EnqInserted job \<Rightarrow> (job, True)
         | EnqExisting job \<Rightarrow> (job, \<not> job_status_is_terminal (jr_status job))) in
     if should_link
     then seq (on_db (link_reorg_events_to_replay_job (so_id source) lo hi (jr_id replay_job))) (\<lambda>linked. ret (result, linked))
     else ret (result, 0))"

lemma link_step_outcome:
  assumes "link_step source lo hi r u = (Ok (result, linked), t)"
  shows "r = result \<and> db_jobs (ws_db t) = db_jobs (ws_db u)
    \<and> (\<forall>job. (result = EnqInserted job \<or> result = EnqExisting job) \<longrightarrow>
       (if (\<exists>j. result = EnqExisting j) \<and> job_status_is_terminal (jr_status job)
        then db_reorgs (ws_db t) = db_reorgs (ws_db u) \<and> linked = 0
        else linked = count_rows (unlinked (so_id source) lo hi) (db_reorgs (ws_db u))
          \<and> db_reorgs (ws_db t) = update_rows (unlinked (so_id source) lo hi)
              (\<lambda>e. e\<lparr>re_replay_job_id := Some (jr_id job)\<rparr>) (db_reorgs (ws_db u))))"
  using assms by (cases r) (auto simp: link_step_def seq_Ok_iff dest!: link_outcome split: if_splits)

definition replay_job_step :: "console \<Rightarrow> int \<Rightarrow> int \<Rightarrow> u64 \<Rightarrow> u64 \<Rightarrow> int \<Rightarrow> int \<Rightarrow> source_row \<Rightarrow> enqueued worker_prog" where
  "replay_job_step co chain_id k lo hi i j source =
     on_db (seq (new_job_new ReplayRange chain_id (''replay:'' @ uuid_display (co_crates co) (so_id source)
         @ '':'' @ show_u64 lo @ '':'' @ show_u64 hi)) (\<lambda>job.
       enqueue (with_max_attempts k (with_range i j (with_source (so_id source) job)))))"

lemma enqueue_replay_eq:
  "enqueue_replay co url chain_id contract lo hi k =
     seq (lift (normalize_address contract)) (\<lambda>contract.
     seq (bail_if (chain_id \<le> 0) ''chain-id must be greater than zero'') (\<lambda>_.
     if lo > hi then throw (InvertedRange lo hi)
     else
       seq (bail_if (k \<le> 0) ''max-attempts must be greater than zero'') (\<lambda>_.
       seq (lift (ok_or (BlockTooLarge lo) (i64_try_from_u64 lo))) (\<lambda>i.
       seq (lift (ok_or (BlockTooLarge hi) (i64_try_from_u64 hi))) (\<lambda>j.
       seq (build_pool co url) (\<lambda>_.
       seq (existing_source chain_id contract) (\<lambda>source.
       seq (replay_job_step co chain_id k lo hi i j source) (link_step source i j))))))))"
  unfolding enqueue_replay_def link_step_def replay_job_step_def Let_def ..

lemma enqueue_replay_steps:
  assumes "enqueue_replay co url chain_id contract lo hi k s = (Ok x, t)"
  obtains a source where "normalize_address contract = Ok a"
    and "List.find (\<lambda>r. source_key r = (chain_id, to_ascii_lowercase a)) (db_sources (ws_db s)) = Some source"
    and "seq (replay_job_step co chain_id k lo hi (uint lo) (uint hi) source) (link_step source (uint lo) (uint hi)) s = (Ok x, t)"
proof -
  have i64: "ok_or (BlockTooLarge b) (i64_try_from_u64 b) = Ok i \<Longrightarrow> i = uint b" for b i
    by (auto simp: ok_or_def i64_try_from_u64_def split: if_splits)
  from assms obtain a i j where "normalize_address contract = Ok a"
    and "ok_or (BlockTooLarge lo) (i64_try_from_u64 lo) = Ok i" "ok_or (BlockTooLarge hi) (i64_try_from_u64 hi) = Ok j"
    and "seq (existing_source chain_id a) (\<lambda>source. seq (replay_job_step co chain_id k lo hi i j source) (link_step source i j)) s
      = (Ok x, t)"
    unfolding enqueue_replay_eq seq_lift_Ok seq_bail_Ok seq_pool_Ok by (auto simp: seq_lift_Ok seq_bail_Ok seq_pool_Ok split: if_splits)
  with i64 that show thesis unfolding existing_source_Ok by blast
qed


section \<open>Completing receipts\<close>

definition receipt_keys :: "db \<Rightarrow> (int \<times> string) set" where
  "receipt_keys d = receipt_key ` set (db_receipts d)"

definition sent_key :: "int \<Rightarrow> transaction_receipt \<Rightarrow> int \<times> string" where
  "sent_key chain r = (chain, to_ascii_lowercase (tr_transaction_hash r))"

lemma new_receipt_key: "new_receipt_row c chain r i now = Ok row \<Longrightarrow> receipt_key row = sent_key chain r"
  by (auto simp: new_receipt_row_def receipt_key_def sent_key_def and_then_def split: sum.splits)

lemma excluded_keys:
  "receipt_key ` set (update_rows P (excluded_receipt row now) rows) = receipt_key ` set rows"
  by (rule update_rows_ids) (simp add: excluded_receipt_def receipt_key_def)

lemma upsert_receipt_keys:
  assumes "upsert_transaction_receipt c chain r d = (Ok i, t)"
  shows "receipt_keys t = insert (sent_key chain r) (receipt_keys d)"
proof -
  from assms obtain row where row: "new_receipt_row c chain r (uuid_supply (db_env d) (uuids_used (db_env d)))
      (clock (db_env d) (clock_reads (db_env d))) = Ok row"
    by (auto simp: upsert_transaction_receipt_def seq_lift_Ok)
  note key = new_receipt_key [OF row]
  show ?thesis
  proof (cases "List.find (\<lambda>q. receipt_key q = receipt_key row) (db_receipts d)")
    case None
    with assms row key show ?thesis
      by (auto simp: upsert_transaction_receipt_def receipt_keys_def split: if_splits)
  next
    case (Some q)
    with find_Some_set [OF Some] have "receipt_key row \<in> receipt_keys d" by (metis imageI receipt_keys_def)
    moreover from assms row Some obtain P now where
      "db_receipts t = update_rows P (excluded_receipt row now) (db_receipts d)"
      by (auto simp: upsert_transaction_receipt_def split: if_splits)
    ultimately show ?thesis using key by (auto simp: receipt_keys_def excluded_keys)
  qed
qed

lemma persist_receipts_keys:
  assumes "persist_transaction_receipts c chain receipts d = (Ok n, t)"
  shows "n = length receipts \<and> receipt_keys t = receipt_keys d \<union> sent_key chain ` set receipts"
proof -
  have "each (\<lambda>r. seq (upsert_transaction_receipt c chain r) (\<lambda>_. ret ())) rs d = (Ok (), t) \<Longrightarrow>
      receipt_keys t = receipt_keys d \<union> sent_key chain ` set rs" for rs d
  proof (induction rs arbitrary: d)
    case (Cons r rs)
    then show ?case by (auto simp: seq_Ok_iff dest!: upsert_receipt_keys)
  qed simp
  with assms show ?thesis
    by (auto simp: persist_transaction_receipts_def seq_Ok_iff pg_transaction_Ok)
qed

text \<open>Everything but the receipts and the generators.\<close>

definition beside_receipts where
  "beside_receipts d = (base_view d, ledger_view d)"

interpretation rv: view beside_receipts
  by unfold_locales (simp_all add: beside_receipts_def base_view_def ledger_view_def rollback_def)

lemma rv_receipts: "rv.quiet (persist_transaction_receipts c chain receipts)"
  using bv_receipts receipts_frame unfolding rv.quiet_def bv.quiet_def beside_receipts_def ledger_view_def
  by (metis (no_types, lifting))

lemma receipts_persisted:
  "persist_transaction_receipts c chain receipts d = (Ok n, t) \<Longrightarrow>
     n = length receipts \<and> receipt_keys t = receipt_keys d \<union> sent_key chain ` set receipts
     \<and> beside_receipts t = beside_receipts d"
  using persist_receipts_keys rv.quietD [OF rv_receipts] by blast

lemma receipt_batches_outcome:
  assumes "receipt_batches c rpc chain n_batch hashes batch fetched persisted s = (Ok (f, p), t)"
  shows "f = fetched + length hashes \<and> p = persisted + length batch + length hashes
    \<and> beside_receipts (ws_db t) = beside_receipts (ws_db s)
    \<and> (\<exists>receipts. map (rpc_transaction_receipt rpc) hashes = map Ok receipts
         \<and> receipt_keys (ws_db t) = receipt_keys (ws_db s) \<union> sent_key chain ` set (batch @ receipts))"
  using assms
proof (induction hashes arbitrary: batch fetched persisted s)
  case Nil
  then show ?case
    by (auto simp: seq_Ok_iff on_db_Ok dest!: receipts_persisted split: if_splits)
next
  case (Cons h hashes)
  from Cons.prems obtain r where r: "rpc_transaction_receipt rpc h = Ok r"
    and run: "(if length (batch @ [r]) \<ge> n_batch
       then seq (on_db (persist_transaction_receipts c chain (batch @ [r]))) (\<lambda>n.
            receipt_batches c rpc chain n_batch hashes [] (fetched + 1) (persisted + n))
       else receipt_batches c rpc chain n_batch hashes (batch @ [r]) (fetched + 1) persisted) s = (Ok (f, p), t)"
    by (auto simp: seq_lift_Ok)
  show ?case
  proof (cases "length (batch @ [r]) \<ge> n_batch")
    case True
    with run obtain n u where n: "persist_transaction_receipts c chain (batch @ [r]) (ws_db s) = (Ok n, ws_db u)"
      and rest: "receipt_batches c rpc chain n_batch hashes [] (fetched + 1) (persisted + n) u = (Ok (f, p), t)"
      by (auto simp: seq_Ok_iff on_db_Ok)
    from Cons.IH [OF rest] obtain receipts where "map (rpc_transaction_receipt rpc) hashes = map Ok receipts"
      "receipt_keys (ws_db t) = receipt_keys (ws_db u) \<union> sent_key chain ` set receipts" by auto
    with Cons.IH [OF rest] receipts_persisted [OF n] r show ?thesis
      by (intro conjI exI [of _ "r # receipts"]) auto
  next
    case False
    with run have "receipt_batches c rpc chain n_batch hashes (batch @ [r]) (fetched + 1) persisted s = (Ok (f, p), t)" by simp
    note IH = Cons.IH [OF this]
    then obtain receipts where "map (rpc_transaction_receipt rpc) hashes = map Ok receipts"
      "receipt_keys (ws_db t) = receipt_keys (ws_db s) \<union> sent_key chain ` set ((batch @ [r]) @ receipts)" by blast
    with IH r show ?thesis
      by (intro conjI exI [of _ "r # receipts"]) auto
  qed
qed

text \<open>The hashes of the entries of a source whose transaction has no receipt.\<close>

definition hashes_without_receipt :: "db \<Rightarrow> uuid \<Rightarrow> string set" where
  "hashes_without_receipt d sid =
     {le_transaction_hash e |e. e \<in> set (db_entries d) \<and> live_entry_of sid e
        \<and> (le_chain_id e, le_transaction_hash e) \<notin> receipt_keys d}"

lemma missing_hashes:
  assumes "transaction_hashes_missing_receipts sid limit d = (Ok hashes, t)"
  shows "t = d \<and> set hashes \<subseteq> hashes_without_receipt d sid \<and> distinct hashes
    \<and> int (length hashes) \<le> clamp_int limit 1 10000
    \<and> (int (length hashes) < clamp_int limit 1 10000 \<longrightarrow> set hashes = hashes_without_receipt d sid)"
proof -
  define rows where "rows = filter (\<lambda>r. live_entry_of sid r
      \<and> list_all (\<lambda>q. receipt_key q \<noteq> (le_chain_id r, le_transaction_hash r)) (db_receipts d)) (db_entries d)"
  define all where "all = map fst (sort_by (\<lambda>a b. least (map le_block_number (snd a)) < least (map le_block_number (snd b))
      \<or> least (map le_block_number (snd a)) = least (map le_block_number (snd b)) \<and> fst a \<le> fst b)
      (group_rows le_transaction_hash rows))"
  have t: "t = d" and hashes: "hashes = take (nat (clamp_int limit 1 10000)) all"
    using assms by (auto simp: transaction_hashes_missing_receipts_def rows_def all_def Let_def)
  have "set rows = {e \<in> set (db_entries d). live_entry_of sid e \<and> (le_chain_id e, le_transaction_hash e) \<notin> receipt_keys d}"
    by (force simp: rows_def receipt_keys_def list_all_iff)
  moreover have "set all = le_transaction_hash ` set rows"
    by (simp add: all_def group_rows_def image_image)
  ultimately have set: "set all = hashes_without_receipt d sid"
    by (auto simp: hashes_without_receipt_def)
  have "distinct all"
    by (simp add: all_def distinct_map_sort_by group_rows_def comp_def distinct_btree_set)
  moreover have "1 \<le> clamp_int limit 1 10000" by (simp add: clamp_int_def)
  ultimately show ?thesis
    using set_take_subset [of "nat (clamp_int limit 1 10000)" all]
    by (auto simp: t hashes set [symmetric] min_def split: if_splits)
qed

lemma asked_keys:
  assumes "map (rpc_transaction_receipt rpc) hashes = map Ok receipts"
    and "\<And>h r. rpc_transaction_receipt rpc h = Ok r \<Longrightarrow> to_ascii_lowercase (tr_transaction_hash r) = to_ascii_lowercase h"
  shows "sent_key chain ` set receipts = (\<lambda>h. (chain, to_ascii_lowercase h)) ` set hashes"
proof -
  have "map (sent_key chain) receipts = map (\<lambda>h. (chain, to_ascii_lowercase h)) hashes"
    using assms(1)
  proof (induction hashes arbitrary: receipts)
    case (Cons h hs)
    then show ?case by (cases receipts) (auto simp: sent_key_def dest: assms(2))
  qed simp
  then show ?thesis by (metis set_map)
qed

text \<open>C35: Completing receipts fetches one receipt for each of the transactions of the source that lack one, up to the
  limit and at most ten thousand, and stores it under the hash that was asked for if the node answers
  with that hash. It counts every one of them, changes nothing but the receipts, and if there were
  fewer than the limit every live entry of the source has its receipt afterwards.\<close>

theorem backfill_receipts_complete:
  assumes run: "backfill_transaction_receipts co rpc_url url chain_id contract limit n_batch s = (Ok (fetched, persisted), t)"
    and node: "\<And>h r. rpc_transaction_receipt (co_node co rpc_url) h = Ok r \<Longrightarrow>
      to_ascii_lowercase (tr_transaction_hash r) = to_ascii_lowercase h"
  shows "\<exists>source hashes. List.find (\<lambda>r. source_key r = (chain_id, to_ascii_lowercase contract)) (db_sources (ws_db s)) = Some source
    \<and> set hashes \<subseteq> hashes_without_receipt (ws_db s) (so_id source) \<and> distinct hashes
    \<and> fetched = length hashes \<and> persisted = length hashes \<and> int fetched \<le> clamp_int limit 1 10000
    \<and> receipt_keys (ws_db t) = receipt_keys (ws_db s) \<union> (\<lambda>h. (chain_id, to_ascii_lowercase h)) ` set hashes
    \<and> beside_receipts (ws_db t) = beside_receipts (ws_db s)
    \<and> (int fetched < clamp_int limit 1 10000 \<longrightarrow>
        (\<forall>e \<in> set (db_entries (ws_db t)). live_entry_of (so_id source) e \<and> le_chain_id e = chain_id
           \<and> to_ascii_lowercase (le_transaction_hash e) = le_transaction_hash e
           \<longrightarrow> (chain_id, le_transaction_hash e) \<in> receipt_keys (ws_db t)))"
proof -
  from run obtain a source hashes u where a: "normalize_address contract = Ok a"
    and source: "List.find (\<lambda>r. source_key r = (chain_id, to_ascii_lowercase a)) (db_sources (ws_db s)) = Some source"
    and missing: "transaction_hashes_missing_receipts (so_id source) limit (ws_db s) = (Ok hashes, ws_db u)"
    and u: "u = s\<lparr>ws_db := ws_db u\<rparr>"
    and batches: "receipt_batches (co_crates co) (co_node co rpc_url) chain_id n_batch hashes [] 0 0 u = (Ok (fetched, persisted), t)"
    by (auto simp: backfill_transaction_receipts_def seq_lift_Ok seq_bail_Ok seq_pool_Ok existing_source_Ok
        seq_Ok_iff [of "on_db _"] on_db_Ok)
  note m = missing_hashes [OF missing]
  with u have us: "ws_db u = ws_db s" by simp
  note ended = receipt_batches_outcome [OF batches, unfolded us]
  then obtain receipts where receipts: "map (rpc_transaction_receipt (co_node co rpc_url)) hashes = map Ok receipts"
    and keys: "receipt_keys (ws_db t) = receipt_keys (ws_db s) \<union> sent_key chain_id ` set receipts" by auto
  with asked_keys [OF receipts node] have keys: "receipt_keys (ws_db t) = receipt_keys (ws_db s) \<union> (\<lambda>h. (chain_id, to_ascii_lowercase h)) ` set hashes"
    by simp
  have "to_ascii_lowercase a = to_ascii_lowercase contract"
    using a by (auto simp: normalize_address_def Let_def split: if_splits)
  moreover have "(chain_id, le_transaction_hash e) \<in> receipt_keys (ws_db t)"
    if "set hashes = hashes_without_receipt (ws_db s) (so_id source)" and "e \<in> set (db_entries (ws_db s))"
      and "live_entry_of (so_id source) e" "le_chain_id e = chain_id"
      and "to_ascii_lowercase (le_transaction_hash e) = le_transaction_hash e" for e
    using that keys by (force simp: hashes_without_receipt_def)
  moreover have "db_entries (ws_db t) = db_entries (ws_db s)"
    using ended by (simp add: beside_receipts_def ledger_view_def)
  ultimately show ?thesis
    using source m ended keys by (intro exI [of _ source] exI [of _ hashes]) auto
qed

section \<open>Backfilling behind the checkpoint\<close>

lemma resume_beyond:
  assumes "uint to \<le> sc_processed_block cp" and "in_i64 (sc_processed_block cp)"
  shows "resume_from (Some cp) from > to"
proof -
  have nonneg: "0 \<le> sc_processed_block cp" using assms(1) uint_u64_bounds(1) [of to] by linarith
  then have x: "unat (i64_as_u64 (sc_processed_block cp)) = nat (sc_processed_block cp)"
    using assms(2) by (rule unat_i64_as_u64)
  have "unat to \<le> nat (sc_processed_block cp)" using nat_mono [OF assms(1)] by simp
  moreover have "nat (sc_processed_block cp) < 9223372036854775808" using assms(2) nonneg by (simp add: int_range_defs nat_less_iff)
  ultimately have "unat to < unat (u64_saturating_add (i64_as_u64 (sc_processed_block cp)) 1)"
    by (simp add: unat_saturating_add x)
  with nonneg show ?thesis
    by (auto simp: resume_from_def word_less_nat_alt unat_max)
qed

lemma seq_next_chain_id [simp]:
  "seq next_chain_id f d = f (chain_serial (db_env d)) (d\<lparr>db_env := (db_env d)\<lparr>chain_serial := chain_serial (db_env d) + 1\<rparr>\<rparr>)"
  by (simp add: seq_apply next_chain_id_def)

lemma ensure_chain_frame:
  assumes "ensure_chain name chain url confirmations d = (r, t)"
  shows "db_jobs t = db_jobs d \<and> db_checkpoints t = db_checkpoints d"
  using assms
  by (cases "pool_available (db_env d)")
     (auto simp: ensure_chain_def Let_def split: if_splits option.splits)

lemma ensure_source_stored:
  assumes "ensure_source chain name contract standard start d = (Ok source, t)"
  shows "db_jobs t = db_jobs d \<and> db_checkpoints t = db_checkpoints d \<and> source \<in> set (db_sources t)
    \<and> so_start_block source = start"
  using assms
  by (cases "pool_available (db_env d)")
     (auto simp: ensure_source_def Let_def in_update_rows split: if_splits option.splits dest!: find_Some_set)

lemma resolve_contract_keeps: "resolve_contract co a guards s = (Ok x, t) \<Longrightarrow> (\<And>y u. guards s = (Ok y, u) \<Longrightarrow> u = s) \<Longrightarrow> ws_db t = ws_db s"
  by (cases x)
     (auto simp: resolve_contract_def record_resolved_range_metrics_def seq_lift_Ok seq_bail_Ok Let_def meter_def
        seq_Ok_iff [of guards] seq_Ok_iff [of "meter _"] seq_assoc)

lemma register_source_stored:
  assumes "register_source co a contract standard r s = (Ok source, t)"
  shows "db_jobs (ws_db t) = db_jobs (ws_db s) \<and> db_checkpoints (ws_db t) = db_checkpoints (ws_db s)
    \<and> source \<in> set (db_sources (ws_db t)) \<and> so_start_block source = u64_as_i64 (rr_from r)"
  using assms
  by (auto simp: register_source_def seq_pool_Ok seq_Ok_iff [of "on_db _"] on_db_Ok
      dest!: ensure_chain_frame ensure_source_stored)

lemma plan_beyond:
  assumes "plan_backfill_jobs postgres_backfill_repository c source lo hi n k d = (Ok plan, t)"
    and "List.find (\<lambda>r. ck_source_id r = sr_id source) (db_checkpoints d) = Some ck"
    and "uint hi \<le> ck_processed_block ck" "in_i64 (ck_processed_block ck)"
  shows "t = d \<and> bp_ranges plan = [] \<and> bp_inserted_jobs plan = 0 \<and> bp_source_id plan = sr_id source \<and> bp_requested_from plan = lo"
proof -
  have "resume_from (Some (to_source_checkpoint ck)) lo > hi"
    using assms(3,4) by (intro resume_beyond) (simp_all add: to_source_checkpoint_def)
  moreover have "pool_available (db_env d)"
  proof (rule ccontr)
    assume "\<not> pool_available (db_env d)"
    with assms(1) show False
      by (auto simp: plan_backfill_jobs_def seq_lift_Ok postgres_backfill_repository_def checkpoint_for_source_def
          checkpoint_row_for_source_def seq_assoc split: if_splits)
  qed
  ultimately show ?thesis
    using assms(1,2)
    by (auto simp: plan_backfill_jobs_def seq_lift_Ok postgres_backfill_repository_def checkpoint_for_source_def
        checkpoint_row_for_source_def Let_def plan_result_def seq_assoc split: if_splits)
qed

text \<open>C17: A backfill of a range that ends at or before the source's checkpoint enqueues nothing, wherever the source began so
  far, and moves the start of the source to the start of the range: blocks before the former start count as
  indexed although no job was ever made for them.\<close>

theorem backfill_behind_checkpoint_skips:
  assumes run: "backfill_contract co a n k s = (Ok plan, t)"
    and found: "List.find (\<lambda>r. ck_source_id r = bp_source_id plan) (db_checkpoints (ws_db s)) = Some ck"
    and behind: "uint (bp_requested_to plan) \<le> ck_processed_block ck" "in_i64 (ck_processed_block ck)"
  shows "bp_ranges plan = [] \<and> bp_inserted_jobs plan = 0 \<and> db_jobs (ws_db t) = db_jobs (ws_db s)
    \<and> (\<exists>source \<in> set (db_sources (ws_db t)). so_id source = bp_source_id plan
         \<and> so_start_block source = u64_as_i64 (bp_requested_from plan))"
proof -
  from run obtain requested contract r standard source s1 s2 s3 where
        resolved: "resolve_contract co a (seq (bail_if (n = 0) ''range-size must be greater than zero'') (\<lambda>_.
             bail_if (k \<le> 0) ''max-attempts must be greater than zero'')) s = (Ok (requested, contract, r), s1)"
    and registered: "register_source co a contract standard r s1 = (Ok source, s2)"
    and planned: "plan_backfill_jobs postgres_backfill_repository (co_crates co) (source_ref_of source) (rr_from r) (rr_to r) n k
        (ws_db s2) = (Ok plan, ws_db s3)"
    and progress: "record_source_progress_metric (co_crates co) (so_id source) (so_chain_id source) (so_start_block source)
        (u64_as_i64 (rr_to r)) s3 = (Ok (), t)"
    by (auto simp: backfill_contract_def seq_Ok_iff [of "resolve_contract _ _ _"] seq_Ok_iff [of "register_source _ _ _ _ _"]
        seq_Ok_iff [of "on_db _"] seq_Ok_iff [of "record_source_progress_metric _ _ _ _ _"] seq_lift_Ok on_db_Ok)
  have "ws_db s1 = ws_db s"
    by (rule resolve_contract_keeps [OF resolved]) (auto simp: seq_def bail_if_run split: if_splits)
  note same = this register_source_stored [OF registered]
  have "ws_db t = ws_db s3"
    using progress by (auto simp: record_source_progress_metric_def seq_outcome_of lookup_runs Let_def meter_def)
  moreover have "bp_source_id plan = so_id source \<and> bp_requested_to plan = rr_to r"
    using planned by (auto simp: plan_backfill_jobs_def seq_lift_Ok plan_result_def source_ref_of_def Let_def seq_Ok_iff split: if_splits)
  ultimately show ?thesis
    using plan_beyond [OF planned] found behind same by (auto simp: source_ref_of_def)
qed

section \<open>The commands at the sample program\<close>

definition replay_enqueued :: "(enqueued \<times> nat) result \<times> worker_state" where
  "replay_enqueued = enqueue_replay sample_console ''db'' 1 (''0x'' @ sample_digits) 10 20 3 indexed_state"


text \<open>A node that answers for every transaction with a receipt of its hash, and the indexer after a scan of its mint.\<close>

definition receipt_console :: console where
  "receipt_console = sample_console\<lparr>co_node := (\<lambda>_. mint_rpc\<lparr>rpc_transaction_receipt := (\<lambda>h. Ok
     \<lparr>tr_transaction_hash = h, tr_transaction_index = ''0x0'', tr_block_hash = ''0xb1'', tr_block_number = ''0x10'',
      tr_from = ''0xaa'', tr_to = None, tr_contract_address = None, tr_status = Some ''0x1'', tr_gas_used = ''0x2'',
      tr_cumulative_gas_used = ''0x2'', tr_effective_gas_price = None, tr_transaction_type = None, tr_raw = JNull\<rparr>)\<rparr>)\<rparr>"

definition scanned_state :: worker_state where
  "scanned_state = snd (scan_contract sample_console (contract_options.extend sample_options (contract_args.fields ''url'')) 4
     False fresh_state)"

definition completed :: "(nat \<times> nat) result \<times> worker_state" where
  "completed = backfill_transaction_receipts receipt_console ''url'' ''db'' 1 (''0x'' @ sample_digits) 100 10 scanned_state"

text \<open>C35 after the scan: the transaction of the mint gets its receipt.\<close>

theorem backfill_receipts_complete_witness:
  "fst completed = Ok (1, 1) \<and> receipt_keys (ws_db (snd completed)) = {(1, ''0x20'')}"
proof -
  have one: "fst completed = Ok (1, 1)" by code_simp
  then obtain t where run: "completed = (Ok (1, 1), t)" by (metis prod.collapse)
  have "to_ascii_lowercase (tr_transaction_hash r) = to_ascii_lowercase h"
    if "rpc_transaction_receipt (co_node receipt_console ''url'') h = Ok r" for h r
    using that by (auto simp: receipt_console_def)
  from backfill_receipts_complete [OF run [unfolded completed_def] this] obtain hashes sid where
      hashes: "set hashes \<subseteq> hashes_without_receipt (ws_db scanned_state) sid" "length hashes = 1"
    and keys: "receipt_keys (ws_db t) = receipt_keys (ws_db scanned_state) \<union> (\<lambda>h. (1, to_ascii_lowercase h)) ` set hashes"
    by auto
  have "map le_transaction_hash (db_entries (ws_db scanned_state)) = [''0x20'']" by code_simp
  then have "hashes_without_receipt (ws_db scanned_state) sid \<subseteq> {''0x20''}"
    by (auto simp: hashes_without_receipt_def map_eq_Cons_conv)
  with hashes have "set hashes = {''0x20''}" by (cases hashes) auto
  moreover have "receipt_keys (ws_db scanned_state) = {}"
  proof -
    have "db_receipts (ws_db scanned_state) = []" by code_simp
    then show ?thesis by (simp add: receipt_keys_def)
  qed
  moreover have "to_ascii_lowercase ''0x20'' = ''0x20''" by code_simp
  ultimately show ?thesis using one keys by (simp add: run)
qed

text \<open>C17 at an indexer that started at block 10 and has its checkpoint at block 20: blocks 0 to 9 are never enqueued.\<close>

definition late_state :: worker_state where
  "late_state = indexed_state\<lparr>ws_db := (ws_db indexed_state)\<lparr>db_sources :=
     map (\<lambda>r. r\<lparr>so_start_block := 10\<rparr>) (db_sources (ws_db indexed_state))\<rparr>\<rparr>"

definition planned_late :: "backfill_plan result \<times> worker_state" where
  "planned_late = backfill_contract sample_console
     (contract_options.extend (sample_options\<lparr>ca_from_block := Some ''0''\<rparr>) (contract_args.fields ''url'')) 5 3 late_state"

theorem backfill_behind_checkpoint_skips_witness:
  "db_jobs (ws_db (snd planned_late)) = [] \<and> (\<exists>source \<in> set (db_sources (ws_db (snd planned_late))). so_start_block source = 0)"
proof -
  have "is_ok (fst planned_late)" by code_simp
  from is_ok_pair [OF this] obtain plan t where run: "planned_late = (Ok plan, t)" by auto
  have "(case fst planned_late of Ok p \<Rightarrow> bp_source_id p = 5 \<and> bp_requested_from p = 0 \<and> bp_requested_to p = 20 | _ \<Rightarrow> False)"
    by code_simp
  then have plan: "bp_source_id plan = 5" "bp_requested_from plan = 0" "bp_requested_to plan = 20" by (simp_all add: run)
  have "List.find (\<lambda>r. ck_source_id r = 5) (db_checkpoints (ws_db late_state)) = Some (hd (db_checkpoints (ws_db late_state)))"
    "ck_processed_block (hd (db_checkpoints (ws_db late_state))) = 20" "db_jobs (ws_db late_state) = []"
    by code_simp+
  then show ?thesis
    using backfill_behind_checkpoint_skips [OF run [unfolded planned_late_def]] plan
    by (auto simp: run int_range_defs u64_as_i64_def)
qed

end
