(* ===== verification/Rpc_Client.thy ===== *)
theory Rpc_Client
  imports Metrics Ports
begin

text \<open>
  The JSON-RPC client (src/infra/evm/rpc.rs), the implementation of the \<open>ChainRpc\<close> port.
  Its state is the metrics, in which every failed call is counted. What the HTTP client, the
  JSON parser and the time library do is in the record \<open>transport\<close>: the server is a function
  from the method and the parameters of a request to the outcome of the exchange. The parser
  keeps the members of an object as they were sent; what is decoded from them is decoded here, as the
  derived decoders do it.
\<close>

section \<open>The transport\<close>

record json_rpc_error =
  je_code :: int
  je_message :: string

record json_rpc_response =
  jr_result :: "json option"
  jr_error :: "json_rpc_error option"

datatype exchange =
    SendFailed
  | BodyFailed int
  | Answered int string

record transport =
  post :: "string \<Rightarrow> json list \<Rightarrow> exchange"
  parse_json :: "string \<Rightarrow> json option"
  status_text :: "int \<Rightarrow> string"
  timestamp_in_range :: "int \<Rightarrow> bool"

record evm_rpc_client =
  ec_transport :: transport
  ec_crates :: crates
  ec_metric_chain_id :: "string option"

definition client_new :: "transport \<Rightarrow> crates \<Rightarrow> evm_rpc_client" where
  "client_new t c = \<lparr>ec_transport = t, ec_crates = c, ec_metric_chain_id = None\<rparr>"

definition with_metric_chain_id :: "int \<Rightarrow> evm_rpc_client \<Rightarrow> evm_rpc_client" where
  "with_metric_chain_id chain cl = cl\<lparr>ec_metric_chain_id := Some (show_int chain)\<rparr>"

definition metric_chain_id :: "evm_rpc_client \<Rightarrow> string" where
  "metric_chain_id cl = (case ec_metric_chain_id cl of Some i \<Rightarrow> i | None \<Rightarrow> ''unknown'')"

type_synonym 'a client_prog = "(metrics, app_error, 'a) prog"

section \<open>Derived decoders\<close>

text \<open>
  A derived decoder reads a struct from an object by the names of its fields, none of which may
  occur twice, or from an array that has a value for every field in order. A missing or null
  optional field is \<open>None\<close>.
\<close>

definition as_str :: "json \<Rightarrow> string option" where
  "as_str j = (case j of JString s \<Rightarrow> Some s | _ \<Rightarrow> None)"

definition struct_field :: "string list \<Rightarrow> json \<Rightarrow> (string \<Rightarrow> json option) option" where
  "struct_field names j =
     (case j of
        JObject entries \<Rightarrow>
          if distinct (filter (\<lambda>name. name \<in> set names) (map fst entries)) then Some (map_of entries) else None
      | JArray values \<Rightarrow> if length values = length names then Some (map_of (zip names values)) else None
      | _ \<Rightarrow> None)"

definition required :: "(string \<Rightarrow> json option) \<Rightarrow> string \<Rightarrow> string option" where
  "required get name = Option.bind (get name) as_str"

definition optional :: "(string \<Rightarrow> json option) \<Rightarrow> string \<Rightarrow> string option option" where
  "optional get name =
     (case get name of
        None \<Rightarrow> Some None
      | Some JNull \<Rightarrow> Some None
      | Some (JString s) \<Rightarrow> Some (Some s)
      | _ \<Rightarrow> None)"

text \<open>A decoded \<open>Value\<close> has one value per key of an object, the last one sent, in the order of the keys.\<close>

definition last_values :: "(string \<times> json) list \<Rightarrow> (string \<times> json) list" where
  "last_values entries =
     map (\<lambda>key. (key, case map_of (rev entries) key of Some v \<Rightarrow> v | None \<Rightarrow> JNull)) (btree_set (map fst entries))"

primrec value_of :: "json \<Rightarrow> json" where
  "value_of JNull = JNull"
| "value_of (JBool b) = JBool b"
| "value_of (JNumber n) = JNumber n"
| "value_of (JFloat s) = JFloat s"
| "value_of (JString s) = JString s"
| "value_of (JArray values) = JArray (map value_of values)"
| "value_of (JObject entries) = JObject (last_values (map (map_prod id value_of) entries))"

definition optional_value :: "json option \<Rightarrow> json option" where
  "optional_value x = (case x of Some JNull \<Rightarrow> None | _ \<Rightarrow> x)"

definition error_from_json :: "json \<Rightarrow> json_rpc_error option" where
  "error_from_json j =
     Option.bind (struct_field [''code'', ''message''] j) (\<lambda>get.
     Option.bind (case get ''code'' of Some (JNumber n) \<Rightarrow> if in_i64 n then Some n else None | _ \<Rightarrow> None) (\<lambda>code.
     Option.bind (required get ''message'') (\<lambda>message.
       Some \<lparr>je_code = code, je_message = message\<rparr>)))"

definition response_from_json :: "json \<Rightarrow> json_rpc_response option" where
  "response_from_json j =
     Option.bind (struct_field [''result'', ''error''] j) (\<lambda>get.
     Option.bind (case optional_value (get ''error'') of
         None \<Rightarrow> Some None
       | Some e \<Rightarrow> map_option Some (error_from_json e)) (\<lambda>error.
       Some \<lparr>jr_result = map_option value_of (optional_value (get ''result'')), jr_error = error\<rparr>))"

definition decode_response :: "transport \<Rightarrow> string \<Rightarrow> json_rpc_response option" where
  "decode_response t body = Option.bind (parse_json t body) response_from_json"

section \<open>Calls\<close>

definition char_count :: "string \<Rightarrow> nat" where
  "char_count s = length (filter (\<lambda>b. \<not> is_continuation b) s)"

text \<open>The first characters of a string: the bytes before the start of the next one.\<close>

fun take_chars :: "nat \<Rightarrow> string \<Rightarrow> string" where
  "take_chars n [] = []"
| "take_chars n (b # bs) =
     (if is_continuation b then b # take_chars n bs
      else (case n of 0 \<Rightarrow> [] | Suc m \<Rightarrow> b # take_chars m bs))"

definition truncate_body :: "string \<Rightarrow> string" where
  "truncate_body body = (if char_count body \<le> 500 then body else take_chars 500 body @ ''...'')"

definition rpc_error_text :: "string \<Rightarrow> json_rpc_error \<Rightarrow> string" where
  "rpc_error_text name error = ''RPC '' @ name @ '' error '' @ show_int (je_code error) @ '': '' @ je_message error"

definition is_success :: "int \<Rightarrow> bool" where
  "is_success status \<longleftrightarrow> 200 \<le> status \<and> status < 300"

definition call_inner :: "evm_rpc_client \<Rightarrow> string \<Rightarrow> json list \<Rightarrow> json result" where
  "call_inner cl name params =
     (let t = ec_transport cl in
      case post t name params of
        SendFailed \<Rightarrow> Err (RpcFailure (''send '' @ name @ '' request''))
      | BodyFailed status \<Rightarrow> Err (RpcFailure (''decode '' @ name @ '' response''))
      | Answered status body \<Rightarrow>
          if \<not> is_success status then
            (case Option.bind (decode_response t body) jr_error of
               Some error \<Rightarrow> Err (RpcFailure (rpc_error_text name error))
             | None \<Rightarrow> Err (RpcFailure (''RPC '' @ name @ '' HTTP status '' @ status_text t status @ '': '' @ truncate_body body)))
          else
            (case decode_response t body of
               None \<Rightarrow> Err (RpcFailure (''decode '' @ name @ '' response''))
             | Some response \<Rightarrow>
                 (case jr_error response of
                    Some error \<Rightarrow> Err (RpcFailure (rpc_error_text name error))
                  | None \<Rightarrow> ok_or (RpcFailure (''RPC '' @ name @ '' response missing result'')) (jr_result response))))"

definition rpc_call :: "evm_rpc_client \<Rightarrow> string \<Rightarrow> json list \<Rightarrow> json client_prog" where
  "rpc_call cl name params =
     (let result = call_inner cl name params in
      seq (case result of
          Err _ \<Rightarrow> writes (inc_rpc_error (metric_chain_id cl) ''RpcError'')
        | Ok _ \<Rightarrow> ret ()) (\<lambda>_. lift result))"

section \<open>Values\<close>

text \<open>Numbers are sent as hexadecimal without leading zeros.\<close>

fun show_hex :: "nat \<Rightarrow> string" where
  "show_hex n = (if n < 16 then [digit_char n] else show_hex (n div 16) @ [digit_char (n mod 16)])"

declare show_hex.simps [simp del]

definition quantity :: "u64 \<Rightarrow> json" where
  "quantity block = JString (''0x'' @ show_hex (unat block))"

definition json_get :: "string \<Rightarrow> json \<Rightarrow> json option" where
  "json_get key j = (case j of JObject entries \<Rightarrow> map_of entries key | _ \<Rightarrow> None)"

record block_metadata =
  bm_hash :: string
  bm_timestamp :: int

definition node_block_number :: "evm_rpc_client \<Rightarrow> u64 client_prog" where
  "node_block_number cl =
     seq (rpc_call cl ''eth_blockNumber'' []) (\<lambda>value.
     lift (and_then (ok_or (RpcFailure ''eth_blockNumber result was not a string'') (as_str value)) parse_hex_u64))"

definition node_code_at :: "evm_rpc_client \<Rightarrow> string \<Rightarrow> u64 \<Rightarrow> string client_prog" where
  "node_code_at cl contract block =
     seq (rpc_call cl ''eth_getCode'' [JString contract, quantity block]) (\<lambda>value.
     lift (ok_or (RpcFailure ''eth_getCode result was not a string'') (as_str value)))"

definition metadata_of :: "transport \<Rightarrow> u64 \<Rightarrow> json \<Rightarrow> block_metadata result" where
  "metadata_of t block value =
     and_then (ok_or (RpcFailure ''eth_getBlockByNumber result missing hash'')
       (map_option to_ascii_lowercase (Option.bind (json_get ''hash'' value) as_str))) (\<lambda>hash.
     and_then (ok_or (RpcFailure ''eth_getBlockByNumber result missing timestamp'')
       (Option.bind (json_get ''timestamp'' value) as_str)) (\<lambda>timestamp_hex.
     and_then (parse_hex_u64 timestamp_hex) (\<lambda>seconds.
     and_then (ok_or (RpcFailure (''block '' @ show_u64 block @ '' timestamp is too large'')) (i64_try_from_u64 seconds)) (\<lambda>seconds.
     if timestamp_in_range t seconds then Ok \<lparr>bm_hash = hash, bm_timestamp = seconds * 1000000\<rparr>
     else Err (RpcFailure (''block '' @ show_u64 block @ '' timestamp is out of range''))))))"

definition node_block_metadata :: "evm_rpc_client \<Rightarrow> u64 \<Rightarrow> block_metadata client_prog" where
  "node_block_metadata cl block =
     seq (rpc_call cl ''eth_getBlockByNumber'' [quantity block, JBool False]) (\<lambda>value.
     lift (metadata_of (ec_transport cl) block value))"

definition node_block_hash :: "evm_rpc_client \<Rightarrow> u64 \<Rightarrow> string client_prog" where
  "node_block_hash cl block = seq (node_block_metadata cl block) (\<lambda>m. ret (bm_hash m))"

definition node_block_timestamp :: "evm_rpc_client \<Rightarrow> u64 \<Rightarrow> int client_prog" where
  "node_block_timestamp cl block = seq (node_block_metadata cl block) (\<lambda>m. ret (bm_timestamp m))"

section \<open>Logs and receipts\<close>

fun all_some :: "'a option list \<Rightarrow> 'a list option" where
  "all_some [] = Some []"
| "all_some (x # xs) = Option.bind x (\<lambda>y. map_option ((#) y) (all_some xs))"

definition string_list :: "json \<Rightarrow> string list option" where
  "string_list j = (case j of JArray values \<Rightarrow> all_some (map as_str values) | _ \<Rightarrow> None)"

definition log_fields :: "string list" where
  "log_fields = [''address'', ''topics'', ''data'', ''blockNumber'', ''transactionHash'', ''transactionIndex'',
     ''logIndex'', ''blockHash'']"

definition log_from_json :: "json \<Rightarrow> rpc_log option" where
  "log_from_json j =
     Option.bind (struct_field log_fields j) (\<lambda>get.
     Option.bind (required get ''address'') (\<lambda>address.
     Option.bind (Option.bind (get ''topics'') string_list) (\<lambda>topics.
     Option.bind (required get ''data'') (\<lambda>data.
     Option.bind (required get ''blockNumber'') (\<lambda>block_number.
     Option.bind (required get ''transactionHash'') (\<lambda>transaction_hash.
     Option.bind (optional get ''transactionIndex'') (\<lambda>transaction_index.
     Option.bind (required get ''logIndex'') (\<lambda>log_index.
     Option.bind (required get ''blockHash'') (\<lambda>block_hash.
       Some \<lparr>log_address = address, log_topics = topics, log_data = data, log_block_number = block_number,
             log_transaction_hash = transaction_hash, log_transaction_index = transaction_index,
             log_log_index = log_index, log_block_hash = block_hash, log_block_timestamp = None\<rparr>)))))))))"

definition logs_from_json :: "json \<Rightarrow> rpc_log list option" where
  "logs_from_json j = (case j of JArray values \<Rightarrow> all_some (map log_from_json values) | _ \<Rightarrow> None)"

definition logs_params :: "crates \<Rightarrow> string \<Rightarrow> standard \<Rightarrow> u64 \<Rightarrow> u64 \<Rightarrow> json list" where
  "logs_params c contract standard from_block to_block =
     [JObject
        [(''address'', JString contract),
         (''fromBlock'', quantity from_block),
         (''toBlock'', quantity to_block),
         (''topics'', JArray [JArray (map JString (supported_topic0_values c standard))])]]"

definition node_logs :: "evm_rpc_client \<Rightarrow> string \<Rightarrow> standard \<Rightarrow> u64 \<Rightarrow> u64 \<Rightarrow> rpc_log list client_prog" where
  "node_logs cl contract standard from_block to_block =
     seq (rpc_call cl ''eth_getLogs'' (logs_params (ec_crates cl) contract standard from_block to_block)) (\<lambda>value.
     lift (ok_or (RpcFailure ''decode eth_getLogs response'') (logs_from_json value)))"

definition receipt_fields :: "string list" where
  "receipt_fields = [''transactionHash'', ''transactionIndex'', ''blockHash'', ''blockNumber'', ''from'', ''to'',
     ''contractAddress'', ''status'', ''gasUsed'', ''cumulativeGasUsed'', ''effectiveGasPrice'', ''type'']"

definition receipt_from_json :: "json \<Rightarrow> transaction_receipt option" where
  "receipt_from_json j =
     Option.bind (struct_field receipt_fields j) (\<lambda>get.
     Option.bind (required get ''transactionHash'') (\<lambda>transaction_hash.
     Option.bind (required get ''transactionIndex'') (\<lambda>transaction_index.
     Option.bind (required get ''blockHash'') (\<lambda>block_hash.
     Option.bind (required get ''blockNumber'') (\<lambda>block_number.
     Option.bind (required get ''from'') (\<lambda>sender.
     Option.bind (optional get ''to'') (\<lambda>recipient.
     Option.bind (optional get ''contractAddress'') (\<lambda>contract_address.
     Option.bind (optional get ''status'') (\<lambda>status.
     Option.bind (required get ''gasUsed'') (\<lambda>gas_used.
     Option.bind (required get ''cumulativeGasUsed'') (\<lambda>cumulative_gas_used.
     Option.bind (optional get ''effectiveGasPrice'') (\<lambda>effective_gas_price.
     Option.bind (optional get ''type'') (\<lambda>transaction_type.
       Some \<lparr>tr_transaction_hash = transaction_hash, tr_transaction_index = transaction_index,
             tr_block_hash = block_hash, tr_block_number = block_number, tr_from = sender, tr_to = recipient,
             tr_contract_address = contract_address, tr_status = status, tr_gas_used = gas_used,
             tr_cumulative_gas_used = cumulative_gas_used, tr_effective_gas_price = effective_gas_price,
             tr_transaction_type = transaction_type, tr_raw = j\<rparr>)))))))))))))"

definition node_transaction_receipt :: "evm_rpc_client \<Rightarrow> string \<Rightarrow> transaction_receipt client_prog" where
  "node_transaction_receipt cl transaction_hash =
     seq (rpc_call cl ''eth_getTransactionReceipt'' [JString transaction_hash]) (\<lambda>value.
     if value = JNull
     then throw (RpcFailure (''eth_getTransactionReceipt returned null for '' @ transaction_hash))
     else lift (ok_or (RpcFailure ''decode eth_getTransactionReceipt response'') (receipt_from_json value)))"

section \<open>The port\<close>

text \<open>The answer of a query does not depend on the metrics it leaves behind.\<close>

definition answer :: "'a client_prog \<Rightarrow> 'a result" where
  "answer m = fst (m metrics_new)"

definition evm_chain_rpc :: "evm_rpc_client \<Rightarrow> rpc" where
  "evm_chain_rpc cl =
     \<lparr>rpc_block_number = answer (node_block_number cl),
      rpc_code_at = (\<lambda>contract block. answer (node_code_at cl contract block)),
      rpc_block_hash = (\<lambda>block. answer (node_block_hash cl block)),
      rpc_block_timestamp = (\<lambda>block. answer (node_block_timestamp cl block)),
      rpc_logs = (\<lambda>contract standard from_block to_block. answer (node_logs cl contract standard from_block to_block)),
      rpc_transaction_receipt = (\<lambda>hash. answer (node_transaction_receipt cl hash))\<rparr>"

end
