(* ===== verification/Rpc_Spec.thy ===== *)
theory Rpc_Spec
  imports Rpc_Client Ingest_Spec
begin

text \<open>
  Properties of the JSON-RPC client: what a call returns and counts, that the requests and the
  responses of a conforming server carry the values they stand for, and that the services may
  therefore use the client as the node of the server's chain.
\<close>

section \<open>Calls\<close>

text \<open>The envelope of a successful exchange.\<close>

definition delivers :: "transport \<Rightarrow> string \<Rightarrow> json list \<Rightarrow> json \<Rightarrow> bool" where
  "delivers t name params v \<longleftrightarrow>
     (\<exists>status body. post t name params = Answered status body \<and> is_success status
       \<and> decode_response t body = Some \<lparr>jr_result = Some v, jr_error = None\<rparr>)"

lemma call_inner_Ok_iff: "call_inner cl name params = Ok v \<longleftrightarrow> delivers (ec_transport cl) name params v"
proof (cases "post (ec_transport cl) name params")
  case (Answered status body)
  show ?thesis
  proof (cases "decode_response (ec_transport cl) body")
    case None
    with Answered show ?thesis by (auto simp: call_inner_def delivers_def Let_def)
  next
    case (Some r)
    with Answered show ?thesis
      by (cases r) (auto simp: call_inner_def delivers_def Let_def split: option.splits)
  qed
qed (auto simp: call_inner_def delivers_def Let_def)

text \<open>What a server can answer: a value, a null result, or an error object.\<close>

datatype 'a reply = Value 'a | Missing | Refused json_rpc_error

definition replies :: "transport \<Rightarrow> string \<Rightarrow> json list \<Rightarrow> json reply \<Rightarrow> bool" where
  "replies t name params r \<longleftrightarrow>
     (\<exists>status body response. post t name params = Answered status body \<and> decode_response t body = Some response
       \<and> (case r of
            Value v \<Rightarrow> is_success status \<and> jr_error response = None \<and> jr_result response = Some v
          | Missing \<Rightarrow> is_success status \<and> jr_error response = None \<and> jr_result response = None
          | Refused e \<Rightarrow> jr_error response = Some e))"

primrec reported :: "string \<Rightarrow> 'a reply \<Rightarrow> 'a result" where
  "reported name (Value a) = Ok a"
| "reported name Missing = Err (RpcFailure (''RPC '' @ name @ '' response missing result''))"
| "reported name (Refused e) = Err (RpcFailure (rpc_error_text name e))"

lemma call_inner_reply: "replies (ec_transport cl) name params r \<Longrightarrow> call_inner cl name params = reported name r"
  by (cases r) (auto simp: replies_def call_inner_def Let_def)

lemma reported_Ok [simp]: "reported name r = Ok a \<longleftrightarrow> r = Value a"
  by (cases r) auto

lemma rpc_call_run:
  "rpc_call cl name params m =
     (call_inner cl name params,
      if is_ok (call_inner cl name params) then m else inc_rpc_error (metric_chain_id cl) ''RpcError'' m)"
  by (cases "call_inner cl name params")
     (auto simp: rpc_call_def seq_def ret_def writes_def lift_def Let_def)

definition errors_counted :: "metrics \<Rightarrow> string \<Rightarrow> u64" where
  "errors_counted m chain = (case rpc_errors_total m [chain, ''RpcError''] of None \<Rightarrow> 0 | Some n \<Rightarrow> n)"

lemma errors_counted_inc:
  "errors_counted (inc_rpc_error chain ''RpcError'' m) c = errors_counted m c + (if c = chain then 1 else 0)"
  by (auto simp: errors_counted_def inc_rpc_error_def inc_by_def split: option.splits)

text \<open>C27: A call succeeds with a value exactly if the server answers with a successful status and an envelope
  that holds that value, not null, and no error; it then leaves the metrics alone. Every other
  outcome (no connection, an unreadable body, another status, an error object, a missing or null
  result) is an error and is counted once under the chain of the client and nowhere else.\<close>

theorem rpc_call_exact:
  assumes "rpc_call cl name params m = (r, m')"
  shows "(case r of
      Ok v \<Rightarrow> delivers (ec_transport cl) name params v \<and> v \<noteq> JNull \<and> m' = m
    | Err _ \<Rightarrow> (\<forall>v. \<not> delivers (ec_transport cl) name params v)
        \<and> (\<forall>chain. errors_counted m' chain = errors_counted m chain + (if chain = metric_chain_id cl then 1 else 0)))"
proof -
  have null: "\<not> delivers t name params JNull" for t
    by (auto simp: delivers_def decode_response_def response_from_json_def optional_value_def bind_eq_Some_conv
        split: option.splits json.splits)
  show ?thesis
  proof (cases "call_inner cl name params")
    case (Inl e)
    then have "\<not> delivers (ec_transport cl) name params v" for v using call_inner_Ok_iff [of cl name params v] by simp
    moreover have "r = Err e" "m' = inc_rpc_error (metric_chain_id cl) ''RpcError'' m"
      using assms Inl by (simp_all add: rpc_call_run)
    ultimately show ?thesis by (simp add: errors_counted_inc)
  next
    case (Inr v)
    moreover have "r = Ok v" "m' = m" using assms Inr by (simp_all add: rpc_call_run)
    moreover have "v \<noteq> JNull" using Inr null call_inner_Ok_iff [of cl name params v] by auto
    ultimately show ?thesis using call_inner_Ok_iff [of cl name params v] by simp
  qed
qed

section \<open>Numbers\<close>

lemma digits_value_show_hex: "digits_value 16 0 (show_hex n) = Some n"
proof (induction n rule: show_hex.induct)
  case (1 n)
  show ?case
    by (subst show_hex.simps) (use 1 in \<open>auto simp: digits_value_append digit_value_char\<close>)
qed

lemma show_hex_nonempty [simp]: "show_hex n \<noteq> []"
  by (subst show_hex.simps) simp

lemma show_hex_digits: "list_all is_ascii_hexdigit (show_hex n)"
proof (induction n rule: show_hex.induct)
  case (1 n)
  show ?case
    by (subst show_hex.simps) (use 1 in \<open>auto simp: digit_char_is_hexdigit\<close>)
qed

lemma hd_show_hex: "hd (show_hex n) \<noteq> CHR ''+''"
proof -
  have "is_ascii_hexdigit (hd (show_hex n))" using show_hex_digits [of n] by (cases "show_hex n") auto
  then show ?thesis by (auto simp: is_ascii_hexdigit_def is_ascii_digit_def byte_def)
qed

lemma parse_hex_u64_quantity: "parse_hex_u64 (''0x'' @ show_hex (unat block)) = Ok block"
proof -
  have "unat block < u64_limit" using unat_u64_lt [of block] by (simp add: u64_limit_def)
  then have "parse_u64 16 (show_hex (unat block)) = Some block"
    by (simp add: parse_u64_def parse_unsigned_def hd_show_hex digits_value_show_hex)
  moreover have "strip_0x (''0x'' @ show_hex (unat block)) = Ok (show_hex (unat block))"
    by (simp add: strip_0x_def strip_prefix_append [of "''0x''"] del: append_Cons append.simps)
  ultimately show ?thesis by (simp add: parse_hex_u64_def)
qed

section \<open>A conforming server\<close>

text \<open>The data a server has, and the values that stand for them in its responses.\<close>

record chain_view =
  cv_head :: "u64 reply"
  cv_code :: "string \<Rightarrow> u64 \<Rightarrow> string reply"
  cv_block :: "u64 \<Rightarrow> (string \<times> u64) reply"
  cv_logs :: "string \<Rightarrow> standard \<Rightarrow> u64 \<Rightarrow> u64 \<Rightarrow> rpc_log list reply"
  cv_receipt :: "string \<Rightarrow> transaction_receipt reply"

definition json_option_of :: "string option \<Rightarrow> json" where
  "json_option_of x = (case x of None \<Rightarrow> JNull | Some s \<Rightarrow> JString s)"

definition log_json :: "rpc_log \<Rightarrow> json" where
  "log_json l = JObject
     [(''address'', JString (log_address l)), (''blockHash'', JString (log_block_hash l)),
      (''blockNumber'', JString (log_block_number l)), (''data'', JString (log_data l)),
      (''logIndex'', JString (log_log_index l)), (''topics'', JArray (map JString (log_topics l))),
      (''transactionHash'', JString (log_transaction_hash l)),
      (''transactionIndex'', json_option_of (log_transaction_index l))]"

definition receipt_json :: "transaction_receipt \<Rightarrow> json" where
  "receipt_json r = JObject
     [(''blockHash'', JString (tr_block_hash r)), (''blockNumber'', JString (tr_block_number r)),
      (''contractAddress'', json_option_of (tr_contract_address r)),
      (''cumulativeGasUsed'', JString (tr_cumulative_gas_used r)),
      (''effectiveGasPrice'', json_option_of (tr_effective_gas_price r)), (''from'', JString (tr_from r)),
      (''gasUsed'', JString (tr_gas_used r)), (''status'', json_option_of (tr_status r)),
      (''to'', json_option_of (tr_to r)), (''transactionHash'', JString (tr_transaction_hash r)),
      (''transactionIndex'', JString (tr_transaction_index r)), (''type'', json_option_of (tr_transaction_type r))]"

definition conforms :: "transport \<Rightarrow> crates \<Rightarrow> chain_view \<Rightarrow> bool" where
  "conforms t c v \<longleftrightarrow>
     replies t ''eth_blockNumber'' [] (map_reply quantity (cv_head v))
     \<and> (\<forall>a b. replies t ''eth_getCode'' [JString a, quantity b] (map_reply JString (cv_code v a b)))
     \<and> (\<forall>b. \<exists>block. replies t ''eth_getBlockByNumber'' [quantity b, JBool False] (map_reply (\<lambda>_. block) (cv_block v b))
          \<and> (\<forall>hash seconds. cv_block v b = Value (hash, seconds) \<longrightarrow>
               json_get ''hash'' block = Some (JString hash) \<and> json_get ''timestamp'' block = Some (quantity seconds)))
     \<and> (\<forall>a s from to. replies t ''eth_getLogs'' (logs_params c a s from to)
          (map_reply (\<lambda>ls. JArray (map log_json ls)) (cv_logs v a s from to)))
     \<and> (\<forall>h. replies t ''eth_getTransactionReceipt'' [JString h] (map_reply receipt_json (cv_receipt v h)))"

lemma optional_json_option [simp]:
  "get name = Some (json_option_of x) \<Longrightarrow> optional get name = Some x"
  by (cases x) (auto simp: optional_def json_option_of_def)

lemma all_some_map: "(\<And>x. x \<in> set xs \<Longrightarrow> f (g x) = Some (h x)) \<Longrightarrow> all_some (map f (map g xs)) = Some (map h xs)"
  by (induction xs) auto

lemma string_list_strings: "string_list (JArray (map JString xs)) = Some xs"
  using all_some_map [of xs as_str JString "\<lambda>x. x"] by (simp add: string_list_def as_str_def)

definition untimed :: "rpc_log \<Rightarrow> rpc_log" where
  "untimed l = l\<lparr>log_block_timestamp := None\<rparr>"

lemma log_from_log_json: "log_from_json (log_json l) = Some (untimed l)"
  by (simp add: untimed_def log_from_json_def log_json_def struct_field_def required_def as_str_def log_fields_def
      string_list_strings)

lemma logs_from_log_json:
  "logs_from_json (JArray (map log_json ls)) = Some (map untimed ls)"
  using all_some_map [of ls log_from_json log_json] by (simp add: logs_from_json_def log_from_log_json)

lemma receipt_from_receipt_json: "receipt_from_json (receipt_json r) = Some (r\<lparr>tr_raw := receipt_json r\<rparr>)"
  by (simp add: receipt_from_json_def struct_field_def receipt_json_def required_def as_str_def receipt_fields_def)

lemma answer_seq: "answer (seq (rpc_call cl name params) f) =
    (case call_inner cl name params of Inl e \<Rightarrow> Inl e | Inr v \<Rightarrow> fst (f v metrics_new))"
  by (cases "call_inner cl name params") (simp_all add: answer_def seq_def rpc_call_run)

text \<open>The node of these data, for the services.\<close>

definition view_rpc :: "chain_view \<Rightarrow> rpc" where
  "view_rpc v =
     \<lparr>rpc_block_number = reported ''eth_blockNumber'' (cv_head v),
      rpc_code_at = (\<lambda>a b. reported ''eth_getCode'' (cv_code v a b)),
      rpc_block_hash = (\<lambda>b. reported ''eth_getBlockByNumber'' (map_reply (\<lambda>(hash, _). to_ascii_lowercase hash) (cv_block v b))),
      rpc_block_timestamp = (\<lambda>b. reported ''eth_getBlockByNumber'' (map_reply (\<lambda>(_, seconds). uint seconds * 1000000) (cv_block v b))),
      rpc_logs = (\<lambda>a s from to. reported ''eth_getLogs'' (map_reply (map untimed) (cv_logs v a s from to))),
      rpc_transaction_receipt = (\<lambda>h. reported ''eth_getTransactionReceipt''
        (map_reply (\<lambda>r. r\<lparr>tr_raw := receipt_json r\<rparr>) (cv_receipt v h)))\<rparr>"

definition times_fit :: "transport \<Rightarrow> chain_view \<Rightarrow> bool" where
  "times_fit t v \<longleftrightarrow> (\<forall>b hash seconds. cv_block v b = Value (hash, seconds) \<longrightarrow>
     uint seconds < 2 ^ 63 \<and> timestamp_in_range t (uint seconds))"

lemma metadata_of_block:
  assumes "json_get ''hash'' block = Some (JString h)" and "json_get ''timestamp'' block = Some (quantity s)"
    and "uint s < 2 ^ 63" and "timestamp_in_range t (uint s)"
  shows "metadata_of t b block = Ok \<lparr>bm_hash = to_ascii_lowercase h, bm_timestamp = uint s * 1000000\<rparr>"
proof -
  have "i64_try_from_u64 s = Some (uint s)" using assms(3) by (simp add: i64_try_from_u64_def int_range_defs)
  with assms show ?thesis
    by (simp add: metadata_of_def as_str_def quantity_def parse_hex_u64_quantity [simplified])
qed

lemma client_view:
  assumes conf: "conforms (ec_transport cl) (ec_crates cl) v" and times: "times_fit (ec_transport cl) v"
  shows "evm_chain_rpc cl = view_rpc v"
proof -
  have calls: "call_inner cl ''eth_blockNumber'' [] = reported ''eth_blockNumber'' (map_reply quantity (cv_head v))"
    "call_inner cl ''eth_getCode'' [JString a, quantity b] = reported ''eth_getCode'' (map_reply JString (cv_code v a b))"
    "call_inner cl ''eth_getLogs'' (logs_params (ec_crates cl) a s b b')
      = reported ''eth_getLogs'' (map_reply (\<lambda>ls. JArray (map log_json ls)) (cv_logs v a s b b'))"
    "call_inner cl ''eth_getTransactionReceipt'' [JString a]
      = reported ''eth_getTransactionReceipt'' (map_reply receipt_json (cv_receipt v a))" for a b b' s
    using conf call_inner_reply unfolding conforms_def by blast+
  have "answer (node_block_number cl) = reported ''eth_blockNumber'' (cv_head v)"
    by (cases "cv_head v")
       (simp_all add: node_block_number_def answer_seq calls lift_def as_str_def quantity_def parse_hex_u64_quantity [simplified])
  moreover have "answer (node_code_at cl a b) = reported ''eth_getCode'' (cv_code v a b)" for a b
    by (cases "cv_code v a b") (simp_all add: node_code_at_def answer_seq calls lift_def as_str_def)
  moreover have "answer (node_block_metadata cl b) = reported ''eth_getBlockByNumber''
      (map_reply (\<lambda>(hash, seconds). \<lparr>bm_hash = to_ascii_lowercase hash, bm_timestamp = uint seconds * 1000000\<rparr>) (cv_block v b))" for b
  proof -
    from conf obtain block where
      inner: "call_inner cl ''eth_getBlockByNumber'' [quantity b, JBool False] = reported ''eth_getBlockByNumber'' (map_reply (\<lambda>_. block) (cv_block v b))"
      and fields: "\<And>hash seconds. cv_block v b = Value (hash, seconds) \<Longrightarrow>
               json_get ''hash'' block = Some (JString hash) \<and> json_get ''timestamp'' block = Some (quantity seconds)"
      using call_inner_reply unfolding conforms_def by blast
    show ?thesis
    proof (cases "cv_block v b")
      case (Value r)
      obtain hash seconds where r: "r = (hash, seconds)" by (cases r)
      have "uint seconds < 2 ^ 63" "timestamp_in_range (ec_transport cl) (uint seconds)"
        using times Value r by (auto simp: times_fit_def)
      then have "metadata_of (ec_transport cl) b block
          = Ok \<lparr>bm_hash = to_ascii_lowercase hash, bm_timestamp = uint seconds * 1000000\<rparr>"
        using fields [of hash seconds] Value r by (intro metadata_of_block) auto
      then show ?thesis using inner Value r by (simp add: node_block_metadata_def answer_seq lift_def)
    qed (simp_all add: inner node_block_metadata_def answer_seq)
  qed
  note meta = this
  have "answer (node_block_hash cl b)
      = reported ''eth_getBlockByNumber'' (map_reply (\<lambda>(hash, _). to_ascii_lowercase hash) (cv_block v b))"
    "answer (node_block_timestamp cl b)
      = reported ''eth_getBlockByNumber'' (map_reply (\<lambda>(_, seconds). uint seconds * 1000000) (cv_block v b))" for b
    using meta [of b]
    by (cases "cv_block v b"; force simp: node_block_hash_def node_block_timestamp_def answer_def seq_def ret_def
        split: prod.splits sum.splits)+
  moreover have "answer (node_logs cl a s f t) = reported ''eth_getLogs'' (map_reply (map untimed) (cv_logs v a s f t))" for a s f t
    by (cases "cv_logs v a s f t") (simp_all add: node_logs_def answer_seq calls lift_def logs_from_log_json)
  moreover have "answer (node_transaction_receipt cl h)
      = reported ''eth_getTransactionReceipt'' (map_reply (\<lambda>r. r\<lparr>tr_raw := receipt_json r\<rparr>) (cv_receipt v h))" for h
  proof (cases "cv_receipt v h")
    case (Value r)
    then show ?thesis
      using receipt_from_receipt_json [of r]
      by (simp add: node_transaction_receipt_def answer_seq calls lift_def) (simp add: receipt_json_def)
  qed (simp_all add: node_transaction_receipt_def answer_seq calls)
  ultimately show ?thesis by (simp add: evm_chain_rpc_def view_rpc_def)
qed


section \<open>A sample server\<close>

text \<open>A server with one log and one receipt, whose bodies are the names of the methods.\<close>

definition served_log :: rpc_log where
  "served_log = \<lparr>log_address = ''0xc'', log_topics = [''0xa'', ''0xb''], log_data = ''0x1'', log_block_number = ''0x5'',
     log_transaction_hash = ''0xt'', log_transaction_index = None, log_log_index = ''0x0'', log_block_hash = ''0xAB'',
     log_block_timestamp = None\<rparr>"

definition served_receipt :: transaction_receipt where
  "served_receipt = \<lparr>tr_transaction_hash = ''0xt'', tr_transaction_index = ''0x0'', tr_block_hash = ''0xAB'',
     tr_block_number = ''0x5'', tr_from = ''0xa'', tr_to = Some ''0xb'', tr_contract_address = None,
     tr_status = Some ''0x1'', tr_gas_used = ''0x2'', tr_cumulative_gas_used = ''0x2'', tr_effective_gas_price = None,
     tr_transaction_type = None, tr_raw = JNull\<rparr>"

definition served_view :: chain_view where
  "served_view = \<lparr>cv_head = Value 20, cv_code = (\<lambda>_ _. Missing), cv_block = (\<lambda>_. Value (''0xAB'', 12)),
     cv_logs = (\<lambda>_ _ _ _. Value [served_log]), cv_receipt = (\<lambda>_. Value served_receipt)\<rparr>"

definition served_result :: "string \<Rightarrow> json" where
  "served_result name =
     (if name = ''eth_blockNumber'' then quantity 20
      else if name = ''eth_getBlockByNumber'' then JObject [(''hash'', JString ''0xAB''), (''timestamp'', quantity 12)]
      else if name = ''eth_getLogs'' then JArray [log_json served_log]
      else if name = ''eth_getTransactionReceipt'' then receipt_json served_receipt
      else JNull)"

definition served_transport :: transport where
  "served_transport = \<lparr>post = (\<lambda>name _. Answered 200 name),
     parse_json = (\<lambda>body. Some (JObject [(''jsonrpc'', JString ''2.0''), (''id'', JNumber 1), (''result'', served_result body)])),
     status_text = show_int, timestamp_in_range = (\<lambda>_. True)\<rparr>"

definition served_client :: evm_rpc_client where
  "served_client = with_metric_chain_id 1 (client_new served_transport sample_crates)"

lemma served_replies:
  "replies served_transport name params 
    (if value_of (served_result name) = JNull then Missing else Value (value_of (served_result name)))"
  by (cases "served_result name")
     (auto simp: replies_def served_transport_def is_success_def decode_response_def response_from_json_def
        struct_field_def optional_value_def)

lemma served_results:
  "value_of (served_result ''eth_blockNumber'') = quantity 20"
  "value_of (served_result ''eth_getCode'') = JNull"
  "value_of (served_result ''eth_getBlockByNumber'') = JObject [(''hash'', JString ''0xAB''), (''timestamp'', quantity 12)]"
  "value_of (served_result ''eth_getLogs'') = JArray [log_json served_log]"
  "value_of (served_result ''eth_getTransactionReceipt'') = receipt_json served_receipt"
  by code_simp+

lemma served_conforms: "conforms (ec_transport served_client) (ec_crates served_client) served_view"
proof -
  have t: "ec_transport served_client = served_transport"
    by (simp add: served_client_def with_metric_chain_id_def client_new_def)
  have "replies served_transport ''eth_getBlockByNumber'' ps
      (Value (JObject [(''hash'', JString ''0xAB''), (''timestamp'', quantity 12)]))" for ps
    using served_replies [of "''eth_getBlockByNumber''" ps] by (simp add: served_results)
  then have "\<exists>block. replies served_transport ''eth_getBlockByNumber'' ps (Value block)
      \<and> json_get ''hash'' block = Some (JString ''0xAB'') \<and> json_get ''timestamp'' block = Some (quantity 12)" for ps
    by (intro exI [of _ "JObject [(''hash'', JString ''0xAB''), (''timestamp'', quantity 12)]"] conjI) (auto simp: json_get_def)
  then show ?thesis
    using served_replies [of "''eth_blockNumber''"] served_replies [of "''eth_getCode''"]
      served_replies [of "''eth_getLogs''"] served_replies [of "''eth_getTransactionReceipt''"]
    by (simp add: conforms_def t served_view_def served_results quantity_def receipt_json_def)
qed


text \<open>C27 at a server that answers a request it does not know with a null result.\<close>

theorem rpc_call_exact_witness:
  "errors_counted (snd (rpc_call served_client ''eth_syncing'' [] metrics_new)) ''1'' = 1
     \<and> errors_counted (snd (rpc_call served_client ''eth_syncing'' [] metrics_new)) ''2'' = 0"
proof -
  obtain r m' where run: "rpc_call served_client ''eth_syncing'' [] metrics_new = (r, m')"
    by (cases "rpc_call served_client ''eth_syncing'' [] metrics_new")
  have "\<not> is_ok (fst (rpc_call served_client ''eth_syncing'' [] metrics_new))" by code_simp
  then obtain e where "r = Err e" using run by (cases r) auto
  moreover have "metric_chain_id served_client = ''1''" by code_simp
  moreover have "errors_counted metrics_new c = 0" for c by (simp add: errors_counted_def metrics_new_def)
  ultimately show ?thesis using rpc_call_exact [OF run] run by simp
qed

end
