(* ===== verification/Scan_Spec.thy ===== *)
theory Scan_Spec
  imports Node_History Cli_Spec Rpc_Spec
begin

text \<open>
  The scan of a contract from the node to the ledger: over a server that conforms to JSON-RPC and answers
  queries for logs from the history of its chain, the command books that history.
\<close>

section \<open>A server with a history\<close>

text \<open>As \<open>recounts\<close>, of the data of a server.\<close>

definition tells :: "crates \<Rightarrow> chain_view \<Rightarrow> rpc_log list \<Rightarrow> bool" where
  "tells c v history \<longleftrightarrow> sorted (map block_of history)
     \<and> (\<forall>contract standard lo hi logs. cv_logs v contract standard lo hi = Value logs
          \<longrightarrow> logs = filter (asked c contract standard lo hi) history)"

definition timed :: "chain_view \<Rightarrow> rpc_log \<Rightarrow> rpc_log" where
  "timed v l = l\<lparr>log_block_timestamp :=
     (case cv_block v (block_of l) of Value (_, seconds) \<Rightarrow> Some (uint seconds * 1000000) | _ \<Rightarrow> None)\<rparr>"

lemma untimed_same [simp]:
  "block_of (untimed l) = block_of l" "emitted contract (untimed l) = emitted contract l"
  "topic_of c standard (untimed l) = topic_of c standard l" "asked c contract standard lo hi (untimed l) = asked c contract standard lo hi l"
  by (simp_all add: untimed_def block_of_def asked_def within_def topic_of_def emitted_def)

lemma stamped_view [simp]: "stamped (view_rpc v) (untimed l) = timed v l"
  by (cases "cv_block v (block_of l)") (auto simp: stamped_def timed_def view_rpc_def untimed_def block_of_def)

lemma tells_recounts:
  assumes "tells c v history"
  shows "recounts c (view_rpc v) (map untimed history)"
proof -
  have "ls = filter (asked c contract s lo hi) (map untimed history)" if "rpc_logs (view_rpc v) contract s lo hi = Ok ls"
    for contract s lo hi ls
    using that assms by (cases "cv_logs v contract s lo hi") (auto simp: view_rpc_def tells_def filter_map comp_def)
  with assms show ?thesis by (simp add: recounts_def tells_def comp_def)
qed

lemma detect_untimed [simp]: "detect_token_standard_from_log c (untimed l) = detect_token_standard_from_log c l"
proof -
  have "log_topics (untimed l) = log_topics l" "log_data (untimed l) = log_data l" "first_topic (untimed l) = first_topic l"
    by (simp_all add: untimed_def)
  then show ?thesis by (simp only: detect_token_standard_from_log_def)
qed

section \<open>Registration\<close>

lemma ensure_chain_ledger: "ensure_chain name chain url confirmations d = (r, t) \<Longrightarrow> ledger_view t = ledger_view d"
  by (cases "pool_available (db_env d)")
     (auto simp: ensure_chain_def Let_def ledger_view_def split: if_splits option.splits)

lemma ensure_source_row:
  assumes "ensure_source chain name contract standard start d = (Ok source, t)"
  shows "source \<in> set (db_sources t) \<and> source_key source = (chain, to_ascii_lowercase contract)
    \<and> so_token_standard source = standard_as_str standard"
  using assms
  by (cases "pool_available (db_env d)")
     (auto simp: ensure_source_def Let_def in_update_rows source_key_def split: if_splits option.splits dest!: find_Some_set)

lemma register_source_ledger:
  assumes "register_source co a contract standard r s = (Ok source, t)" and "ledger_inv (ws_db s)"
  shows "ledger_inv (ws_db t) \<and> db_entries (ws_db t) = db_entries (ws_db s) \<and> source \<in> set (db_sources (ws_db t))
    \<and> source_key source = (ca_chain_id a, to_ascii_lowercase contract) \<and> so_token_standard source = standard_as_str standard"
proof -
  from assms(1) obtain chain d where
        c: "ensure_chain (ca_chain_name a) (ca_chain_id a) (redact_rpc_url (ca_rpc_url a)) (ca_finality_confirmations a) (ws_db s)
          = (Ok chain, d)"
    and e: "ensure_source (ca_chain_id a) (standard_as_str standard @ ''-'' @ contract) contract standard (u64_as_i64 (rr_from r)) d
          = (Ok source, ws_db t)"
    by (auto simp: register_source_def seq_pool_Ok seq_Ok_iff [of "on_db _"] on_db_Ok)
  have "ledger_view d = ledger_view (ws_db s)" using c by (rule ensure_chain_ledger)
  then have "ledger_inv d" "db_entries d = db_entries (ws_db s)"
    using assms(2) ledger_inv_same [OF assms(2), of d] by (simp_all add: ledger_view_def)
  with ensure_source_frame [OF e] ensure_source_keeps [OF _ e] ensure_source_row [OF e] show ?thesis by simp
qed

section \<open>The scan\<close>

lemma resolve_contract_steps:
  assumes "resolve_contract co a (ret ()) s = (Ok (requested, contract, r), t)"
  shows "standard_from_str (ca_standard a) = Ok requested \<and> normalize_address (ca_contract a) = Ok contract
    \<and> resolve_finalized_range (co_node co (ca_rpc_url a)) (ca_from_block a) (ca_to_block a) (ca_lookback a)
        (ca_finality_confirmations a) = Ok r"
  using assms
  by (auto simp: resolve_contract_def record_resolved_range_metrics_def seq_lift_Ok seq_bail_Ok Let_def meter_def
      seq_Ok_iff [of "meter _"] seq_assoc)

definition standard_of_scan :: "crates \<Rightarrow> standard \<Rightarrow> rpc_log list \<Rightarrow> standard \<Rightarrow> bool" where
  "standard_of_scan c requested logs standard \<longleftrightarrow> standard \<noteq> Auto
     \<and> (if requested = Auto then detects c logs standard else standard = requested)"

lemma requested_standard:
  assumes "tells c v history"
    and "resolve_requested_standard_for_scan c (view_rpc v) contract requested lo hi n = Ok (standard, pre)"
  shows "standard_of_scan c requested (filter (asked c contract Auto lo hi) history) standard
    \<and> (\<forall>p. pre = Some p \<longrightarrow> rpc_logs (view_rpc v) contract Auto (pf_from p) (pf_to p) = Ok (pf_logs p))"
proof (cases "requested = Auto")
  case False
  with assms(2) show ?thesis
    by (simp add: resolve_requested_standard_for_scan_def standard_is_auto_def standard_of_scan_def)
next
  case True
  with assms(2) obtain d where "detect_loop c (view_rpc v) contract lo hi n = Ok (Some d)"
    and d: "standard = sd_standard d" "pre = Some (sd_prefetched_logs d)"
    by (auto simp: resolve_requested_standard_for_scan_def standard_is_auto_def ok_or_def
        detect_token_standard_with_prefetched_logs_def split: if_splits option.splits)
  from detect_loop_found [OF this(1)] have
        answered: "rpc_logs (view_rpc v) contract Auto (pf_from (sd_prefetched_logs d)) (pf_to (sd_prefetched_logs d))
          = Ok (pf_logs (sd_prefetched_logs d))"
    and range: "lo \<le> pf_from (sd_prefetched_logs d)" "pf_to (sd_prefetched_logs d) \<le> hi"
    and found: "detects c (pf_logs (sd_prefetched_logs d)) standard"
    by (simp_all add: Let_def d)
  from found range have "detects c (filter (asked c contract Auto lo hi) history) standard"
    unfolding recounted [OF tells_recounts [OF assms(1)] answered] by (auto simp: detects_def filter_map asked_def within_def)
  moreover have "standard \<noteq> Auto" using found not_detected_auto by (auto simp: detects_def)
  ultimately show ?thesis using True answered d by (simp add: standard_of_scan_def)
qed


section \<open>A sample chain\<close>

text \<open>A chain with one mint of 7 units in block 16, on a server that answers one query for logs, of any kind of
  transfer in blocks 10 to 20.\<close>

definition minted :: rpc_log where
  "minted = mint_log\<lparr>log_address := ''0x'' @ sample_digits\<rparr>"

definition answered_query :: "json list" where
  "answered_query = logs_params sample_crates (''0x'' @ sample_digits) Auto 10 20"

definition mint_view :: chain_view where
  "mint_view = \<lparr>cv_head = Value 20, cv_code = (\<lambda>_ _. Value ''0x60''), cv_block = (\<lambda>_. Value (''0xAB'', 12)),
     cv_logs = (\<lambda>a s lo hi. if logs_params sample_crates a s lo hi = answered_query then Value [minted] else Missing),
     cv_receipt = (\<lambda>_. Missing)\<rparr>"

definition mint_result :: "string \<Rightarrow> json" where
  "mint_result body =
     (if body = ''eth_blockNumber'' then quantity 20
      else if body = ''eth_getCode'' then JString ''0x60''
      else if body = ''eth_getBlockByNumber'' then JObject [(''hash'', JString ''0xAB''), (''timestamp'', quantity 12)]
      else if body = ''mint'' then JArray [log_json minted]
      else JNull)"

definition mint_transport :: transport where
  "mint_transport = \<lparr>post = (\<lambda>name params. Answered 200 (if name = ''eth_getLogs'' \<and> params = answered_query then ''mint'' else name)),
     parse_json = (\<lambda>body. Some (JObject [(''jsonrpc'', JString ''2.0''), (''id'', JNumber 1), (''result'', mint_result body)])),
     status_text = show_int, timestamp_in_range = (\<lambda>_. True)\<rparr>"

definition mint_client :: evm_rpc_client where
  "mint_client = with_metric_chain_id 1 (client_new mint_transport sample_crates)"

lemma mint_replies:
  "replies mint_transport name params
    (let j = value_of (mint_result (if name = ''eth_getLogs'' \<and> params = answered_query then ''mint'' else name))
     in if j = JNull then Missing else Value j)"
  by (cases "mint_result (if name = ''eth_getLogs'' \<and> params = answered_query then ''mint'' else name)")
     (auto simp: replies_def mint_transport_def is_success_def decode_response_def response_from_json_def
        struct_field_def optional_value_def)

lemma mint_results:
  "value_of (mint_result ''eth_blockNumber'') = quantity 20"
  "value_of (mint_result ''eth_getCode'') = JString ''0x60''"
  "value_of (mint_result ''eth_getBlockByNumber'') = JObject [(''hash'', JString ''0xAB''), (''timestamp'', quantity 12)]"
  "value_of (mint_result ''mint'') = JArray [log_json minted]"
  "value_of (mint_result ''eth_getLogs'') = JNull"
  "value_of (mint_result ''eth_getTransactionReceipt'') = JNull"
  by code_simp+

lemma mint_conforms:
  "conforms (ec_transport mint_client) (ec_crates mint_client) mint_view" "times_fit (ec_transport mint_client) mint_view"
proof -
  have t: "ec_transport mint_client = mint_transport" "ec_crates mint_client = sample_crates"
    by (simp_all add: mint_client_def with_metric_chain_id_def client_new_def)
  have "replies mint_transport ''eth_getBlockByNumber'' ps
      (Value (JObject [(''hash'', JString ''0xAB''), (''timestamp'', quantity 12)]))" for ps
    using mint_replies [of "''eth_getBlockByNumber''" ps] by (simp add: mint_results)
  then have "\<exists>block. replies mint_transport ''eth_getBlockByNumber'' ps (Value block)
      \<and> json_get ''hash'' block = Some (JString ''0xAB'') \<and> json_get ''timestamp'' block = Some (quantity 12)" for ps
    by (intro exI [of _ "JObject [(''hash'', JString ''0xAB''), (''timestamp'', quantity 12)]"] conjI) (auto simp: json_get_def)
  moreover have "replies mint_transport ''eth_getLogs'' (logs_params sample_crates a s lo hi)
      (map_reply (\<lambda>ls. JArray (map log_json ls)) (cv_logs mint_view a s lo hi))" for a s lo hi
    using mint_replies [of "''eth_getLogs''" "logs_params sample_crates a s lo hi"]
    by (cases "logs_params sample_crates a s lo hi = answered_query") (simp_all add: mint_view_def mint_results Let_def)
  moreover have "cv_head mint_view = Value 20" "cv_code mint_view a b = Value ''0x60''" "cv_block mint_view b = Value (''0xAB'', 12)"
    "cv_receipt mint_view h = Missing" for a b h
    by (simp_all add: mint_view_def)
  ultimately show "conforms (ec_transport mint_client) (ec_crates mint_client) mint_view"
    using mint_replies [of "''eth_blockNumber''"] mint_replies [of "''eth_getCode''"] mint_replies [of "''eth_getTransactionReceipt''"]
    by (simp add: conforms_def t mint_results quantity_def Let_def)
  show "times_fit (ec_transport mint_client) mint_view"
    by (simp add: times_fit_def t mint_transport_def mint_view_def)
qed

lemma logs_params_inject:
  assumes "logs_params c a s lo hi = logs_params c b s' lo' hi'"
  shows "a = b \<and> lo = lo' \<and> hi = hi' \<and> supported_topic0_values c s = supported_topic0_values c s'"
proof -
  have quantity: "x = y" if "quantity x = quantity y" for x y
  proof -
    from that have "''0x'' @ show_hex (unat x) = ''0x'' @ show_hex (unat y)" by (simp add: quantity_def)
    then show ?thesis using parse_hex_u64_quantity [of x] parse_hex_u64_quantity [of y] by (metis sum.inject(2))
  qed
  have "inj JString" by (rule injI) simp
  then have "supported_topic0_values c s = supported_topic0_values c s'"
    using assms by (simp add: logs_params_def inj_map_eq_map)
  moreover have "a = b" "quantity lo = quantity lo'" "quantity hi = quantity hi'" using assms by (simp_all add: logs_params_def)
  ultimately show ?thesis using quantity by blast
qed

lemma mint_tells: "tells sample_crates mint_view [minted]"
proof -
  have "asked sample_crates a s lo hi minted"
    if "logs_params sample_crates a s lo hi = answered_query" for a s lo hi
  proof -
    have "asked sample_crates (''0x'' @ sample_digits) Auto 10 20 minted" by code_simp
    with logs_params_inject [OF that [unfolded answered_query_def]] show ?thesis by (simp add: asked_def topic_of_def)
  qed
  then show ?thesis by (auto simp: tells_def mint_view_def split: if_splits)
qed

definition mint_console :: console where
  "mint_console = sample_console\<lparr>co_node := (\<lambda>_. evm_chain_rpc mint_client)\<rparr>"

definition mint_args :: contract_args where
  "mint_args = contract_options.extend sample_options (contract_args.fields ''url'')"

definition mint_scan :: "scan_summary result \<times> worker_state" where
  "mint_scan = scan_contract mint_console mint_args 100 False fresh_state"


definition mint_movement :: "uuid \<Rightarrow> movement" where
  "mint_movement sid = \<lparr>mv_source = sid, mv_from = None, mv_to = Some (''0x'' @ sample_digits), mv_token = [], mv_amount = 7,
     mv_live = True\<rparr>"

lemma mint_decoded:
  "case decode_logs sample_crates Erc20 (map (timed mint_view) (filter (asked sample_crates (''0x'' @ sample_digits) Erc20 10 20) [minted])) of
      Ok decoded \<Rightarrow> map (booking sample_crates source) (log_items decoded)
        = [Some ((sr_chain_id source, ''0x20'', 0, 0), mint_movement (sr_id source))]
    | Err _ \<Rightarrow> False"
  by code_simp

lemma mint_range:
  "resolve_finalized_range (view_rpc mint_view) (ca_from_block mint_args) (ca_to_block mint_args) (ca_lookback mint_args)
    (ca_finality_confirmations mint_args) = Ok \<lparr>rr_from = 10, rr_to = 20, rr_head = 20, rr_finalized_head = 20\<rparr>"
  by code_simp

lemma mint_request:
  "normalize_address (ca_contract mint_args) = Ok (''0x'' @ sample_digits)" "standard_from_str (ca_standard mint_args) = Ok Auto"
  "detect_token_standard_from_log sample_crates minted = Ok (Some Erc20)" "ca_chain_id mint_args = 1"
  by code_simp+

lemma mint_scan_ok: "is_ok (fst mint_scan)"
proof -
  have "is_ok (fst (scan_contract (sample_console\<lparr>co_node := (\<lambda>_. view_rpc mint_view)\<rparr>) mint_args 100 False fresh_state))"
    by code_simp
  then show ?thesis by (simp add: mint_scan_def mint_console_def client_view [OF mint_conforms])
qed


end
