(* ===== verification/Commands.thy ===== *)
theory Commands
  imports Doctor Api
begin

text \<open>
  The command line (src/main.rs): the arguments of every command with their defaults, and the
  dispatch. The command line crate splits the words of the command line into the values of the options and
  the switches that are set; from there on the declarations of the arguments are modelled: which
  option is required, which has a default or an environment variable, and how its value is parsed.
  The parser of socket addresses is a parameter. Of several faulty arguments the first declared one is
  reported here.
\<close>

section \<open>Arguments\<close>

record command_line =
  cl_option :: "string \<Rightarrow> string option"
  cl_switch :: "string \<Rightarrow> bool"
  cl_env :: "string \<Rightarrow> string option"
  cl_socket_addr :: "string \<Rightarrow> bool"

datatype usage_error = MissingArgument string | InvalidValue string string

definition parse_with :: "(string \<Rightarrow> 'a option) \<Rightarrow> string \<Rightarrow> string \<Rightarrow> usage_error + 'a" where
  "parse_with parse name value = ok_or (InvalidValue name value) (parse value)"

definition optional_arg :: "command_line \<Rightarrow> (string \<Rightarrow> 'a option) \<Rightarrow> string \<Rightarrow> usage_error + 'a option" where
  "optional_arg cl parse name = transpose (map_option (parse_with parse name) (cl_option cl name))"

definition default_arg :: "command_line \<Rightarrow> (string \<Rightarrow> 'a option) \<Rightarrow> string \<Rightarrow> 'a \<Rightarrow> usage_error + 'a" where
  "default_arg cl parse name fallback =
     (case cl_option cl name of Some value \<Rightarrow> parse_with parse name value | None \<Rightarrow> Ok fallback)"

definition required_arg :: "command_line \<Rightarrow> (string \<Rightarrow> 'a option) \<Rightarrow> string \<Rightarrow> usage_error + 'a" where
  "required_arg cl parse name =
     (case cl_option cl name of Some value \<Rightarrow> parse_with parse name value | None \<Rightarrow> Err (MissingArgument name))"

definition database_url_arg :: "command_line \<Rightarrow> usage_error + string" where
  "database_url_arg cl =
     (case cl_option cl ''database-url'' of
        Some value \<Rightarrow> Ok value
      | None \<Rightarrow> ok_or (MissingArgument ''database-url'') (cl_env cl ''DATABASE_URL''))"

definition parse_usize :: "string \<Rightarrow> nat option" where
  "parse_usize value = map_option unat (parse_u64 10 value)"

definition parse_socket_addr :: "command_line \<Rightarrow> string \<Rightarrow> string option" where
  "parse_socket_addr cl value = (if cl_socket_addr cl value then Some value else None)"

section \<open>Commands\<close>

text \<open>The arguments of \<open>ScanContract\<close>, \<open>EnqueueContract\<close> and \<open>BackfillContract\<close> but the URL, the ones they share.\<close>

datatype worker_commands =
    RunOnce (ro_rpc_url: "string option") (ro_database_url: string) (ro_worker_id: string)
      (ro_chain_id: "int option") (ro_lease_seconds: int) (ro_chunk_size: u64) (ro_receipts: bool)
  | Run (ru_rpc_url: "string option") (ru_database_url: string) (ru_worker_id: string)
      (ru_chain_id: "int option") (ru_lease_seconds: int) (ru_chunk_size: u64) (ru_max_jobs: "nat option")
      (ru_stop_when_idle: bool) (ru_idle_sleep_ms: u64) (ru_receipts: bool) (ru_metrics_bind: "string option")

datatype job_commands =
    Status (st_database_url: string) (st_chain_id: "int option") (st_contract: "string option")
      (st_job_type: "string option")

datatype commands =
    ScanContract "string option" contract_options u64 bool
  | EnqueueContract "string option" contract_options int
  | BackfillContract "string option" contract_options u64 int
  | EnqueueReplay string int string u64 u64 int
  | BackfillEventMetadata "string option" string int string int
  | BackfillTransactionReceipts "string option" string int string int nat
  | VerifyReorgBlocks "string option" string int string u64 u64
  | DoctorReport "string option" string int string
  | Serve string string
  | Worker worker_commands
  | Jobs job_commands

definition contract_options_from :: "command_line \<Rightarrow> usage_error + contract_options" where
  "contract_options_from cl =
     and_then (database_url_arg cl) (\<lambda>database_url.
     and_then (default_arg cl Some ''chain-name'' ''ethereum-mainnet'') (\<lambda>chain_name.
     and_then (default_arg cl parse_i64 ''chain-id'' 1) (\<lambda>chain_id.
     and_then (default_arg cl parse_i64 ''finality-confirmations'' 64) (\<lambda>finality_confirmations.
     and_then (required_arg cl Some ''contract'') (\<lambda>contract.
     and_then (required_arg cl Some ''standard'') (\<lambda>standard.
     and_then (optional_arg cl Some ''from-block'') (\<lambda>from_block.
     and_then (default_arg cl Some ''to-block'' ''latest'') (\<lambda>to_block.
     and_then (default_arg cl (parse_u64 10) ''lookback'' 5000) (\<lambda>lookback.
       Ok \<lparr>ca_database_url = database_url, ca_chain_name = chain_name, ca_chain_id = chain_id,
           ca_finality_confirmations = finality_confirmations, ca_contract = contract, ca_standard = standard,
           ca_from_block = from_block, ca_to_block = to_block, ca_lookback = lookback\<rparr>)))))))))"

definition scan_contract_from :: "command_line \<Rightarrow> usage_error + commands" where
  "scan_contract_from cl =
     and_then (contract_options_from cl) (\<lambda>options.
     and_then (default_arg cl (parse_u64 10) ''chunk-size'' 10) (\<lambda>chunk_size.
       Ok (ScanContract (cl_option cl ''rpc-url'') options chunk_size (cl_switch cl ''include-transaction-receipts''))))"

definition enqueue_contract_from :: "command_line \<Rightarrow> usage_error + commands" where
  "enqueue_contract_from cl =
     and_then (contract_options_from cl) (\<lambda>options.
     and_then (default_arg cl parse_i32 ''max-attempts'' 5) (\<lambda>max_attempts.
       Ok (EnqueueContract (cl_option cl ''rpc-url'') options max_attempts)))"

definition backfill_contract_from :: "command_line \<Rightarrow> usage_error + commands" where
  "backfill_contract_from cl =
     and_then (contract_options_from cl) (\<lambda>options.
     and_then (default_arg cl (parse_u64 10) ''range-size'' 100) (\<lambda>range_size.
     and_then (default_arg cl parse_i32 ''max-attempts'' 5) (\<lambda>max_attempts.
       Ok (BackfillContract (cl_option cl ''rpc-url'') options range_size max_attempts))))"

definition enqueue_replay_from :: "command_line \<Rightarrow> usage_error + commands" where
  "enqueue_replay_from cl =
     and_then (database_url_arg cl) (\<lambda>database_url.
     and_then (default_arg cl parse_i64 ''chain-id'' 1) (\<lambda>chain_id.
     and_then (required_arg cl Some ''contract'') (\<lambda>contract.
     and_then (required_arg cl (parse_u64 10) ''from-block'') (\<lambda>from_block.
     and_then (required_arg cl (parse_u64 10) ''to-block'') (\<lambda>to_block.
     and_then (default_arg cl parse_i32 ''max-attempts'' 5) (\<lambda>max_attempts.
       Ok (EnqueueReplay database_url chain_id contract from_block to_block max_attempts)))))))"

text \<open>The arguments of the commands about an indexed source.\<close>

definition source_args_from :: "command_line \<Rightarrow> usage_error + (string option \<times> string \<times> int \<times> string)" where
  "source_args_from cl =
     and_then (database_url_arg cl) (\<lambda>database_url.
     and_then (default_arg cl parse_i64 ''chain-id'' 1) (\<lambda>chain_id.
     and_then (required_arg cl Some ''contract'') (\<lambda>contract.
       Ok (cl_option cl ''rpc-url'', database_url, chain_id, contract))))"

definition backfill_event_metadata_from :: "command_line \<Rightarrow> usage_error + commands" where
  "backfill_event_metadata_from cl =
     and_then (source_args_from cl) (\<lambda>(rpc_url, database_url, chain_id, contract).
     and_then (default_arg cl parse_i64 ''limit-blocks'' 100) (\<lambda>limit_blocks.
       Ok (BackfillEventMetadata rpc_url database_url chain_id contract limit_blocks)))"

definition backfill_transaction_receipts_from :: "command_line \<Rightarrow> usage_error + commands" where
  "backfill_transaction_receipts_from cl =
     and_then (source_args_from cl) (\<lambda>(rpc_url, database_url, chain_id, contract).
     and_then (default_arg cl parse_i64 ''limit'' 1000) (\<lambda>limit.
     and_then (default_arg cl parse_usize ''persist-batch-size'' 100) (\<lambda>persist_batch_size.
       Ok (BackfillTransactionReceipts rpc_url database_url chain_id contract limit persist_batch_size))))"

definition verify_reorg_from :: "command_line \<Rightarrow> usage_error + commands" where
  "verify_reorg_from cl =
     and_then (source_args_from cl) (\<lambda>(rpc_url, database_url, chain_id, contract).
     and_then (required_arg cl (parse_u64 10) ''from-block'') (\<lambda>from_block.
     and_then (required_arg cl (parse_u64 10) ''to-block'') (\<lambda>to_block.
       Ok (VerifyReorgBlocks rpc_url database_url chain_id contract from_block to_block))))"

definition doctor_from :: "command_line \<Rightarrow> usage_error + commands" where
  "doctor_from cl =
     and_then (source_args_from cl) (\<lambda>(rpc_url, database_url, chain_id, contract).
       Ok (DoctorReport rpc_url database_url chain_id contract))"

definition serve_from :: "command_line \<Rightarrow> usage_error + commands" where
  "serve_from cl =
     and_then (database_url_arg cl) (\<lambda>database_url.
     and_then (default_arg cl (parse_socket_addr cl) ''bind'' ''127.0.0.1:3000'') (\<lambda>bind.
       Ok (Serve database_url bind)))"

text \<open>The arguments the two worker commands share.\<close>

definition worker_args_from :: "command_line \<Rightarrow> usage_error + (string \<times> string \<times> int option \<times> int \<times> u64)" where
  "worker_args_from cl =
     and_then (database_url_arg cl) (\<lambda>database_url.
     and_then (default_arg cl Some ''worker-id'' ''local-worker'') (\<lambda>worker_id.
     and_then (optional_arg cl parse_i64 ''chain-id'') (\<lambda>chain_id.
     and_then (default_arg cl parse_i64 ''lease-seconds'' 60) (\<lambda>lease_seconds.
     and_then (default_arg cl (parse_u64 10) ''chunk-size'' 10) (\<lambda>chunk_size.
       Ok (database_url, worker_id, chain_id, lease_seconds, chunk_size))))))"

definition run_once_from :: "command_line \<Rightarrow> usage_error + worker_commands" where
  "run_once_from cl =
     and_then (worker_args_from cl) (\<lambda>(database_url, worker_id, chain_id, lease_seconds, chunk_size).
       Ok (RunOnce (cl_option cl ''rpc-url'') database_url worker_id chain_id lease_seconds chunk_size
         (cl_switch cl ''include-transaction-receipts'')))"

definition run_from :: "command_line \<Rightarrow> usage_error + worker_commands" where
  "run_from cl =
     and_then (worker_args_from cl) (\<lambda>(database_url, worker_id, chain_id, lease_seconds, chunk_size).
     and_then (optional_arg cl parse_usize ''max-jobs'') (\<lambda>max_jobs.
     and_then (default_arg cl (parse_u64 10) ''idle-sleep-ms'' 1000) (\<lambda>idle_sleep_ms.
     and_then (optional_arg cl (parse_socket_addr cl) ''metrics-bind'') (\<lambda>metrics_bind.
       Ok (Run (cl_option cl ''rpc-url'') database_url worker_id chain_id lease_seconds chunk_size max_jobs
         (cl_switch cl ''stop-when-idle'') idle_sleep_ms (cl_switch cl ''include-transaction-receipts'') metrics_bind)))))"

definition status_from :: "command_line \<Rightarrow> usage_error + job_commands" where
  "status_from cl =
     and_then (database_url_arg cl) (\<lambda>database_url.
     and_then (optional_arg cl parse_i64 ''chain-id'') (\<lambda>chain_id.
       Ok (Status database_url chain_id (cl_option cl ''contract'') (cl_option cl ''job-type''))))"

text \<open>\<open>Cli::parse\<close>, given the words that name the command.\<close>

definition parse_cli :: "string list \<Rightarrow> command_line \<Rightarrow> usage_error + commands" where
  "parse_cli names cl =
     (if names = [''scan-contract''] then scan_contract_from cl
      else if names = [''enqueue-contract''] then enqueue_contract_from cl
      else if names = [''backfill-contract''] then backfill_contract_from cl
      else if names = [''enqueue-replay''] then enqueue_replay_from cl
      else if names = [''backfill-event-metadata''] then backfill_event_metadata_from cl
      else if names = [''backfill-transaction-receipts''] then backfill_transaction_receipts_from cl
      else if names = [''verify-reorg''] then verify_reorg_from cl
      else if names = [''doctor''] then doctor_from cl
      else if names = [''serve''] then serve_from cl
      else if names = [''worker'', ''run-once''] then and_then (run_once_from cl) (\<lambda>c. Ok (Worker c))
      else if names = [''worker'', ''run''] then and_then (run_from cl) (\<lambda>c. Ok (Worker c))
      else if names = [''jobs'', ''status''] then and_then (status_from cl) (\<lambda>c. Ok (Jobs c))
      else Err (MissingArgument ''command''))"

section \<open>Serving\<close>

text \<open>The requests of a run of the API in the order they are answered, each with its header and the identifier drawn for it.\<close>

record request =
  rq_request_id :: "string option"
  rq_fresh :: string
  rq_route :: route

fun serve_requests :: "web \<Rightarrow> request list \<Rightarrow> response list db_prog" where
  "serve_requests w [] d = (Ok [], d)"
| "serve_requests w (r # rs) d =
     (case request_id_middleware w (rq_request_id r) (rq_fresh r) (rq_route r) d of
        (response, t) \<Rightarrow> (case serve_requests w rs t of
           (Ok responses, u) \<Rightarrow> (Ok (response # responses), u)
         | (Err e, u) \<Rightarrow> (Err e, u)))"

definition serve_api :: "console \<Rightarrow> web \<Rightarrow> request list \<Rightarrow> string \<Rightarrow> string \<Rightarrow> response list worker_prog" where
  "serve_api co w requests database_url bind =
     seq (build_pool co database_url) (\<lambda>_.
     seq (lift (ensure (co_bind co bind) (ConfigError (''bind API listener on '' @ bind)))) (\<lambda>_.
       on_db (serve_requests w requests)))"

section \<open>Dispatch\<close>

datatype command_output =
    Scanned scan_summary
  | JobEnqueued enqueued
  | Planned backfill_plan
  | ReplayEnqueued enqueued nat
  | MetadataRepaired metadata_report
  | ReceiptsFetched nat nat
  | ReorgsVerified reorg_verification
  | Diagnosed "doctor_check list"
  | Answers "response list"
  | RanOnce worker_outcome
  | RanJobs nat
  | JobStatuses "(string \<times> int) list" int

text \<open>What a run of the program is given besides its command.\<close>

record machine =
  mc_console :: console
  mc_probes :: probes
  mc_web :: web
  mc_requests :: "request list"
  mc_signals :: signals
  mc_answered :: "rpc option"

definition returning :: "('a \<Rightarrow> command_output) \<Rightarrow> 'a worker_prog \<Rightarrow> command_output worker_prog" where
  "returning f m = seq m (\<lambda>a. ret (f a))"

text \<open>The commands with a URL resolve it first.\<close>

definition with_rpc_url :: "console \<Rightarrow> string option \<Rightarrow> int option \<Rightarrow> (string \<Rightarrow> 'a worker_prog) \<Rightarrow> 'a worker_prog" where
  "with_rpc_url co rpc_url chain_id f = seq (lift (rpc_url_from_args (co_env co) rpc_url chain_id)) f"

definition with_options :: "string \<Rightarrow> contract_options \<Rightarrow> contract_args" where
  "with_options rpc_url options = contract_options.extend options (contract_args.fields rpc_url)"

fun run_worker_command :: "machine \<Rightarrow> worker_commands \<Rightarrow> worker_state \<Rightarrow> (command_output result \<times> worker_state) option" where
  "run_worker_command mc (RunOnce rpc_url database_url worker_id chain_id lease_seconds chunk_size include_receipts) s =
     Some (with_rpc_url (mc_console mc) rpc_url chain_id (\<lambda>rpc_url.
       returning RanOnce (worker_run_once (mc_console mc) rpc_url database_url worker_id chain_id lease_seconds chunk_size
         include_receipts (mc_answered mc))) s)"
| "run_worker_command mc (Run rpc_url database_url worker_id chain_id lease_seconds chunk_size max_jobs stop_when_idle
       idle_sleep_ms include_receipts metrics_bind) s =
     (case rpc_url_from_args (co_env (mc_console mc)) rpc_url chain_id of
        Err e \<Rightarrow> Some (Err e, s)
      | Ok rpc_url \<Rightarrow>
          map_option (map_prod (map_sum id RanJobs) id)
            (worker_run (mc_console mc) (mc_signals mc) rpc_url database_url worker_id chain_id lease_seconds chunk_size
              max_jobs stop_when_idle include_receipts metrics_bind s))"

fun run_job_command :: "machine \<Rightarrow> job_commands \<Rightarrow> command_output worker_prog" where
  "run_job_command mc (Status database_url chain_id contract job_type) =
     returning (\<lambda>(counts, total). JobStatuses counts total)
       (jobs_status (mc_console mc) database_url chain_id contract job_type)"

text \<open>The command of \<open>main\<close>; \<open>None\<close> is a worker that does not end.\<close>

fun run_command :: "machine \<Rightarrow> commands \<Rightarrow> worker_state \<Rightarrow> (command_output result \<times> worker_state) option" where
  "run_command mc (ScanContract rpc_url options chunk_size include_receipts) s =
     Some (with_rpc_url (mc_console mc) rpc_url (Some (ca_chain_id options)) (\<lambda>rpc_url.
       returning Scanned (scan_contract (mc_console mc) (with_options rpc_url options) chunk_size include_receipts)) s)"
| "run_command mc (EnqueueContract rpc_url options max_attempts) s =
     Some (with_rpc_url (mc_console mc) rpc_url (Some (ca_chain_id options)) (\<lambda>rpc_url.
       returning JobEnqueued (enqueue_contract (mc_console mc) (with_options rpc_url options) max_attempts)) s)"
| "run_command mc (BackfillContract rpc_url options range_size max_attempts) s =
     Some (with_rpc_url (mc_console mc) rpc_url (Some (ca_chain_id options)) (\<lambda>rpc_url.
       returning Planned (backfill_contract (mc_console mc) (with_options rpc_url options) range_size max_attempts)) s)"
| "run_command mc (EnqueueReplay database_url chain_id contract from_block to_block max_attempts) s =
     Some (returning (\<lambda>(result, linked). ReplayEnqueued result linked)
       (enqueue_replay (mc_console mc) database_url chain_id contract from_block to_block max_attempts) s)"
| "run_command mc (BackfillEventMetadata rpc_url database_url chain_id contract limit_blocks) s =
     Some (with_rpc_url (mc_console mc) rpc_url (Some chain_id) (\<lambda>rpc_url.
       returning MetadataRepaired
         (backfill_event_metadata (mc_console mc) rpc_url database_url chain_id contract limit_blocks)) s)"
| "run_command mc (BackfillTransactionReceipts rpc_url database_url chain_id contract limit persist_batch_size) s =
     Some (with_rpc_url (mc_console mc) rpc_url (Some chain_id) (\<lambda>rpc_url.
       returning (\<lambda>(fetched, persisted). ReceiptsFetched fetched persisted)
         (backfill_transaction_receipts (mc_console mc) rpc_url database_url chain_id contract limit persist_batch_size)) s)"
| "run_command mc (VerifyReorgBlocks rpc_url database_url chain_id contract from_block to_block) s =
     Some (with_rpc_url (mc_console mc) rpc_url (Some chain_id) (\<lambda>rpc_url.
       returning ReorgsVerified (verify_reorg (mc_console mc) rpc_url database_url chain_id contract from_block to_block)) s)"
| "run_command mc (DoctorReport rpc_url database_url chain_id contract) s =
     Some (with_rpc_url (mc_console mc) rpc_url (Some chain_id) (\<lambda>rpc_url.
       returning Diagnosed (doctor (mc_console mc) (mc_probes mc) rpc_url chain_id contract)) s)"
| "run_command mc (Serve database_url bind) s =
     Some (returning Answers (serve_api (mc_console mc) (mc_web mc) (mc_requests mc) database_url bind) s)"
| "run_command mc (Worker command) s = run_worker_command mc command s"
| "run_command mc (Jobs command) s = Some (run_job_command mc command s)"

section \<open>Printing\<close>

definition print_scan_summary :: "scan_summary \<Rightarrow> string list" where
  "print_scan_summary summary =
     [''RPC logs decoded: '' @ show_nat (ss_events_seen summary),
      ''Events persisted: '' @ show_nat (ss_events_persisted summary),
      ''Ledger entries persisted: '' @ show_nat (ss_ledger_entries_persisted summary),
      ''Transaction receipts persisted: '' @ show_nat (ss_transaction_receipts_persisted summary),
      ''Current holders in indexed slice: '' @ show_int (ss_holder_count summary),
      ''Minters in indexed slice: '' @ show_int (ss_minter_count summary)]"

definition print_top_holders :: "scan_summary \<Rightarrow> string list" where
  "print_top_holders summary =
     (if ss_top_holders summary = [] then [''No holders found in this block range.'']
      else ''Top holders in indexed slice:''
        # map (\<lambda>holder. ''- '' @ tbs_holder_address holder @ '' token_id='' @ tbs_token_id holder
            @ '' balance='' @ tbs_balance holder) (ss_top_holders summary))"

definition print_backfill_plan :: "string \<Rightarrow> string \<Rightarrow> int \<Rightarrow> backfill_plan \<Rightarrow> string list" where
  "print_backfill_plan contract chain_name chain_id plan =
     [''Backfill plan for '' @ contract @ '' on '' @ chain_name @ '' ('' @ show_int chain_id @ '') requested blocks ''
        @ show_u64 (bp_requested_from plan) @ ''..='' @ show_u64 (bp_requested_to plan) @ ''.'',
      (case (bp_planned_from plan, bp_planned_to plan) of
         (Some from_block, Some to_block) \<Rightarrow>
           ''Jobs cover blocks '' @ show_u64 from_block @ ''..='' @ show_u64 to_block @ '' in '' @ show_nat (total_jobs plan)
             @ '' ranges of up to '' @ show_u64 (bp_range_size plan) @ '' blocks.''
       | _ \<Rightarrow> ''No new jobs needed; the checkpoint already covers the requested range.''),
      ''Inserted jobs: '' @ show_nat (bp_inserted_jobs plan),
      ''Existing jobs: '' @ show_nat (bp_existing_jobs plan)]"

definition print_worker_outcome :: "crates \<Rightarrow> worker_outcome \<Rightarrow> string list" where
  "print_worker_outcome c ended =
     (case ended of
        NoJob \<Rightarrow> [''No queued jobs available.'']
      | Processed job_id summary \<Rightarrow> (''Processed range job '' @ uuid_display c job_id @ ''.'') # print_scan_summary summary
      | FailedJob job_id status error \<Rightarrow>
          [''Ingest job '' @ uuid_display c job_id @ '' failed with status '' @ status @ '': '' @ error]
      | Interrupted job_id status \<Rightarrow>
          [''Worker interrupted. Job '' @ uuid_display c job_id @ '' released with status '' @ status @ ''.''])"

end
