(* ===== verification/Program_Spec.thy ===== *)
theory Program_Spec
  imports Commands Cli_Spec Api_Spec
begin

text \<open>
  What every command of the program promises: the invariants of the queue and of the ledger, and that a
  refused command does nothing.
\<close>

section \<open>Database programs that keep the invariants\<close>

definition firm :: "'a db_prog \<Rightarrow> bool" where
  "firm m \<longleftrightarrow> (\<forall>d r t. queue_inv d \<longrightarrow> ledger_inv d \<longrightarrow> m d = (r, t) \<longrightarrow> queue_inv t \<and> ledger_inv t)"

lemma firmI:
  "(\<And>d r t. queue_inv d \<Longrightarrow> ledger_inv d \<Longrightarrow> m d = (r, t) \<Longrightarrow> queue_inv t \<and> ledger_inv t) \<Longrightarrow> firm m"
  unfolding firm_def by blast

lemma firmD: "firm m \<Longrightarrow> queue_inv d \<Longrightarrow> ledger_inv d \<Longrightarrow> m d = (r, t) \<Longrightarrow> queue_inv t \<and> ledger_inv t"
  unfolding firm_def by blast

lemma sound_on_db: "firm m \<Longrightarrow> sound (on_db m)"
  by (auto simp: sound_def worker_inv_def on_db_def split: prod.splits dest: firmD)

lemma firm_basic: "firm (ret a)" "firm (throw e)" "firm (lift r)" "firm (reads g)"
  by (auto simp: firm_def)

lemma firm_seq:
  assumes "firm m" and "\<And>a. firm (f a)"
  shows "firm (seq m f)"
proof (rule firmI)
  fix d r t assume inv: "queue_inv d" "ledger_inv d" and run: "seq m f d = (r, t)"
  obtain x u where m: "m d = (x, u)" by (cases "m d")
  with firmD [OF assms(1) inv] have u: "queue_inv u" "ledger_inv u" by auto
  with run m firmD [OF assms(2) u] show "queue_inv t \<and> ledger_inv t" by (cases x) (auto simp: seq_def)
qed

lemma firm_quiet: "qv.quiet m \<Longrightarrow> lv.quiet m \<Longrightarrow> firm m"
  by (rule firmI) (auto simp: qv.quiet_def lv.quiet_def intro: queue_inv_view ledger_inv_view)

lemma firm_ledger: "qv.quiet m \<Longrightarrow> (\<And>d r t. ledger_inv d \<Longrightarrow> m d = (r, t) \<Longrightarrow> ledger_inv t) \<Longrightarrow> firm m"
  by (rule firmI) (auto simp: qv.quiet_def intro: queue_inv_view)

lemma firm_queue: "lv.quiet m \<Longrightarrow> (\<And>d r t. m d = (r, t) \<Longrightarrow> queue_step d t) \<Longrightarrow> firm m"
  by (rule firmI) (metis lv.quiet_def ledger_inv_view queue_step_keeps)

section \<open>The repositories\<close>

lemma lv_enqueue: "lv.quiet (enqueue j)"
proof -
  have "lv.quiet (existing_enqueue_conflict row)" "lv.quiet (insert_job row)" for row
    by (auto simp: lv.quiet_def existing_enqueue_conflict_def insert_job_def ledger_view_def
        split: option.splits if_splits)
  then show ?thesis unfolding enqueue_def Let_def by (intro lv.quiet_intros) auto
qed

lemma firm_enqueue: "firm (enqueue j)"
  by (rule firm_queue [OF lv_enqueue]) (rule step_enqueue)

lemma firm_new_uuid: "firm new_uuid" and firm_connection: "firm connection"
  by (rule firm_quiet; rule qv.quiet_intros lv.quiet_intros)+

lemma firm_new_job: "firm (new_job_new jt chain key)"
  unfolding new_job_new_def by (intro firm_seq firm_new_uuid firm_basic)

lemma firm_checkpoints: "firm (checkpoint_row_for_source sid)" "firm (checkpoint_for_source sid)"
  unfolding checkpoint_for_source_def checkpoint_row_for_source_def by (intro firm_seq firm_connection firm_basic)+

lemma firm_plan: "firm (plan_backfill_jobs postgres_backfill_repository c source lo hi n k)"
proof -
  have one: "firm (enqueue_range_job job)" for job
    unfolding enqueue_range_job_def by (intro firm_seq firm_new_job firm_enqueue firm_basic)
  have "firm (enqueue_ranges postgres_backfill_repository c source k rs counts)" for rs counts
  proof (induction rs arbitrary: counts)
    case Nil
    show ?case by (simp add: firm_basic)
  next
    case (Cons r rs)
    obtain a b where "counts = (a, b)" by (cases counts)
    with Cons one show ?case
      by (auto simp: postgres_backfill_repository_def intro!: firm_seq firm_basic split: enqueue_result.split)
  qed
  then show ?thesis
    unfolding plan_backfill_jobs_def Let_def postgres_backfill_repository_def
    by (auto intro!: firm_seq firm_basic firm_checkpoints simp: postgres_backfill_repository_def)
qed

lemma firm_chain: "firm (ensure_chain name chain url confirmations)"
proof -
  have "qv.quiet (ensure_chain name chain url confirmations)" "lv.quiet (ensure_chain name chain url confirmations)"
    unfolding ensure_chain_def next_chain_id_def Let_def
    by (intro qv.quiet_intros lv.quiet_intros;
        auto simp: qv.quiet_def lv.quiet_def queue_view_def ledger_view_def tick_def split: option.splits if_splits)+
  then show ?thesis by (rule firm_quiet)
qed

lemma firm_source: "firm (ensure_source chain name contract standard start)"
proof (rule firm_ledger)
  show "qv.quiet (ensure_source chain name contract standard start)"
    unfolding ensure_source_def Let_def
    by (intro qv.quiet_intros; auto simp: qv.quiet_def queue_view_def split: option.splits if_splits)
qed (rule ensure_source_keeps)

lemma firm_metadata: "firm (update_log_metadata source log)"
proof (rule firm_ledger)
  show "qv.quiet (update_log_metadata source log)"
    unfolding update_log_metadata_def Let_def update_checked_events_def update_checked_entries_def
    by (intro qv.quiet_intros; auto simp: qv.quiet_def queue_view_def split: option.splits if_splits)
qed (rule metadata_keeps)

lemma firm_receipts: "firm (persist_transaction_receipts c chain receipts)"
proof (rule firm_quiet [OF quiet_queue [OF bv_receipts]])
  have "lv.quiet (upsert_transaction_receipt c chain r)" for r
    unfolding upsert_transaction_receipt_def
    by (intro lv.quiet_intros) (auto simp: lv.quiet_def ledger_view_def split: if_splits option.splits)
  then show "lv.quiet (persist_transaction_receipts c chain receipts)"
    unfolding persist_transaction_receipts_def by (intro lv.quiet_intros)
qed

lemma firm_link: "firm (link_reorg_events_to_replay_job sid lo hi job)"
  unfolding link_reorg_events_to_replay_job_def Let_def
  by (rule firm_quiet; intro qv.quiet_intros lv.quiet_intros;
      auto simp: qv.quiet_def lv.quiet_def queue_view_def ledger_view_def split: if_splits)

lemma firm_reads:
  "firm (source_by_contract chain contract)" "firm (chain_by_chain_id chain)" "firm (status_counts a b jt)"
  "firm (event_blocks_missing_metadata sid limit)" "firm (transaction_hashes_missing_receipts sid limit)"
  "firm (indexed_block_hashes sid lo hi)"
  unfolding source_by_contract_def source_by_contract_conn_def chain_by_chain_id_def status_counts_def
    event_blocks_missing_metadata_def transaction_hashes_missing_receipts_def indexed_block_hashes_def
  by (intro firm_seq firm_connection firm_basic)+

lemma firm_record: "firm (record_reorg_event e)"
  unfolding record_reorg_event_def Let_def
  by (rule firm_quiet; intro qv.quiet_intros lv.quiet_intros;
      auto simp: qv.quiet_def lv.quiet_def queue_view_def ledger_view_def split: if_splits option.splits)

lemma firm_verify: "firm (verify_source_reorgs rpc postgres_reorg_repository source lo hi)"
proof -
  have one: "firm (record_reorg_range postgres_reorg_repository source ms)" for ms
    unfolding record_reorg_range_def postgres_reorg_repository_def
    by (auto intro!: firm_seq firm_record firm_basic)
  have "firm (record_ranges_loop postgres_reorg_repository source ms k previous i rest)" for ms k previous i rest
    by (induction rest arbitrary: k previous i) (auto intro!: firm_seq one)
  then have "firm (record_reorg_ranges postgres_reorg_repository source ms)" for ms
    by (cases ms) (simp_all add: record_reorg_ranges_def firm_basic)
  then show ?thesis
    unfolding verify_source_reorgs_def Let_def
    by (auto intro!: firm_seq firm_basic firm_reads firm_checkpoints simp: postgres_reorg_repository_def)
qed

lemma firm_ingest: "firm (ingest_source_range c rpc (postgres_ingest_repository c) source lo hi n options)"
  by (rule firm_ledger [OF qv_ingest]) (use pg.ingest_outcome in blast)

lemma request_reads: "request_id_middleware w given fresh route d = (r, t) \<Longrightarrow> t = d"
proof -
  let ?i = "request_id_of w given fresh"
  obtain x u where run: "serve w (Some ?i) route d = (x, u)" by (cases "serve w (Some ?i) route d")
  with serve_status [OF run] show "request_id_middleware w given fresh route d = (r, t) \<Longrightarrow> t = d"
    by (simp add: request_id_middleware_def Let_def)
qed

lemma requests_read: "serve_requests w requests d = (r, t) \<Longrightarrow> t = d"
proof (induction requests arbitrary: r)
  case (Cons q qs)
  then show ?case by (auto dest: request_reads split: prod.splits sum.splits)
qed simp

lemma firm_serve: "firm (serve_requests w requests)"
  by (rule firmI) (auto dest: requests_read)

section \<open>The commands\<close>

lemma sound_result: "(\<And>e. sound (g e)) \<Longrightarrow> (\<And>a. sound (f a)) \<Longrightarrow> sound (case x of Inl e \<Rightarrow> g e | Inr a \<Rightarrow> f a)"
  by (simp split: sum.split)

lemma sound_pair: "(\<And>a b. sound (f a b)) \<Longrightarrow> sound (case x of (a, b) \<Rightarrow> f a b)"
  by (simp split: prod.split)

lemma sound_guard: "sound (bail_if b m)" "sound (build_pool co url)"
  by (simp_all add: bail_if_def build_pool_def sound_basic)

lemmas firm_operations = firm_enqueue firm_new_job firm_checkpoints firm_plan firm_chain firm_source firm_metadata
  firm_receipts firm_link firm_reads firm_record firm_verify firm_ingest firm_serve firm_seq firm_basic

lemmas sound_intros = sound_seq sound_basic sound_cases sound_result sound_pair sound_guard sound_outcome_of
  sound_on_db firm_operations

lemma sound_existing: "sound (existing_source chain contract)"
  unfolding existing_source_def by (intro sound_intros)

lemma sound_resolve: "sound guards \<Longrightarrow> sound (resolve_contract co a guards)"
  unfolding resolve_contract_def record_resolved_range_metrics_def Let_def by (intro sound_intros)

lemma sound_register:
  "sound (register_source co a contract standard r)"
  "sound (record_source_progress_metric c sid chain start finalized)"
  unfolding register_source_def record_source_progress_metric_def Let_def by (intro sound_intros)+

lemma sound_scan: "sound (scan_contract co a n receipts)"
  unfolding scan_contract_def Let_def by (intro sound_intros sound_resolve sound_register)

lemma sound_enqueue_contract: "sound (enqueue_contract co a k)"
  unfolding enqueue_contract_def Let_def by (intro sound_intros sound_resolve sound_register)

lemma sound_backfill: "sound (backfill_contract co a n k)"
  unfolding backfill_contract_def Let_def by (intro sound_intros sound_resolve sound_register)

lemma sound_replay: "sound (enqueue_replay co url chain contract lo hi k)"
  unfolding enqueue_replay_def Let_def by (intro sound_intros sound_existing)

lemma sound_metadata: "sound (backfill_event_metadata co rpc_url url chain contract limit)"
proof -
  have logs: "sound (repair_logs source timestamp ls report)" for source timestamp ls report
    by (induction ls arbitrary: report) (auto intro!: sound_intros)
  have "sound (repair_blocks rpc source standard blocks report)" for rpc source standard blocks report
    by (induction blocks arbitrary: report) (auto intro!: sound_intros logs)
  then show ?thesis
    unfolding backfill_event_metadata_def by (intro sound_intros sound_existing)
qed

lemma sound_receipts: "sound (backfill_transaction_receipts co rpc_url url chain contract limit batch_size)"
proof -
  have "sound (receipt_batches c rpc chain batch_size hashes batch fetched persisted)" for c rpc chain batch_size hashes batch fetched persisted
    by (induction hashes arbitrary: batch fetched persisted) (auto intro!: sound_intros)
  then show ?thesis
    unfolding backfill_transaction_receipts_def by (intro sound_intros sound_existing)
qed

lemma sound_verify: "sound (verify_reorg co rpc_url url chain contract lo hi)"
  unfolding verify_reorg_def by (intro sound_intros sound_existing)

lemma sound_doctor: "sound (doctor co pb rpc_url chain contract)"
  unfolding doctor_def doctor_checks_def repository_checks_def doctor_source_checks_def Let_def
  by (intro sound_intros)

lemma sound_jobs: "sound (jobs_status co url chain contract job_type)"
  unfolding jobs_status_def by (intro sound_intros sound_existing)

lemma sound_serve_api: "sound (serve_api co w requests url bind)"
  unfolding serve_api_def by (intro sound_intros)

lemma sound_build: "sound (build_worker co url wid chain secs n receipts)"
  unfolding build_worker_def Let_def by (intro sound_intros)

lemma sound_round: "sound (run_once_until_shutdown su w answered)"
  using run_once_keeps_invariants by (metis sound_def snd_conv)

lemma sound_worker_once: "sound (worker_run_once co rpc_url url wid chain secs n receipts answered)"
  unfolding worker_run_once_def
  by (intro sound_intros sound_build sound_round; simp add: sound_basic split: worker_outcome.split)

lemma worker_loop_sound:
  assumes "worker_loop sg w max_jobs stop k n s = Some y"
  shows "worker_inv s \<longrightarrow> worker_inv (snd y)"
proof (rule worker_loop.raw_induct [where P = "\<lambda>_ _ _ _ _ _ s y. worker_inv s \<longrightarrow> worker_inv (snd y)", OF _ assms], rule impI)
  fix loop :: "signals \<Rightarrow> ingest_worker \<Rightarrow> nat option \<Rightarrow> bool \<Rightarrow> nat \<Rightarrow> nat \<Rightarrow> worker_state \<Rightarrow> (nat result \<times> worker_state) option"
  fix sg w max_jobs stop k n s y
  assume IH: "\<And>sg w max_jobs stop k n s y. loop sg w max_jobs stop k n s = Some y \<Longrightarrow> worker_inv s \<longrightarrow> worker_inv (snd y)"
    and inv: "worker_inv s"
    and body: "(if case max_jobs of None \<Rightarrow> False | Some m \<Rightarrow> m \<le> n then Some (Ok n, s)
      else case run_once_until_shutdown (sg_su sg k) w (sg_answered sg k) s of
          (Err e, t) \<Rightarrow> Some (Err e, t)
        | (Ok NoJob, t) \<Rightarrow> if stop \<or> sg_idle_stop sg k then Some (Ok n, t) else loop sg w max_jobs stop (k + 1) n t
        | (Ok (Processed _ _), t) \<Rightarrow> loop sg w max_jobs stop (k + 1) (n + 1) t
        | (Ok (FailedJob _ _ _), t) \<Rightarrow> loop sg w max_jobs stop (k + 1) (n + 1) t
        | (Ok (Interrupted _ _), t) \<Rightarrow> Some (Ok n, t)) = Some y"
  obtain x t where run: "run_once_until_shutdown (sg_su sg k) w (sg_answered sg k) s = (x, t)"
    by (cases "run_once_until_shutdown (sg_su sg k) w (sg_answered sg k) s")
  with inv soundD [OF sound_round] have t: "worker_inv t" by blast
  have "y = (Ok n, s) \<or> snd y = t \<or> (\<exists>i m. loop sg w max_jobs stop i m t = Some y)"
  proof (cases x)
    case (Inl e)
    with body run show ?thesis by (simp split: if_splits) auto
  next
    case (Inr ended)
    with body run show ?thesis by (cases ended) (auto split: if_splits)
  qed
  then show "worker_inv (snd y)"
    using IH inv t by (elim disjE exE) (simp, simp, blast)
qed

lemma worker_run_sound:
  assumes "worker_run co sg rpc_url url wid chain secs n max_jobs stop receipts metrics_bind s = Some (x, t)" and "worker_inv s"
  shows "worker_inv t"
  using assms worker_loop_sound [of "with_node rpc_url sg" _ max_jobs stop 0 0 s "(x, t)"]
  by (auto simp: worker_run_def split: if_splits prod.splits sum.splits dest!: start_result)

lemma sound_returning: "sound m \<Longrightarrow> sound (returning f m)"
  unfolding returning_def by (intro sound_intros)

lemma sound_with_url: "(\<And>u. sound (f u)) \<Longrightarrow> sound (with_rpc_url co url chain f)"
  unfolding with_rpc_url_def by (intro sound_intros)

lemma run_command_sound:
  assumes "run_command mc c s = Some (x, t)" and "worker_inv s"
  shows "worker_inv t"
proof (cases c)
  case (Worker command)
  show ?thesis
  proof (cases command)
    case (RunOnce url db wid chain secs n receipts)
    with assms Worker soundD [OF sound_with_url [OF sound_returning [OF sound_worker_once]] assms(2)] show ?thesis
      by fastforce
  next
    case (Run url db wid chain secs n max_jobs stop sleep receipts bind)
    with assms Worker show ?thesis
      by (auto split: sum.splits prod.splits dest: worker_run_sound)
  qed
next
  case (Jobs command)
  with assms soundD [OF sound_returning [OF sound_jobs] assms(2)] show ?thesis
    by (cases command) fastforce
qed (use assms in \<open>(auto dest!: soundD [OF _ assms(2), rotated] intro!: sound_with_url sound_returning sound_scan
      sound_enqueue_contract sound_backfill sound_replay sound_metadata sound_receipts sound_verify sound_doctor
      sound_serve_api)\<close>)

section \<open>Every sequence of commands\<close>

text \<open>
  A run of a command takes the database to another one; the metrics and the flag of the worker are those of
  its own process. A worker that never ends is a sequence of its rounds.
\<close>

inductive program_step :: "db \<Rightarrow> db \<Rightarrow> bool" where
  ps_command: "run_command mc c s = Some (x, t) \<Longrightarrow> program_step (ws_db s) (ws_db t)"
| ps_round: "run_once_until_shutdown su w answered s = (y, t) \<Longrightarrow> program_step (ws_db s) (ws_db t)"

inductive program_reachable :: "db \<Rightarrow> bool" where
  pr_start: "db_events d = [] \<Longrightarrow> db_entries d = [] \<Longrightarrow> db_balances d = [] \<Longrightarrow> db_jobs d = [] \<Longrightarrow> db_attempts d = []
    \<Longrightarrow> mono (clock (db_env d)) \<Longrightarrow> program_reachable d"
| pr_step: "program_reachable d \<Longrightarrow> program_step d t \<Longrightarrow> program_reachable t"

lemma program_reachable_inv: "program_reachable d \<Longrightarrow> queue_inv d \<and> ledger_inv d"
proof (induction rule: program_reachable.induct)
  case (pr_start d)
  then show ?case by (auto intro: queue_reachable_inv reach_start ledger_reachable_inv lr_start)
next
  case (pr_step d t)
  from pr_step(2) show ?case
  proof cases
    case (ps_command mc c s x u)
    with pr_step.IH run_command_sound [OF ps_command(3)] show ?thesis by (simp add: worker_inv_def)
  next
    case (ps_round su w answered s y u)
    with pr_step.IH soundD [OF sound_round _ ps_round(3)] show ?thesis by (simp add: worker_inv_def)
  qed
qed


section \<open>Refused commands\<close>

text \<open>The arguments a command refuses before it does anything, given the environment.\<close>

definition bad_url :: "(string \<Rightarrow> string option) \<Rightarrow> string option \<Rightarrow> int option \<Rightarrow> bool" where
  "bad_url env rpc_url chain_id \<longleftrightarrow> \<not> is_ok (rpc_url_from_args env rpc_url chain_id)"

definition bad_source :: "int \<Rightarrow> string \<Rightarrow> bool" where
  "bad_source chain_id contract \<longleftrightarrow> chain_id \<le> 0 \<or> \<not> is_ok (normalize_address contract)"

definition bad_options :: "(string \<Rightarrow> string option) \<Rightarrow> string option \<Rightarrow> contract_options \<Rightarrow> bool" where
  "bad_options env rpc_url options \<longleftrightarrow>
     bad_url env rpc_url (Some (ca_chain_id options)) \<or> bad_source (ca_chain_id options) (ca_contract options)
     \<or> \<not> is_ok (standard_from_str (ca_standard options))"

fun refused :: "(string \<Rightarrow> string option) \<Rightarrow> commands \<Rightarrow> bool" where
  "refused env (ScanContract rpc_url options chunk_size receipts) \<longleftrightarrow> bad_options env rpc_url options"
| "refused env (EnqueueContract rpc_url options max_attempts) \<longleftrightarrow> bad_options env rpc_url options \<or> max_attempts \<le> 0"
| "refused env (BackfillContract rpc_url options range_size max_attempts) \<longleftrightarrow>
     bad_options env rpc_url options \<or> range_size = 0 \<or> max_attempts \<le> 0"
| "refused env (EnqueueReplay database_url chain_id contract from_block to_block max_attempts) \<longleftrightarrow>
     bad_source chain_id contract \<or> from_block > to_block \<or> max_attempts \<le> 0 \<or> uint to_block \<ge> 2 ^ 63"
| "refused env (BackfillEventMetadata rpc_url database_url chain_id contract limit_blocks) \<longleftrightarrow>
     bad_url env rpc_url (Some chain_id) \<or> bad_source chain_id contract \<or> limit_blocks \<le> 0"
| "refused env (BackfillTransactionReceipts rpc_url database_url chain_id contract limit persist_batch_size) \<longleftrightarrow>
     bad_url env rpc_url (Some chain_id) \<or> bad_source chain_id contract \<or> limit \<le> 0 \<or> persist_batch_size = 0"
| "refused env (VerifyReorgBlocks rpc_url database_url chain_id contract from_block to_block) \<longleftrightarrow>
     bad_url env rpc_url (Some chain_id) \<or> bad_source chain_id contract \<or> from_block > to_block"
| "refused env (DoctorReport rpc_url database_url chain_id contract) \<longleftrightarrow>
     bad_url env rpc_url (Some chain_id) \<or> chain_id \<le> 0"
| "refused env (Serve database_url bind) \<longleftrightarrow> False"
| "refused env (Worker (RunOnce rpc_url database_url worker_id chain_id lease_seconds chunk_size receipts)) \<longleftrightarrow>
     bad_url env rpc_url chain_id \<or> lease_seconds \<le> 0 \<or> chunk_size = 0 \<or> (case chain_id of Some chain \<Rightarrow> chain \<le> 0 | None \<Rightarrow> False)"
| "refused env (Worker (Run rpc_url database_url worker_id chain_id lease_seconds chunk_size max_jobs stop sleep receipts bind)) \<longleftrightarrow>
     bad_url env rpc_url chain_id \<or> lease_seconds \<le> 0 \<or> chunk_size = 0 \<or> (case chain_id of Some chain \<Rightarrow> chain \<le> 0 | None \<Rightarrow> False)
     \<or> max_jobs = Some 0"
| "refused env (Jobs (Status database_url chain_id contract job_type)) \<longleftrightarrow>
     (case contract of Some value \<Rightarrow> \<not> is_ok (normalize_address value) \<or> chain_id = None | None \<Rightarrow> False)"

text \<open>A step that fails where it is, so that what follows it does not run.\<close>

definition blocked :: "'a worker_prog \<Rightarrow> worker_state \<Rightarrow> bool" where
  "blocked m s \<longleftrightarrow> (\<exists>e. m s = (Err e, s))"

lemma blocked_seq: "blocked m s \<Longrightarrow> blocked (seq m f) s"
  by (auto simp: blocked_def seq_def)

lemma blocked_lift [simp]: "blocked (lift r) s \<longleftrightarrow> \<not> is_ok r"
  by (cases r) (auto simp: blocked_def)

lemma blocked_throw [simp]: "blocked (throw e) s"
  by (simp add: blocked_def)

lemma blocked_lift_seq [simp]: "blocked (seq (lift r) f) s \<longleftrightarrow> (case r of Err e \<Rightarrow> True | Ok a \<Rightarrow> blocked (f a) s)"
  by (cases r) (auto simp: blocked_def seq_def lift_def)

lemma blocked_bail_seq [simp]: "blocked (seq (bail_if b m) f) s \<longleftrightarrow> b \<or> blocked (f ()) s"
  by (auto simp: bail_if_def ensure_def)

lemma blocked_pool_seq [simp]: "blocked (seq (build_pool co url) f) s \<longleftrightarrow> \<not> co_pool co url \<or> blocked (f ()) s"
  by (auto simp: build_pool_def ensure_def)

lemma blocked_bail [simp]: "blocked (bail_if b m) s \<longleftrightarrow> b"
  by (simp add: bail_if_def ensure_def)

lemma blocked_returning: "blocked m s \<Longrightarrow> blocked (returning f m) s"
  unfolding returning_def by (rule blocked_seq)

lemma blocked_with_url:
  "bad_url (co_env co) rpc_url chain_id \<or> (\<forall>url. blocked (f url) s) \<Longrightarrow> blocked (with_rpc_url co rpc_url chain_id f) s"
  by (cases "rpc_url_from_args (co_env co) rpc_url chain_id") (auto simp: with_rpc_url_def bad_url_def)

lemma blocked_resolve:
  "bad_source (ca_chain_id a) (ca_contract a) \<or> \<not> is_ok (standard_from_str (ca_standard a)) \<or> blocked guards s
   \<Longrightarrow> blocked (resolve_contract co a guards) s"
  by (cases "standard_from_str (ca_standard a)"; cases "normalize_address (ca_contract a)")
     (auto simp: resolve_contract_def bad_source_def intro: blocked_seq)

lemma blocked_source_command:
  "bad_source chain_id contract \<or> (\<forall>address. blocked (f address) s) \<Longrightarrow>
   blocked (seq (lift (normalize_address contract)) (\<lambda>contract. seq (bail_if (chain_id \<le> 0) message) (\<lambda>_. f contract))) s"
  by (cases "normalize_address contract") (auto simp: bad_source_def)

lemma options_with [simp]:
  "ca_chain_id (with_options url options) = ca_chain_id options"
  "ca_contract (with_options url options) = ca_contract options"
  "ca_standard (with_options url options) = ca_standard options"
  by (simp_all add: with_options_def contract_options.defs contract_args.defs)

lemma blocked_build:
  "lease_seconds \<le> 0 \<or> chunk_size = 0 \<or> (case chain_id of Some chain \<Rightarrow> chain \<le> 0 | None \<Rightarrow> False)
   \<Longrightarrow> blocked (build_worker co database_url worker_id chain_id lease_seconds chunk_size receipts) s"
  by (auto simp: build_worker_def Let_def ensure_def split: option.splits)

lemma blocked_once:
  assumes "lease_seconds \<le> 0 \<or> chunk_size = 0 \<or> (case chain_id of Some chain \<Rightarrow> chain \<le> 0 | None \<Rightarrow> False)"
  shows "blocked (worker_run_once co rpc_url database_url worker_id chain_id lease_seconds chunk_size receipts answered) s"
  unfolding worker_run_once_def blocked_bail_seq by (rule disjI2) (rule blocked_seq [OF blocked_build [OF assms]])

lemma blocked_run:
  assumes "blocked (build_worker co database_url worker_id chain_id lease_seconds chunk_size receipts) s"
  shows "\<exists>e. worker_run co sg rpc_url database_url worker_id chain_id lease_seconds chunk_size max_jobs stop receipts bind s
    = Some (Err e, s)"
proof (cases "max_jobs = Some 0")
  case False
  from blocked_seq [OF assms] obtain e where
    "seq (build_worker co database_url worker_id chain_id lease_seconds chunk_size receipts) (\<lambda>worker.
       seq (case bind of Some bind \<Rightarrow> start_metrics_server co bind | None \<Rightarrow> ret ()) (\<lambda>_. ret worker)) s = (Err e, s)"
    unfolding blocked_def by blast
  with False show ?thesis by (simp only: worker_run_def) simp
qed (simp add: worker_run_def)

lemma blocked_jobs:
  assumes "\<not> is_ok (normalize_address value) \<or> chain_id = None"
  shows "blocked (jobs_status co database_url chain_id (Some value) job_type) s"
proof (cases "normalize_address value")
  case (Inr address)
  with assms have "chain_id = None" by simp
  with Inr show ?thesis by (auto simp: jobs_status_def transpose_def ok_or_def intro!: blocked_seq)
qed (simp add: jobs_status_def transpose_def)

lemma blocked_commands:
  "bad_source (ca_chain_id a) (ca_contract a) \<or> \<not> is_ok (standard_from_str (ca_standard a)) \<Longrightarrow>
     blocked (scan_contract co a n receipts) s"
  "bad_source (ca_chain_id a) (ca_contract a) \<or> \<not> is_ok (standard_from_str (ca_standard a)) \<or> k \<le> 0 \<Longrightarrow>
     blocked (enqueue_contract co a k) s"
  "bad_source (ca_chain_id a) (ca_contract a) \<or> \<not> is_ok (standard_from_str (ca_standard a)) \<or> n = 0 \<or> k \<le> 0 \<Longrightarrow>
     blocked (backfill_contract co a n k) s"
  "bad_source chain contract \<or> lo > hi \<or> k \<le> 0 \<or> uint hi \<ge> 2 ^ 63 \<Longrightarrow>
     blocked (enqueue_replay co url chain contract lo hi k) s"
  "bad_source chain contract \<or> limit \<le> 0 \<Longrightarrow> blocked (backfill_event_metadata co rpc_url url chain contract limit) s"
  "bad_source chain contract \<or> limit \<le> 0 \<or> batch = 0 \<Longrightarrow>
     blocked (backfill_transaction_receipts co rpc_url url chain contract limit batch) s"
  "bad_source chain contract \<or> lo > hi \<Longrightarrow> blocked (verify_reorg co rpc_url url chain contract lo hi) s"
  "chain \<le> 0 \<Longrightarrow> blocked (doctor co pb rpc_url chain contract) s"
  unfolding scan_contract_def enqueue_contract_def backfill_contract_def
  subgoal by (intro blocked_seq blocked_resolve) auto
  subgoal by (intro blocked_seq blocked_resolve) auto
  subgoal by (intro blocked_seq blocked_resolve) auto
  subgoal
    unfolding enqueue_replay_def
    by (rule blocked_source_command)
       (auto simp: i64_try_from_u64_def int_range_defs ok_or_def split: sum.split option.split)
  subgoal unfolding backfill_event_metadata_def by (rule blocked_source_command) auto
  subgoal unfolding backfill_transaction_receipts_def by (rule blocked_source_command) auto
  subgoal unfolding verify_reorg_def by (rule blocked_source_command) auto
  subgoal by (simp add: doctor_def)
  done

text \<open>C19: A command whose arguments are refused does nothing: no URL for its node, or one that contradicts its chain, a
  chain that is not positive, a contract that is not an address, an unknown token standard, an
  inverted range, a limit, number of attempts, lease or batch that is not positive, or a contract
  without a chain ends it with an error in the very state it began in.\<close>

theorem refused_commands_do_nothing:
  assumes "refused (co_env (mc_console mc)) c"
  shows "\<exists>e. run_command mc c s = Some (Err e, s)"
proof -
  have ended: "\<exists>e. Some (m s) = Some (Err e, s)" if "blocked m s" for m :: "command_output worker_prog"
    using that by (auto simp: blocked_def)
  note commands = blocked_with_url blocked_returning blocked_commands
  show ?thesis
  proof (cases c)
    case (Worker command)
    then show ?thesis
    proof (cases command)
      case (RunOnce url db wid chain secs n receipts)
      have "blocked (with_rpc_url (mc_console mc) url chain (\<lambda>url. returning RanOnce
          (worker_run_once (mc_console mc) url db wid chain secs n receipts (mc_answered mc)))) s"
        using assms Worker RunOnce by (intro commands) (auto intro!: blocked_returning blocked_once)
      with ended Worker RunOnce show ?thesis by simp
    next
      case (Run url db wid chain secs n max_jobs stop sleep receipts bind)
      have "\<exists>e. worker_run (mc_console mc) (mc_signals mc) u db wid chain secs n max_jobs stop receipts bind s = Some (Err e, s)"
        if "\<not> bad_url (co_env (mc_console mc)) url chain" for u
      proof (cases "max_jobs = Some 0")
        case False
        with that assms Worker Run show ?thesis by (auto intro!: blocked_run blocked_build)
      qed (simp add: worker_run_def)
      with Worker Run show ?thesis
        by (cases "rpc_url_from_args (co_env (mc_console mc)) url chain") (force simp: bad_url_def)+
    qed
  next
    case (Jobs command)
    with assms ended blocked_returning [OF blocked_jobs] show ?thesis
      by (cases command) (auto split: option.splits)
  qed (use assms in \<open>(auto simp: bad_options_def blocked_def [symmetric] intro!: commands)\<close>)
qed

section \<open>A sample run\<close>

text \<open>The node with one mint in block 16; a scan of blocks 10 to 20 by a program with an empty database.\<close>

definition sample_machine :: machine where
  "sample_machine = \<lparr>mc_console = sample_console, mc_probes = sample_probes, mc_web = sample_web, mc_requests = [],
     mc_signals = steady, mc_answered = None\<rparr>"

definition scanned :: "(command_output result \<times> worker_state) option" where
  "scanned = run_command sample_machine (ScanContract (Some ''url'') sample_options 4 False) fresh_state"

definition scanned_db :: db where
  "scanned_db = (case scanned of Some (_, t) \<Rightarrow> ws_db t | None \<Rightarrow> empty_db)"

lemma scanned_ok: "(case scanned of Some (Ok (Scanned x), _) \<Rightarrow> ss_events_persisted x = 1 | _ \<Rightarrow> False)"
  by code_simp

lemma scanned_balance: "stored (db_balances scanned_db) 1 (''0x'' @ sample_digits) [] = 7"
  by code_simp

lemma scanned_reachable: "program_reachable scanned_db"
proof -
  obtain x t where run: "scanned = Some (x, t)" using scanned_ok by (cases scanned) auto
  have "program_reachable (ws_db fresh_state)"
    by (rule pr_start) (simp_all add: fresh_state_def empty_db_def sample_env_def mono_def)
  from pr_step [OF this ps_command [OF run [unfolded scanned_def]]] show ?thesis by (simp add: scanned_db_def run)
qed


text \<open>C19 at a scan of mainnet with a URL of Polygon.\<close>

theorem refused_commands_do_nothing_witness:
  "\<exists>e. run_command sample_machine (ScanContract (Some ''https://polygon.node'') sample_options 4 False) fresh_state
     = Some (Err e, fresh_state)"
proof (rule refused_commands_do_nothing)
  show "refused (co_env (mc_console sample_machine)) (ScanContract (Some ''https://polygon.node'') sample_options 4 False)"
    by code_simp
qed

end
