(* ===== verification/Rows.thy ===== *)
theory Rows
  imports Ledger_Write Checkpoints
begin

text \<open>
  The tables as Diesel declares them (src/infra/postgres/schema.rs) and the structs that are read from and inserted
  into them (models.rs). The structs that are read are the rows of \<open>Store\<close>; here their fields are the columns of the
  declared tables, in order and with their types, and a row inserted from a struct is completed by the defaults of
  the migrations.
\<close>

section \<open>Columns\<close>

datatype sql_type = Int8 | Int4 | Text | Uuid | Bool | Jsonb | Numeric | Timestamptz

record column =
  co_name :: string
  co_type :: sql_type
  co_nullable :: bool

record table =
  tb_name :: string
  tb_primary_key :: string
  tb_columns :: "column list"

definition required_column :: "string \<Rightarrow> sql_type \<Rightarrow> column" where
  "required_column name t = \<lparr>co_name = name, co_type = t, co_nullable = False\<rparr>"

definition nullable_column :: "string \<Rightarrow> sql_type \<Rightarrow> column" where
  "nullable_column name t = \<lparr>co_name = name, co_type = t, co_nullable = True\<rparr>"

section \<open>The declared tables\<close>

definition chains_table :: table where
  "chains_table = \<lparr>tb_name = ''chains'', tb_primary_key = ''id'', tb_columns =
    [required_column ''id'' Int8, required_column ''name'' Text, required_column ''chain_id'' Int8,
     required_column ''rpc_url'' Text, required_column ''finality_confirmations'' Int8,
     required_column ''created_at'' Timestamptz]\<rparr>"

definition checkpoints_table :: table where
  "checkpoints_table = \<lparr>tb_name = ''checkpoints'', tb_primary_key = ''id'', tb_columns =
    [required_column ''id'' Uuid, required_column ''source_id'' Uuid,
     required_column ''processed_block'' Int8, required_column ''processed_block_hash'' Text,
     required_column ''finalized_block'' Int8, required_column ''updated_at'' Timestamptz]\<rparr>"

definition events_table :: table where
  "events_table = \<lparr>tb_name = ''events'', tb_primary_key = ''id'', tb_columns =
    [required_column ''id'' Uuid, required_column ''source_id'' Uuid, required_column ''chain_id'' Int8,
     required_column ''block_number'' Int8, nullable_column ''block_timestamp'' Timestamptz,
     required_column ''block_hash'' Text, required_column ''transaction_hash'' Text,
     nullable_column ''transaction_index'' Int4, required_column ''log_index'' Int4,
     required_column ''contract_address'' Text, required_column ''event_name'' Text,
     required_column ''topics'' Jsonb, required_column ''data'' Text, required_column ''args'' Jsonb,
     required_column ''finalized'' Bool, required_column ''orphaned'' Bool,
     required_column ''inserted_at'' Timestamptz]\<rparr>"

definition job_attempts_table :: table where
  "job_attempts_table = \<lparr>tb_name = ''job_attempts'', tb_primary_key = ''id'', tb_columns =
    [required_column ''id'' Uuid, required_column ''job_id'' Uuid,
     required_column ''attempt_number'' Int4, required_column ''worker_id'' Text,
     required_column ''started_at'' Timestamptz, nullable_column ''finished_at'' Timestamptz,
     required_column ''status'' Text, nullable_column ''error_class'' Text,
     nullable_column ''error_message'' Text]\<rparr>"

definition jobs_table :: table where
  "jobs_table = \<lparr>tb_name = ''jobs'', tb_primary_key = ''id'', tb_columns =
    [required_column ''id'' Uuid, required_column ''job_type'' Text, required_column ''status'' Text,
     nullable_column ''source_id'' Uuid, required_column ''chain_id'' Int8,
     nullable_column ''from_block'' Int8, nullable_column ''to_block'' Int8,
     required_column ''idempotency_key'' Text, nullable_column ''leased_by'' Text,
     nullable_column ''lease_expires_at'' Timestamptz, required_column ''attempts'' Int4,
     required_column ''max_attempts'' Int4, nullable_column ''error_class'' Text,
     nullable_column ''error_message'' Text, required_column ''created_at'' Timestamptz,
     required_column ''updated_at'' Timestamptz]\<rparr>"

definition ledger_entries_table :: table where
  "ledger_entries_table = \<lparr>tb_name = ''ledger_entries'', tb_primary_key = ''id'', tb_columns =
    [required_column ''id'' Uuid, required_column ''event_id'' Uuid, required_column ''source_id'' Uuid,
     required_column ''chain_id'' Int8, required_column ''contract_address'' Text,
     required_column ''token_standard'' Text, required_column ''movement_type'' Text,
     nullable_column ''operator_address'' Text, nullable_column ''from_address'' Text,
     nullable_column ''to_address'' Text, required_column ''token_id'' Text,
     required_column ''amount'' Numeric, required_column ''batch_index'' Int4,
     required_column ''block_number'' Int8, nullable_column ''block_timestamp'' Timestamptz,
     required_column ''block_hash'' Text, required_column ''transaction_hash'' Text,
     nullable_column ''transaction_index'' Int4, required_column ''log_index'' Int4,
     required_column ''orphaned'' Bool, required_column ''inserted_at'' Timestamptz]\<rparr>"

definition reorg_events_table :: table where
  "reorg_events_table = \<lparr>tb_name = ''reorg_events'', tb_primary_key = ''id'', tb_columns =
    [required_column ''id'' Uuid, required_column ''source_id'' Uuid, required_column ''chain_id'' Int8,
     required_column ''from_block'' Int8, required_column ''to_block'' Int8,
     nullable_column ''expected_block_hash'' Text, nullable_column ''actual_block_hash'' Text,
     required_column ''detected_at'' Timestamptz, nullable_column ''replay_job_id'' Uuid,
     required_column ''mismatches'' Jsonb]\<rparr>"

definition sources_table :: table where
  "sources_table = \<lparr>tb_name = ''sources'', tb_primary_key = ''id'', tb_columns =
    [required_column ''id'' Uuid, required_column ''chain_id'' Int8, required_column ''name'' Text,
     required_column ''contract_address'' Text, required_column ''token_standard'' Text,
     required_column ''start_block'' Int8, required_column ''enabled'' Bool,
     required_column ''created_at'' Timestamptz]\<rparr>"

definition token_balances_table :: table where
  "token_balances_table = \<lparr>tb_name = ''token_balances'', tb_primary_key = ''id'', tb_columns =
    [required_column ''id'' Uuid, required_column ''source_id'' Uuid, required_column ''chain_id'' Int8,
     required_column ''contract_address'' Text, required_column ''token_standard'' Text,
     required_column ''holder_address'' Text, required_column ''token_id'' Text,
     required_column ''balance'' Numeric, nullable_column ''first_received_block'' Int8,
     nullable_column ''last_moved_block'' Int8, required_column ''updated_at'' Timestamptz]\<rparr>"

definition transaction_receipts_table :: table where
  "transaction_receipts_table = \<lparr>tb_name = ''transaction_receipts'', tb_primary_key = ''id'', tb_columns =
    [required_column ''id'' Uuid, required_column ''chain_id'' Int8,
     required_column ''transaction_hash'' Text, required_column ''block_number'' Int8,
     required_column ''block_hash'' Text, nullable_column ''transaction_index'' Int4,
     required_column ''from_address'' Text, nullable_column ''to_address'' Text,
     nullable_column ''contract_address'' Text, nullable_column ''status'' Int4,
     required_column ''gas_used'' Numeric, required_column ''cumulative_gas_used'' Numeric,
     nullable_column ''effective_gas_price'' Numeric, nullable_column ''transaction_type'' Text,
     required_column ''raw_receipt'' Jsonb, required_column ''inserted_at'' Timestamptz,
     required_column ''updated_at'' Timestamptz]\<rparr>"

text \<open>The declared joins: a table, the table it refers to, and the column that refers to its key.\<close>

definition joinable :: "(table \<times> table \<times> string) list" where
  "joinable =
    [(checkpoints_table, sources_table, ''source_id''),
     (events_table, sources_table, ''source_id''),
     (job_attempts_table, jobs_table, ''job_id''),
     (jobs_table, sources_table, ''source_id''),
     (ledger_entries_table, events_table, ''event_id''),
     (ledger_entries_table, sources_table, ''source_id''),
     (reorg_events_table, jobs_table, ''replay_job_id''),
     (reorg_events_table, sources_table, ''source_id''),
     (token_balances_table, sources_table, ''source_id'')]"

definition tables_in_same_query :: "table list" where
  "tables_in_same_query =
    [chains_table, checkpoints_table, events_table, job_attempts_table, jobs_table, ledger_entries_table,
     reorg_events_table, sources_table, token_balances_table, transaction_receipts_table]"

text \<open>Every join goes from a column of the table to the key of the other table, which has the same type.\<close>

definition join_ok :: "table \<times> table \<times> string \<Rightarrow> bool" where
  "join_ok j = (case j of (child, parent, name) \<Rightarrow>
     list_ex (\<lambda>c. co_name c = name \<and> list_ex (\<lambda>k. co_name k = tb_primary_key parent \<and> co_type k = co_type c \<and> \<not> co_nullable k)
       (tb_columns parent)) (tb_columns child))"

lemma joins_refer_to_keys: "list_all join_ok joinable"
  by code_simp

lemma tables_are_queried: "set (map (\<lambda>(child, _, _). child) joinable) \<union> set (map (\<lambda>(_, parent, _). parent) joinable)
    \<subseteq> set tables_in_same_query"
  by (simp add: joinable_def tables_in_same_query_def)

section \<open>Rows as values of their columns\<close>

datatype cell = CInt8 int | CInt4 int | CText string | CUuid uuid | CBool bool | CJsonb json | CNumeric int
  | CTimestamptz int | Null

definition nullable :: "('a \<Rightarrow> cell) \<Rightarrow> 'a option \<Rightarrow> cell" where
  "nullable f x = (case x of None \<Rightarrow> Null | Some a \<Rightarrow> f a)"

definition cell_fits :: "column \<Rightarrow> string \<times> cell \<Rightarrow> bool" where
  "cell_fits c v \<longleftrightarrow> fst v = co_name c
     \<and> (case snd v of
          CInt8 _ \<Rightarrow> co_type c = Int8 | CInt4 _ \<Rightarrow> co_type c = Int4 | CText _ \<Rightarrow> co_type c = Text
        | CUuid _ \<Rightarrow> co_type c = Uuid | CBool _ \<Rightarrow> co_type c = Bool | CJsonb _ \<Rightarrow> co_type c = Jsonb
        | CNumeric _ \<Rightarrow> co_type c = Numeric | CTimestamptz _ \<Rightarrow> co_type c = Timestamptz | Null \<Rightarrow> co_nullable c)"

definition fits :: "table \<Rightarrow> (string \<times> cell) list \<Rightarrow> bool" where
  "fits t cells \<longleftrightarrow> list_all2 cell_fits (tb_columns t) cells"

definition chain_cells :: "chain_row \<Rightarrow> (string \<times> cell) list" where
  "chain_cells r =
     [(''id'', CInt8 (ch_id r)), (''name'', CText (ch_name r)), (''chain_id'', CInt8 (ch_chain_id r)),
      (''rpc_url'', CText (ch_rpc_url r)), (''finality_confirmations'', CInt8 (ch_finality_confirmations r)),
      (''created_at'', CTimestamptz (ch_created_at r))]"

definition source_cells :: "source_row \<Rightarrow> (string \<times> cell) list" where
  "source_cells r =
     [(''id'', CUuid (so_id r)), (''chain_id'', CInt8 (so_chain_id r)), (''name'', CText (so_name r)),
      (''contract_address'', CText (so_contract_address r)), (''token_standard'', CText (so_token_standard r)),
      (''start_block'', CInt8 (so_start_block r)), (''enabled'', CBool (so_enabled r)),
      (''created_at'', CTimestamptz (so_created_at r))]"

definition checkpoint_cells :: "checkpoint_row \<Rightarrow> (string \<times> cell) list" where
  "checkpoint_cells r =
     [(''id'', CUuid (ck_id r)), (''source_id'', CUuid (ck_source_id r)),
      (''processed_block'', CInt8 (ck_processed_block r)),
      (''processed_block_hash'', CText (ck_processed_block_hash r)),
      (''finalized_block'', CInt8 (ck_finalized_block r)), (''updated_at'', CTimestamptz (ck_updated_at r))]"

definition event_cells :: "event_row \<Rightarrow> (string \<times> cell) list" where
  "event_cells r =
     [(''id'', CUuid (ev_id r)), (''source_id'', CUuid (ev_source_id r)),
      (''chain_id'', CInt8 (ev_chain_id r)), (''block_number'', CInt8 (ev_block_number r)),
      (''block_timestamp'', nullable CTimestamptz (ev_block_timestamp r)),
      (''block_hash'', CText (ev_block_hash r)), (''transaction_hash'', CText (ev_transaction_hash r)),
      (''transaction_index'', nullable CInt4 (ev_transaction_index r)),
      (''log_index'', CInt4 (ev_log_index r)), (''contract_address'', CText (ev_contract_address r)),
      (''event_name'', CText (ev_event_name r)), (''topics'', CJsonb (ev_topics r)),
      (''data'', CText (ev_data r)), (''args'', CJsonb (ev_args r)), (''finalized'', CBool (ev_finalized r)),
      (''orphaned'', CBool (ev_orphaned r)), (''inserted_at'', CTimestamptz (ev_inserted_at r))]"

definition ledger_cells :: "ledger_row \<Rightarrow> (string \<times> cell) list" where
  "ledger_cells r =
     [(''id'', CUuid (le_id r)), (''event_id'', CUuid (le_event_id r)),
      (''source_id'', CUuid (le_source_id r)), (''chain_id'', CInt8 (le_chain_id r)),
      (''contract_address'', CText (le_contract_address r)), (''token_standard'', CText (le_token_standard r)),
      (''movement_type'', CText (le_movement_type r)),
      (''operator_address'', nullable CText (le_operator_address r)),
      (''from_address'', nullable CText (le_from_address r)),
      (''to_address'', nullable CText (le_to_address r)), (''token_id'', CText (le_token_id r)),
      (''amount'', CNumeric (le_amount r)), (''batch_index'', CInt4 (le_batch_index r)),
      (''block_number'', CInt8 (le_block_number r)),
      (''block_timestamp'', nullable CTimestamptz (le_block_timestamp r)),
      (''block_hash'', CText (le_block_hash r)), (''transaction_hash'', CText (le_transaction_hash r)),
      (''transaction_index'', nullable CInt4 (le_transaction_index r)),
      (''log_index'', CInt4 (le_log_index r)), (''orphaned'', CBool (le_orphaned r)),
      (''inserted_at'', CTimestamptz (le_inserted_at r))]"

definition balance_cells :: "balance_row \<Rightarrow> (string \<times> cell) list" where
  "balance_cells r =
     [(''id'', CUuid (ba_id r)), (''source_id'', CUuid (ba_source_id r)),
      (''chain_id'', CInt8 (ba_chain_id r)), (''contract_address'', CText (ba_contract_address r)),
      (''token_standard'', CText (ba_token_standard r)), (''holder_address'', CText (ba_holder_address r)),
      (''token_id'', CText (ba_token_id r)), (''balance'', CNumeric (ba_balance r)),
      (''first_received_block'', nullable CInt8 (ba_first_received_block r)),
      (''last_moved_block'', nullable CInt8 (ba_last_moved_block r)),
      (''updated_at'', CTimestamptz (ba_updated_at r))]"

definition receipt_cells :: "receipt_row \<Rightarrow> (string \<times> cell) list" where
  "receipt_cells r =
     [(''id'', CUuid (rc_id r)), (''chain_id'', CInt8 (rc_chain_id r)),
      (''transaction_hash'', CText (rc_transaction_hash r)), (''block_number'', CInt8 (rc_block_number r)),
      (''block_hash'', CText (rc_block_hash r)),
      (''transaction_index'', nullable CInt4 (rc_transaction_index r)),
      (''from_address'', CText (rc_from_address r)), (''to_address'', nullable CText (rc_to_address r)),
      (''contract_address'', nullable CText (rc_contract_address r)),
      (''status'', nullable CInt4 (rc_status r)), (''gas_used'', CNumeric (rc_gas_used r)),
      (''cumulative_gas_used'', CNumeric (rc_cumulative_gas_used r)),
      (''effective_gas_price'', nullable CNumeric (rc_effective_gas_price r)),
      (''transaction_type'', nullable CText (rc_transaction_type r)),
      (''raw_receipt'', CJsonb (rc_raw_receipt r)), (''inserted_at'', CTimestamptz (rc_inserted_at r)),
      (''updated_at'', CTimestamptz (rc_updated_at r))]"

definition job_cells :: "job_row \<Rightarrow> (string \<times> cell) list" where
  "job_cells r =
     [(''id'', CUuid (jr_id r)), (''job_type'', CText (jr_job_type r)), (''status'', CText (jr_status r)),
      (''source_id'', nullable CUuid (jr_source_id r)), (''chain_id'', CInt8 (jr_chain_id r)),
      (''from_block'', nullable CInt8 (jr_from_block r)), (''to_block'', nullable CInt8 (jr_to_block r)),
      (''idempotency_key'', CText (jr_idempotency_key r)), (''leased_by'', nullable CText (jr_leased_by r)),
      (''lease_expires_at'', nullable CTimestamptz (jr_lease_expires_at r)),
      (''attempts'', CInt4 (jr_attempts r)), (''max_attempts'', CInt4 (jr_max_attempts r)),
      (''error_class'', nullable CText (jr_error_class r)),
      (''error_message'', nullable CText (jr_error_message r)),
      (''created_at'', CTimestamptz (jr_created_at r)), (''updated_at'', CTimestamptz (jr_updated_at r))]"

definition attempt_cells :: "attempt_row \<Rightarrow> (string \<times> cell) list" where
  "attempt_cells r =
     [(''id'', CUuid (at_id r)), (''job_id'', CUuid (at_job_id r)),
      (''attempt_number'', CInt4 (at_attempt_number r)), (''worker_id'', CText (at_worker_id r)),
      (''started_at'', CTimestamptz (at_started_at r)),
      (''finished_at'', nullable CTimestamptz (at_finished_at r)), (''status'', CText (at_status r)),
      (''error_class'', nullable CText (at_error_class r)),
      (''error_message'', nullable CText (at_error_message r))]"

definition reorg_cells :: "reorg_row \<Rightarrow> (string \<times> cell) list" where
  "reorg_cells r =
     [(''id'', CUuid (re_id r)), (''source_id'', CUuid (re_source_id r)),
      (''chain_id'', CInt8 (re_chain_id r)), (''from_block'', CInt8 (re_from_block r)),
      (''to_block'', CInt8 (re_to_block r)),
      (''expected_block_hash'', nullable CText (re_expected_block_hash r)),
      (''actual_block_hash'', nullable CText (re_actual_block_hash r)),
      (''detected_at'', CTimestamptz (re_detected_at r)),
      (''replay_job_id'', nullable CUuid (re_replay_job_id r)), (''mismatches'', CJsonb (re_mismatches r))]"

section \<open>Rows to insert\<close>

record chain_values =
  nch_name :: string
  nch_chain_id :: int
  nch_rpc_url :: string
  nch_finality_confirmations :: int

record source_values =
  nso_id :: uuid
  nso_chain_id :: int
  nso_name :: string
  nso_contract_address :: string
  nso_token_standard :: string
  nso_start_block :: int
  nso_enabled :: bool

record checkpoint_values =
  nck_id :: uuid
  nck_source_id :: uuid
  nck_processed_block :: int
  nck_processed_block_hash :: string
  nck_finalized_block :: int

record event_values =
  nev_id :: uuid
  nev_source_id :: uuid
  nev_chain_id :: int
  nev_block_number :: int
  nev_block_timestamp :: "int option"
  nev_block_hash :: string
  nev_transaction_hash :: string
  nev_transaction_index :: "int option"
  nev_log_index :: int
  nev_contract_address :: string
  nev_event_name :: string
  nev_topics :: json
  nev_data :: string
  nev_args :: json
  nev_finalized :: bool
  nev_orphaned :: bool

record ledger_values =
  nle_id :: uuid
  nle_event_id :: uuid
  nle_source_id :: uuid
  nle_chain_id :: int
  nle_contract_address :: string
  nle_token_standard :: string
  nle_movement_type :: string
  nle_operator_address :: "string option"
  nle_from_address :: "string option"
  nle_to_address :: "string option"
  nle_token_id :: string
  nle_amount :: int
  nle_batch_index :: int
  nle_block_number :: int
  nle_block_timestamp :: "int option"
  nle_block_hash :: string
  nle_transaction_hash :: string
  nle_transaction_index :: "int option"
  nle_log_index :: int
  nle_orphaned :: bool

record balance_values =
  nba_id :: uuid
  nba_source_id :: uuid
  nba_chain_id :: int
  nba_contract_address :: string
  nba_token_standard :: string
  nba_holder_address :: string
  nba_token_id :: string
  nba_balance :: int
  nba_first_received_block :: "int option"
  nba_last_moved_block :: "int option"

record receipt_values =
  nrc_id :: uuid
  nrc_chain_id :: int
  nrc_transaction_hash :: string
  nrc_block_number :: int
  nrc_block_hash :: string
  nrc_transaction_index :: "int option"
  nrc_from_address :: string
  nrc_to_address :: "string option"
  nrc_contract_address :: "string option"
  nrc_status :: "int option"
  nrc_gas_used :: int
  nrc_cumulative_gas_used :: int
  nrc_effective_gas_price :: "int option"
  nrc_transaction_type :: "string option"
  nrc_raw_receipt :: json

record job_values =
  njr_id :: uuid
  njr_job_type :: string
  njr_status :: string
  njr_source_id :: "uuid option"
  njr_chain_id :: int
  njr_from_block :: "int option"
  njr_to_block :: "int option"
  njr_idempotency_key :: string
  njr_max_attempts :: int

record attempt_values =
  nat_id :: uuid
  nat_job_id :: uuid
  nat_attempt_number :: int
  nat_worker_id :: string
  nat_status :: string

record reorg_values =
  nre_id :: uuid
  nre_source_id :: uuid
  nre_chain_id :: int
  nre_from_block :: int
  nre_to_block :: int
  nre_expected_block_hash :: "string option"
  nre_actual_block_hash :: "string option"
  nre_replay_job_id :: "uuid option"
  nre_mismatches :: json

text \<open>The row that an insert stores at the time \<open>now\<close>: the values of the struct, and in the columns it leaves out the
  defaults of the migrations.\<close>

definition stored_chain :: "int \<Rightarrow> int \<Rightarrow> chain_values \<Rightarrow> chain_row" where
  "stored_chain i now v =
     \<lparr>ch_id = i, ch_name = nch_name v, ch_chain_id = nch_chain_id v, ch_rpc_url = nch_rpc_url v,
      ch_finality_confirmations = nch_finality_confirmations v, ch_created_at = now\<rparr>"

definition stored_source :: "int \<Rightarrow> source_values \<Rightarrow> source_row" where
  "stored_source now v =
     \<lparr>so_id = nso_id v, so_chain_id = nso_chain_id v, so_name = nso_name v,
      so_contract_address = nso_contract_address v, so_token_standard = nso_token_standard v,
      so_start_block = nso_start_block v, so_enabled = nso_enabled v, so_created_at = now\<rparr>"

definition stored_checkpoint :: "int \<Rightarrow> checkpoint_values \<Rightarrow> checkpoint_row" where
  "stored_checkpoint now v =
     \<lparr>ck_id = nck_id v, ck_source_id = nck_source_id v, ck_processed_block = nck_processed_block v,
      ck_processed_block_hash = nck_processed_block_hash v, ck_finalized_block = nck_finalized_block v,
      ck_updated_at = now\<rparr>"

definition stored_event :: "int \<Rightarrow> event_values \<Rightarrow> event_row" where
  "stored_event now v =
     \<lparr>ev_id = nev_id v, ev_source_id = nev_source_id v, ev_chain_id = nev_chain_id v,
      ev_block_number = nev_block_number v, ev_block_timestamp = nev_block_timestamp v,
      ev_block_hash = nev_block_hash v, ev_transaction_hash = nev_transaction_hash v,
      ev_transaction_index = nev_transaction_index v, ev_log_index = nev_log_index v,
      ev_contract_address = nev_contract_address v, ev_event_name = nev_event_name v, ev_topics = nev_topics v,
      ev_data = nev_data v, ev_args = nev_args v, ev_finalized = nev_finalized v, ev_orphaned = nev_orphaned v,
      ev_inserted_at = now\<rparr>"

definition stored_ledger :: "int \<Rightarrow> ledger_values \<Rightarrow> ledger_row" where
  "stored_ledger now v =
     \<lparr>le_id = nle_id v, le_event_id = nle_event_id v, le_source_id = nle_source_id v,
      le_chain_id = nle_chain_id v, le_contract_address = nle_contract_address v,
      le_token_standard = nle_token_standard v, le_movement_type = nle_movement_type v,
      le_operator_address = nle_operator_address v, le_from_address = nle_from_address v,
      le_to_address = nle_to_address v, le_token_id = nle_token_id v, le_amount = nle_amount v,
      le_batch_index = nle_batch_index v, le_block_number = nle_block_number v,
      le_block_timestamp = nle_block_timestamp v, le_block_hash = nle_block_hash v,
      le_transaction_hash = nle_transaction_hash v, le_transaction_index = nle_transaction_index v,
      le_log_index = nle_log_index v, le_orphaned = nle_orphaned v, le_inserted_at = now\<rparr>"

definition stored_balance :: "int \<Rightarrow> balance_values \<Rightarrow> balance_row" where
  "stored_balance now v =
     \<lparr>ba_id = nba_id v, ba_source_id = nba_source_id v, ba_chain_id = nba_chain_id v,
      ba_contract_address = nba_contract_address v, ba_token_standard = nba_token_standard v,
      ba_holder_address = nba_holder_address v, ba_token_id = nba_token_id v, ba_balance = nba_balance v,
      ba_first_received_block = nba_first_received_block v, ba_last_moved_block = nba_last_moved_block v,
      ba_updated_at = now\<rparr>"

definition stored_receipt :: "int \<Rightarrow> receipt_values \<Rightarrow> receipt_row" where
  "stored_receipt now v =
     \<lparr>rc_id = nrc_id v, rc_chain_id = nrc_chain_id v, rc_transaction_hash = nrc_transaction_hash v,
      rc_block_number = nrc_block_number v, rc_block_hash = nrc_block_hash v,
      rc_transaction_index = nrc_transaction_index v, rc_from_address = nrc_from_address v,
      rc_to_address = nrc_to_address v, rc_contract_address = nrc_contract_address v, rc_status = nrc_status v,
      rc_gas_used = nrc_gas_used v, rc_cumulative_gas_used = nrc_cumulative_gas_used v,
      rc_effective_gas_price = nrc_effective_gas_price v, rc_transaction_type = nrc_transaction_type v,
      rc_raw_receipt = nrc_raw_receipt v, rc_inserted_at = now, rc_updated_at = now\<rparr>"

definition stored_job :: "int \<Rightarrow> job_values \<Rightarrow> job_row" where
  "stored_job now v =
     \<lparr>jr_id = njr_id v, jr_job_type = njr_job_type v, jr_status = njr_status v,
      jr_source_id = njr_source_id v, jr_chain_id = njr_chain_id v, jr_from_block = njr_from_block v,
      jr_to_block = njr_to_block v, jr_idempotency_key = njr_idempotency_key v, jr_leased_by = None,
      jr_lease_expires_at = None, jr_attempts = 0, jr_max_attempts = njr_max_attempts v, jr_error_class = None,
      jr_error_message = None, jr_created_at = now, jr_updated_at = now\<rparr>"

definition stored_attempt :: "int \<Rightarrow> attempt_values \<Rightarrow> attempt_row" where
  "stored_attempt now v =
     \<lparr>at_id = nat_id v, at_job_id = nat_job_id v, at_attempt_number = nat_attempt_number v,
      at_worker_id = nat_worker_id v, at_started_at = now, at_finished_at = None, at_status = nat_status v,
      at_error_class = None, at_error_message = None\<rparr>"

definition stored_reorg :: "int \<Rightarrow> reorg_values \<Rightarrow> reorg_row" where
  "stored_reorg now v =
     \<lparr>re_id = nre_id v, re_source_id = nre_source_id v, re_chain_id = nre_chain_id v,
      re_from_block = nre_from_block v, re_to_block = nre_to_block v,
      re_expected_block_hash = nre_expected_block_hash v, re_actual_block_hash = nre_actual_block_hash v,
      re_detected_at = now, re_replay_job_id = nre_replay_job_id v, re_mismatches = nre_mismatches v\<rparr>"

text \<open>The values that an insert passes, read off the row it stored.\<close>

definition chain_values_of :: "chain_row \<Rightarrow> chain_values" where
  "chain_values_of r =
     \<lparr>nch_name = ch_name r, nch_chain_id = ch_chain_id r, nch_rpc_url = ch_rpc_url r,
      nch_finality_confirmations = ch_finality_confirmations r\<rparr>"

definition source_values_of :: "source_row \<Rightarrow> source_values" where
  "source_values_of r =
     \<lparr>nso_id = so_id r, nso_chain_id = so_chain_id r, nso_name = so_name r,
      nso_contract_address = so_contract_address r, nso_token_standard = so_token_standard r,
      nso_start_block = so_start_block r, nso_enabled = so_enabled r\<rparr>"

definition checkpoint_values_of :: "checkpoint_row \<Rightarrow> checkpoint_values" where
  "checkpoint_values_of r =
     \<lparr>nck_id = ck_id r, nck_source_id = ck_source_id r, nck_processed_block = ck_processed_block r,
      nck_processed_block_hash = ck_processed_block_hash r, nck_finalized_block = ck_finalized_block r\<rparr>"

definition event_values_of :: "event_row \<Rightarrow> event_values" where
  "event_values_of r =
     \<lparr>nev_id = ev_id r, nev_source_id = ev_source_id r, nev_chain_id = ev_chain_id r,
      nev_block_number = ev_block_number r, nev_block_timestamp = ev_block_timestamp r,
      nev_block_hash = ev_block_hash r, nev_transaction_hash = ev_transaction_hash r,
      nev_transaction_index = ev_transaction_index r, nev_log_index = ev_log_index r,
      nev_contract_address = ev_contract_address r, nev_event_name = ev_event_name r, nev_topics = ev_topics r,
      nev_data = ev_data r, nev_args = ev_args r, nev_finalized = ev_finalized r, nev_orphaned = ev_orphaned r\<rparr>"

definition ledger_values_of :: "ledger_row \<Rightarrow> ledger_values" where
  "ledger_values_of r =
     \<lparr>nle_id = le_id r, nle_event_id = le_event_id r, nle_source_id = le_source_id r,
      nle_chain_id = le_chain_id r, nle_contract_address = le_contract_address r,
      nle_token_standard = le_token_standard r, nle_movement_type = le_movement_type r,
      nle_operator_address = le_operator_address r, nle_from_address = le_from_address r,
      nle_to_address = le_to_address r, nle_token_id = le_token_id r, nle_amount = le_amount r,
      nle_batch_index = le_batch_index r, nle_block_number = le_block_number r,
      nle_block_timestamp = le_block_timestamp r, nle_block_hash = le_block_hash r,
      nle_transaction_hash = le_transaction_hash r, nle_transaction_index = le_transaction_index r,
      nle_log_index = le_log_index r, nle_orphaned = le_orphaned r\<rparr>"

definition balance_values_of :: "balance_row \<Rightarrow> balance_values" where
  "balance_values_of r =
     \<lparr>nba_id = ba_id r, nba_source_id = ba_source_id r, nba_chain_id = ba_chain_id r,
      nba_contract_address = ba_contract_address r, nba_token_standard = ba_token_standard r,
      nba_holder_address = ba_holder_address r, nba_token_id = ba_token_id r, nba_balance = ba_balance r,
      nba_first_received_block = ba_first_received_block r, nba_last_moved_block = ba_last_moved_block r\<rparr>"

definition receipt_values_of :: "receipt_row \<Rightarrow> receipt_values" where
  "receipt_values_of r =
     \<lparr>nrc_id = rc_id r, nrc_chain_id = rc_chain_id r, nrc_transaction_hash = rc_transaction_hash r,
      nrc_block_number = rc_block_number r, nrc_block_hash = rc_block_hash r,
      nrc_transaction_index = rc_transaction_index r, nrc_from_address = rc_from_address r,
      nrc_to_address = rc_to_address r, nrc_contract_address = rc_contract_address r, nrc_status = rc_status r,
      nrc_gas_used = rc_gas_used r, nrc_cumulative_gas_used = rc_cumulative_gas_used r,
      nrc_effective_gas_price = rc_effective_gas_price r, nrc_transaction_type = rc_transaction_type r,
      nrc_raw_receipt = rc_raw_receipt r\<rparr>"

definition job_values_of :: "job_row \<Rightarrow> job_values" where
  "job_values_of r =
     \<lparr>njr_id = jr_id r, njr_job_type = jr_job_type r, njr_status = jr_status r,
      njr_source_id = jr_source_id r, njr_chain_id = jr_chain_id r, njr_from_block = jr_from_block r,
      njr_to_block = jr_to_block r, njr_idempotency_key = jr_idempotency_key r,
      njr_max_attempts = jr_max_attempts r\<rparr>"

definition attempt_values_of :: "attempt_row \<Rightarrow> attempt_values" where
  "attempt_values_of r =
     \<lparr>nat_id = at_id r, nat_job_id = at_job_id r, nat_attempt_number = at_attempt_number r,
      nat_worker_id = at_worker_id r, nat_status = at_status r\<rparr>"

definition reorg_values_of :: "reorg_row \<Rightarrow> reorg_values" where
  "reorg_values_of r =
     \<lparr>nre_id = re_id r, nre_source_id = re_source_id r, nre_chain_id = re_chain_id r,
      nre_from_block = re_from_block r, nre_to_block = re_to_block r,
      nre_expected_block_hash = re_expected_block_hash r, nre_actual_block_hash = re_actual_block_hash r,
      nre_replay_job_id = re_replay_job_id r, nre_mismatches = re_mismatches r\<rparr>"

section \<open>The rows fit the declarations\<close>

lemma nullable_fits: "cell_fits c (name, nullable f x) \<longleftrightarrow> (case x of None \<Rightarrow> name = co_name c \<and> co_nullable c | Some a \<Rightarrow> cell_fits c (name, f a))"
  by (simp add: cell_fits_def nullable_def split: option.split)

lemmas cell_rules = fits_def cell_fits_def nullable_def required_column_def nullable_column_def

text \<open>The fields of every struct that is read from a table are the columns of that table, in its order and with types that
  a column of the declared type takes; only nullable columns are optional fields.\<close>

lemma rows_fit_tables:
  "fits chains_table (chain_cells chain)" "fits sources_table (source_cells source)"
  "fits checkpoints_table (checkpoint_cells checkpoint)" "fits events_table (event_cells event)"
  "fits ledger_entries_table (ledger_cells entry)" "fits token_balances_table (balance_cells balance)"
  "fits transaction_receipts_table (receipt_cells receipt)" "fits jobs_table (job_cells job)"
  "fits job_attempts_table (attempt_cells attempt)" "fits reorg_events_table (reorg_cells reorg)"
  by (simp_all add: cell_rules chains_table_def chain_cells_def sources_table_def source_cells_def checkpoints_table_def
      checkpoint_cells_def events_table_def event_cells_def ledger_entries_table_def ledger_cells_def token_balances_table_def
      balance_cells_def transaction_receipts_table_def receipt_cells_def jobs_table_def job_cells_def job_attempts_table_def
      attempt_cells_def reorg_events_table_def reorg_cells_def split: option.split)

section \<open>What the inserts store\<close>

text \<open>The rows that the operations of the model store are those that an insert of the struct's values completes.\<close>

lemma stored_job_row: "new_job_row j now = stored_job now (job_values_of (new_job_row j now))"
  by (simp add: new_job_row_def stored_job_def job_values_of_def)

lemma stored_event_row:
  "new_event_row source log decoded i now = Ok row \<Longrightarrow> row = stored_event now (event_values_of row)"
  by (auto simp: new_event_row_def stored_event_def event_values_of_def)

lemma stored_ledger_row:
  "new_ledger_row c source log event_id entry i now = Ok row \<Longrightarrow> row = stored_ledger now (ledger_values_of row)"
  by (auto simp: new_ledger_row_def stored_ledger_def ledger_values_of_def)

lemma stored_receipt_row:
  "new_receipt_row c chain receipt i now = Ok row \<Longrightarrow> row = stored_receipt now (receipt_values_of row)"
  by (auto simp: new_receipt_row_def stored_receipt_def receipt_values_of_def)

lemma stored_attempt_row:
  assumes "insert_attempt job n worker d = (Ok u, t)"
  shows "\<exists>row now. db_attempts t = db_attempts d @ [row] \<and> row = stored_attempt now (attempt_values_of row)
    \<and> at_job_id row = job \<and> at_attempt_number row = n \<and> at_worker_id row = worker"
  using assms
  by (auto simp: insert_attempt_def Let_def seq_Ok_iff stored_attempt_def attempt_values_of_def)

lemma stored_chain_row:
  assumes "ensure_chain name chain url confirmations d = (Ok row, t)" and "\<forall>r \<in> set (db_chains d). ch_chain_id r \<noteq> chain"
  shows "\<exists>i now. db_chains t = db_chains d @ [row] \<and> row = stored_chain i now (chain_values_of row)"
proof -
  have "List.find (\<lambda>r. ch_chain_id r = chain) (db_chains d) = None" using assms(2) by (auto simp: find_None_iff)
  moreover have "seq next_chain_id f d
      = f (chain_serial (db_env d)) (d\<lparr>db_env := (db_env d)\<lparr>chain_serial := chain_serial (db_env d) + 1\<rparr>\<rparr>)"
    for f :: "int \<Rightarrow> chain_row db_prog"
    by (simp add: seq_apply next_chain_id_def)
  ultimately show ?thesis
    using assms(1)
    by (cases "pool_available (db_env d)")
       (auto simp: ensure_chain_def Let_def stored_chain_def chain_values_of_def split: if_splits)
qed

lemma stored_source_row:
  assumes "ensure_source chain name contract standard start d = (Ok row, t)"
    and "\<forall>r \<in> set (db_sources d). source_key r \<noteq> (chain, to_ascii_lowercase contract)"
  shows "\<exists>now. db_sources t = db_sources d @ [row] \<and> row = stored_source now (source_values_of row)"
proof -
  have "List.find (\<lambda>r. source_key r = (chain, to_ascii_lowercase contract)) (db_sources d) = None"
    using assms(2) by (auto simp: find_None_iff)
  with assms(1) show ?thesis
    by (cases "pool_available (db_env d)")
       (auto simp: ensure_source_def Let_def stored_source_def source_values_of_def source_key_def split: if_splits)
qed

lemma stored_reorg_row:
  assumes "record_reorg_event e d = (Ok row, t)"
  shows "\<exists>now. row = stored_reorg now (reorg_values_of row) \<and> db_reorgs t = db_reorgs d @ [row]"
  using assms
  by (cases "pool_available (db_env d)")
     (auto simp: record_reorg_event_def Let_def stored_reorg_def reorg_values_of_def split: if_splits option.splits)

end
