(* ===== verification/Telemetry.thy ===== *)
theory Telemetry
  imports Metrics Rust_Str
begin

text \<open>
  The construction of the metrics (\<open>Metrics::new\<close> in src/infra/telemetry/metrics.rs): the families with their labels,
  their creation and their registration. What the prometheus crate accepts is a parameter. The program unwraps the
  result when it first meters something, and a child is looked up with as many label values as its family has
  labels, or the crate panics; both are excluded here.
\<close>

section \<open>Families\<close>

datatype metric_kind = IntCounter | IntGauge | HistogramOf "int list"

record family =
  fa_kind :: metric_kind
  fa_name :: string
  fa_help :: string
  fa_labels :: "string list"

text \<open>What the crate accepts: a family by itself, and a family beside those a registry holds.\<close>

record prometheus =
  pm_creates :: "family \<Rightarrow> bool"
  pm_registers :: "family list \<Rightarrow> family \<Rightarrow> bool"

definition create_family :: "prometheus \<Rightarrow> family \<Rightarrow> string + family" where
  "create_family p f = (if pm_creates p f then Inr f else Inl (''create '' @ fa_name f))"

definition int_counter_vec :: "prometheus \<Rightarrow> string \<Rightarrow> string \<Rightarrow> string list \<Rightarrow> string + family" where
  "int_counter_vec p name help labels =
     create_family p \<lparr>fa_kind = IntCounter, fa_name = name, fa_help = help, fa_labels = labels\<rparr>"

definition int_gauge_vec :: "prometheus \<Rightarrow> string \<Rightarrow> string \<Rightarrow> string list \<Rightarrow> string + family" where
  "int_gauge_vec p name help labels =
     create_family p \<lparr>fa_kind = IntGauge, fa_name = name, fa_help = help, fa_labels = labels\<rparr>"

fun register_all :: "prometheus \<Rightarrow> family list \<Rightarrow> family list \<Rightarrow> string + family list" where
  "register_all p registry [] = Inr registry"
| "register_all p registry (collector # collectors) =
     (if pm_registers p registry collector then register_all p (registry @ [collector]) collectors
      else Inl ''register Prometheus metric'')"

text \<open>The registry and the metrics that \<open>Metrics::new\<close> returns. The bounds of the buckets are in milliseconds.\<close>

definition registered_metrics :: "prometheus \<Rightarrow> string + family list \<times> metrics" where
  "registered_metrics p =
     and_then (int_gauge_vec p ''indexer_job_backlog'' ''Durable jobs by type and status.'' [''job_type'', ''status'']) (\<lambda>job_backlog.
     and_then (int_counter_vec p ''indexer_failed_jobs_total'' ''Failed worker jobs by type and error class.''
       [''job_type'', ''error_class'']) (\<lambda>failed_jobs_total.
     and_then (int_counter_vec p ''indexer_dead_letter_jobs_total'' ''Dead-lettered worker jobs by type and error class.''
       [''job_type'', ''error_class'']) (\<lambda>dead_letter_jobs_total.
     and_then (int_counter_vec p ''indexer_worker_lease_failures_total'' ''Worker lease failures by worker id.''
       [''worker_id'']) (\<lambda>worker_lease_failures_total.
     and_then (int_counter_vec p ''indexer_events_processed_total''
       ''Decoded ledger events persisted by chain, source, and event name.'' [''chain_id'', ''source_id'', ''event_name''])
       (\<lambda>events_processed_total.
     and_then (int_counter_vec p ''indexer_rpc_errors_total'' ''RPC errors by chain and error class.''
       [''chain_id'', ''error_class'']) (\<lambda>rpc_errors_total.
     and_then (create_family p \<lparr>fa_kind = HistogramOf [1, 5, 10, 25, 50, 100, 250, 500, 1000, 5000],
         fa_name = ''indexer_db_write_duration_ms'', fa_help = ''Database write duration in milliseconds by operation.'',
         fa_labels = [''operation'']\<rparr>) (\<lambda>db_write_duration_ms.
     and_then (int_gauge_vec p ''indexer_head_block'' ''Observed chain head block by chain.'' [''chain_id'']) (\<lambda>head_block.
     and_then (int_gauge_vec p ''indexer_finalized_block'' ''Observed finalized block by chain.'' [''chain_id'']) (\<lambda>finalized_block.
     and_then (int_gauge_vec p ''indexer_processed_block'' ''Source checkpoint processed block.'' [''chain_id'', ''source_id''])
       (\<lambda>processed_block.
     and_then (int_gauge_vec p ''indexer_source_lag_blocks'' ''Source finalized minus processed block lag.''
       [''chain_id'', ''source_id'']) (\<lambda>source_lag_blocks.
     and_then (int_counter_vec p ''indexer_reorgs_detected_total'' ''Detected reorg mismatches by chain and source.''
       [''chain_id'', ''source_id'']) (\<lambda>reorgs_detected_total.
     and_then (register_all p [] [job_backlog, failed_jobs_total, dead_letter_jobs_total, worker_lease_failures_total,
         events_processed_total, rpc_errors_total, db_write_duration_ms, head_block, finalized_block, processed_block,
         source_lag_blocks, reorgs_detected_total]) (\<lambda>registry.
       Inr (registry, metrics_new))))))))))))))"

section \<open>Construction succeeds\<close>

text \<open>The names the crate documents: letters, digits and underscores, not beginning with a digit, in metrics also colons.\<close>

definition name_char :: "bool \<Rightarrow> char \<Rightarrow> bool" where
  "name_char metric c \<longleftrightarrow> is_ascii_digit c \<or> c = CHR ''_'' \<or> metric \<and> c = CHR '':''
     \<or> 65 \<le> byte c \<and> byte c \<le> 90 \<or> 97 \<le> byte c \<and> byte c \<le> 122"

definition valid_name :: "bool \<Rightarrow> string \<Rightarrow> bool" where
  "valid_name metric name \<longleftrightarrow> name \<noteq> [] \<and> \<not> is_ascii_digit (hd name) \<and> list_all (name_char metric) name"

definition valid_family :: "family \<Rightarrow> bool" where
  "valid_family f \<longleftrightarrow> valid_name True (fa_name f) \<and> list_all (valid_name False) (fa_labels f) \<and> distinct (fa_labels f)
     \<and> (case fa_kind f of HistogramOf bounds \<Rightarrow> sorted_wrt (<) bounds \<and> ''le'' \<notin> set (fa_labels f) | _ \<Rightarrow> True)"

definition prometheus_ok :: "prometheus \<Rightarrow> bool" where
  "prometheus_ok p \<longleftrightarrow> (\<forall>f. valid_family f \<and> fa_help f \<noteq> [] \<longrightarrow> pm_creates p f)
     \<and> (\<forall>registry f. fa_name f \<notin> fa_name ` set registry \<longrightarrow> pm_registers p registry f)"

lemma create_valid: "prometheus_ok p \<Longrightarrow> valid_family f \<Longrightarrow> fa_help f \<noteq> [] \<Longrightarrow> create_family p f = Inr f"
  by (simp add: create_family_def prometheus_ok_def)

lemma register_all_distinct:
  "prometheus_ok p \<Longrightarrow> distinct (map fa_name (registry @ fs)) \<Longrightarrow> register_all p registry fs = Inr (registry @ fs)"
  by (induction fs arbitrary: registry) (auto simp: prometheus_ok_def)

definition declared_families :: "family list" where
  "declared_families =
    [\<lparr>fa_kind = IntGauge, fa_name = ''indexer_job_backlog'',
       fa_help = ''Durable jobs by type and status.'', fa_labels = [''job_type'', ''status'']\<rparr>,
     \<lparr>fa_kind = IntCounter, fa_name = ''indexer_failed_jobs_total'',
       fa_help = ''Failed worker jobs by type and error class.'', fa_labels = [''job_type'', ''error_class'']\<rparr>,
     \<lparr>fa_kind = IntCounter, fa_name = ''indexer_dead_letter_jobs_total'',
       fa_help = ''Dead-lettered worker jobs by type and error class.'', fa_labels = [''job_type'', ''error_class'']\<rparr>,
     \<lparr>fa_kind = IntCounter, fa_name = ''indexer_worker_lease_failures_total'',
       fa_help = ''Worker lease failures by worker id.'', fa_labels = [''worker_id'']\<rparr>,
     \<lparr>fa_kind = IntCounter, fa_name = ''indexer_events_processed_total'',
       fa_help = ''Decoded ledger events persisted by chain, source, and event name.'', fa_labels = [''chain_id'', ''source_id'', ''event_name'']\<rparr>,
     \<lparr>fa_kind = IntCounter, fa_name = ''indexer_rpc_errors_total'',
       fa_help = ''RPC errors by chain and error class.'', fa_labels = [''chain_id'', ''error_class'']\<rparr>,
     \<lparr>fa_kind = HistogramOf [1, 5, 10, 25, 50, 100, 250, 500, 1000, 5000], fa_name = ''indexer_db_write_duration_ms'',
       fa_help = ''Database write duration in milliseconds by operation.'', fa_labels = [''operation'']\<rparr>,
     \<lparr>fa_kind = IntGauge, fa_name = ''indexer_head_block'',
       fa_help = ''Observed chain head block by chain.'', fa_labels = [''chain_id'']\<rparr>,
     \<lparr>fa_kind = IntGauge, fa_name = ''indexer_finalized_block'',
       fa_help = ''Observed finalized block by chain.'', fa_labels = [''chain_id'']\<rparr>,
     \<lparr>fa_kind = IntGauge, fa_name = ''indexer_processed_block'',
       fa_help = ''Source checkpoint processed block.'', fa_labels = [''chain_id'', ''source_id'']\<rparr>,
     \<lparr>fa_kind = IntGauge, fa_name = ''indexer_source_lag_blocks'',
       fa_help = ''Source finalized minus processed block lag.'', fa_labels = [''chain_id'', ''source_id'']\<rparr>,
     \<lparr>fa_kind = IntCounter, fa_name = ''indexer_reorgs_detected_total'',
       fa_help = ''Detected reorg mismatches by chain and source.'', fa_labels = [''chain_id'', ''source_id'']\<rparr>]"

lemma declared_valid: "list_all (\<lambda>f. valid_family f \<and> fa_help f \<noteq> []) declared_families"
  by (simp add: declared_families_def valid_family_def valid_name_def name_char_def is_ascii_digit_def byte_def)

lemma declared_distinct: "distinct (map fa_name declared_families)"
  by (simp add: declared_families_def)

text \<open>Against a crate that accepts valid families and rejects only names it has, the construction succeeds with the
  twelve families, and without a child.\<close>

lemma registered_metrics_succeeds:
  assumes "prometheus_ok p"
  shows "registered_metrics p = Inr (declared_families, metrics_new)"
proof -
  have "list_all (\<lambda>f. create_family p f = Inr f) declared_families"
    using declared_valid create_valid [OF assms] by (simp add: list_all_iff)
  note created = this [unfolded declared_families_def list.pred_inject]
  have "register_all p [] declared_families = Inr declared_families"
    using register_all_distinct [OF assms, of "[]" declared_families] declared_distinct by simp
  note registered = this [unfolded declared_families_def]
  show ?thesis
    by (simp only: registered_metrics_def int_gauge_vec_def int_counter_vec_def created registered declared_families_def
        and_then_simps)
qed

section \<open>Children have the labels of their family\<close>

definition label_count :: "string \<Rightarrow> nat" where
  "label_count name = (case List.find (\<lambda>f. fa_name f = name) declared_families of Some f \<Rightarrow> length (fa_labels f) | None \<Rightarrow> 0)"

definition labelled :: "string \<Rightarrow> (string list \<Rightarrow> 'a option) \<Rightarrow> bool" where
  "labelled name children \<longleftrightarrow> (\<forall>labels \<in> dom children. length labels = label_count name)"

definition well_labelled :: "metrics \<Rightarrow> bool" where
  "well_labelled m \<longleftrightarrow> labelled ''indexer_job_backlog'' (job_backlog m)
     \<and> labelled ''indexer_failed_jobs_total'' (failed_jobs_total m)
     \<and> labelled ''indexer_dead_letter_jobs_total'' (dead_letter_jobs_total m)
     \<and> labelled ''indexer_worker_lease_failures_total'' (worker_lease_failures_total m)
     \<and> labelled ''indexer_events_processed_total'' (events_processed_total m)
     \<and> labelled ''indexer_rpc_errors_total'' (rpc_errors_total m)
     \<and> labelled ''indexer_head_block'' (head_block m)
     \<and> labelled ''indexer_finalized_block'' (finalized_block m)
     \<and> labelled ''indexer_processed_block'' (processed_block m)
     \<and> labelled ''indexer_source_lag_blocks'' (source_lag_blocks m)
     \<and> labelled ''indexer_reorgs_detected_total'' (reorgs_detected_total m)"

lemma label_counts:
  "label_count ''indexer_job_backlog'' = 2"
  "label_count ''indexer_failed_jobs_total'' = 2"
  "label_count ''indexer_dead_letter_jobs_total'' = 2"
  "label_count ''indexer_worker_lease_failures_total'' = 1"
  "label_count ''indexer_events_processed_total'' = 3"
  "label_count ''indexer_rpc_errors_total'' = 2"
  "label_count ''indexer_head_block'' = 1"
  "label_count ''indexer_finalized_block'' = 1"
  "label_count ''indexer_processed_block'' = 2"
  "label_count ''indexer_source_lag_blocks'' = 2"
  "label_count ''indexer_reorgs_detected_total'' = 2"
  by (simp_all add: label_count_def declared_families_def)

lemma labelled_update [simp]: "labelled name children \<Longrightarrow> length labels = label_count name \<Longrightarrow> labelled name (children(labels \<mapsto> v))"
  by (auto simp: labelled_def)

lemma labelled_inc [simp]: "labelled name children \<Longrightarrow> length labels = label_count name \<Longrightarrow> labelled name (inc_by labels n children)"
  by (simp add: inc_by_def)

text \<open>Every operation on the metrics gives as many label values as its family has labels.\<close>

lemma well_labelled_new: "well_labelled metrics_new"
  by (simp add: well_labelled_def metrics_new_def labelled_def)

lemma well_labelled_operations:
  assumes "well_labelled m"
  shows "well_labelled (set_job_backlog job_type status count m)" "well_labelled (inc_failed_job job_type cls m)"
    "well_labelled (inc_dead_letter_job job_type cls m)" "well_labelled (inc_worker_lease_failure worker m)"
    "well_labelled (inc_events_processed chain source event n m)" "well_labelled (inc_rpc_error chain cls m)"
    "well_labelled (set_head_block chain block m)" "well_labelled (set_finalized_block chain block m)"
    "well_labelled (set_source_progress chain source processed finalized m)" "well_labelled (inc_reorgs_detected chain source n m)"
  using assms
  by (simp_all add: well_labelled_def label_counts set_job_backlog_def inc_failed_job_def inc_dead_letter_job_def
      inc_worker_lease_failure_def inc_events_processed_def inc_rpc_error_def set_head_block_def set_finalized_block_def
      set_source_progress_def inc_reorgs_detected_def)

section \<open>Tracing\<close>

text \<open>The setup of the log output (src/infra/telemetry/tracing.rs). The crate parses the directives of \<open>RUST_LOG\<close>, and the
  output is not set up if another library has done so.\<close>

record log_output =
  lo_filter :: string
  lo_json :: bool

record tracing_state =
  ts_done :: bool
  ts_output :: "log_output option"

definition env_filter :: "(string \<Rightarrow> string option) \<Rightarrow> (string \<Rightarrow> bool) \<Rightarrow> string" where
  "env_filter env parses = (case env ''RUST_LOG'' of Some value \<Rightarrow> if parses value then value else ''info'' | None \<Rightarrow> ''info'')"

definition init_tracing :: "(string \<Rightarrow> string option) \<Rightarrow> (string \<Rightarrow> bool) \<Rightarrow> tracing_state \<Rightarrow> tracing_state" where
  "init_tracing env parses s =
     (if ts_done s then s
      else
        (let log_format = (case env ''LOG_FORMAT'' of Some value \<Rightarrow> value | None \<Rightarrow> ''pretty'');
             output = \<lparr>lo_filter = env_filter env parses, lo_json = (to_ascii_lowercase log_format = ''json'')\<rparr>
         in \<lparr>ts_done = True, ts_output = (case ts_output s of Some other \<Rightarrow> Some other | None \<Rightarrow> Some output)\<rparr>))"

text \<open>Setting it up again, whatever the environment has become, changes nothing.\<close>

lemma init_tracing_once: "init_tracing env' parses' (init_tracing env parses s) = init_tracing env parses s"
  by (simp add: init_tracing_def Let_def)

lemma init_tracing_output: "ts_output s \<noteq> None \<Longrightarrow> ts_output (init_tracing env parses s) = ts_output s"
  by (auto simp: init_tracing_def Let_def)

end
